(* ===== verification/Prelude.thy ===== *)
theory Prelude
  imports Main "HOL-Library.State_Monad"
begin

text \<open>
  Shared material of the development: the collections of rules that the component theories
  feed, two-state relations over the state monad (what every run of an operation keeps of the
  state it started from), and generic facts on lists.
\<close>

section \<open>Collections\<close>

named_theorems rel_intros \<open>two-state relations kept by stateful operations\<close>
named_theorems go_defs \<open>definitions that a run of an operation unfolds\<close>

section \<open>The state monad\<close>

abbreviation ret :: "'a \<Rightarrow> ('s, 'a) state" where
  "ret \<equiv> State_Monad.return"

text \<open>A predicate that holds after a step whenever it held before, as a two-state relation.\<close>

definition keeps :: "('s \<Rightarrow> bool) \<Rightarrow> 's \<Rightarrow> 's \<Rightarrow> bool" where
  "keeps I s t \<longleftrightarrow> (I s \<longrightarrow> I t)"

lemma keeps_reflp [simp, intro]: "reflp (keeps I)"
  by (simp add: reflp_def keeps_def)

lemma keeps_transp [simp, intro]: "transp (keeps I)"
  by (auto simp: transp_def keeps_def)

lemma rel_ret [rel_intros]: "reflp P \<Longrightarrow> state_io_rel P (ret x)"
  by (auto simp: state_io_rel_def reflp_def)

lemma rel_bind [rel_intros]:
  "transp P \<Longrightarrow> state_io_rel P m \<Longrightarrow> (\<And>x. state_io_rel P (f x)) \<Longrightarrow> state_io_rel P (m \<bind> f)"
  by (auto simp: state_io_rel_def transp_def split: prod.splits) (metis prod.collapse snd_conv)

lemma rel_if [rel_intros]:
  "state_io_rel P m \<Longrightarrow> state_io_rel P n \<Longrightarrow> state_io_rel P (if b then m else n)"
  by simp

lemma rel_sum [rel_intros]:
  "(\<And>a. state_io_rel P (f a)) \<Longrightarrow> (\<And>b. state_io_rel P (g b)) \<Longrightarrow>
   state_io_rel P (case r of Inl a \<Rightarrow> f a | Inr b \<Rightarrow> g b)"
  by (simp split: sum.split)

lemma rel_option [rel_intros]:
  "state_io_rel P m \<Longrightarrow> (\<And>x. state_io_rel P (f x)) \<Longrightarrow>
   state_io_rel P (case r of None \<Rightarrow> m | Some x \<Rightarrow> f x)"
  by (simp split: option.split)

lemma rel_prod [rel_intros]:
  "(\<And>x y. state_io_rel P (f x y)) \<Longrightarrow> state_io_rel P (case p of (x, y) \<Rightarrow> f x y)"
  by (simp split: prod.split)

lemma rel_let [rel_intros]:
  "(\<And>x. state_io_rel P (f x)) \<Longrightarrow> state_io_rel P (let x = e in f x)"
  by simp

definition ignore :: "('s, 'a) state \<Rightarrow> ('s, unit) state" where
  "ignore m = do { _ \<leftarrow> m; ret () }"

lemma rel_ignore [simp]: "state_io_rel P (ignore m) \<longleftrightarrow> state_io_rel P m"
  by (simp add: ignore_def state_io_rel_def case_prod_beta)

lemma run_ignore [simp]: "run_state (ignore m) w = ((), snd (run_state m w))"
  by (simp add: ignore_def split: prod.split)

section \<open>Options\<close>

lemma option_eqI: "(\<And>p. x = Some p \<longleftrightarrow> y = Some p) \<Longrightarrow> x = y"
  by (cases x; cases y) auto

section \<open>Runs\<close>

text \<open>A run of a sequence, taken apart at its first operation.\<close>

lemma run_bindE:
  assumes "run_state (m \<bind> f) s = (r, t)"
  obtains x u where "run_state m s = (x, u)" and "run_state (f x) u = (r, t)"
  using assms by (auto split: prod.splits)

section \<open>Lists updated where a predicate holds\<close>

text \<open>The rows of a table after an update of those that a condition selects.\<close>

definition update_where :: "('a \<Rightarrow> bool) \<Rightarrow> ('a \<Rightarrow> 'a) \<Rightarrow> 'a list \<Rightarrow> 'a list" where
  "update_where p f xs = map (\<lambda>x. if p x then f x else x) xs"

lemma update_where_simps [simp]:
  "update_where p f [] = []"
  "update_where p f (x # xs) = (if p x then f x else x) # update_where p f xs"
  by (simp_all add: update_where_def)

lemma length_update_where [simp]: "length (update_where p f xs) = length xs"
  by (simp add: update_where_def)

lemma set_update_where: "set (update_where p f xs) = (\<lambda>x. if p x then f x else x) ` set xs"
  by (simp add: update_where_def)

lemma map_update_where:
  "(\<And>x. p x \<Longrightarrow> g (f x) = g x) \<Longrightarrow> map g (update_where p f xs) = map g xs"
  by (induction xs) auto

lemma update_where_none: "(\<And>x. x \<in> set xs \<Longrightarrow> \<not> p x) \<Longrightarrow> update_where p f xs = xs"
  by (induction xs) auto

end
