(* ===== verification/GoStd.thy ===== *)
theory GoStd
  imports Prelude "HOL-Library.Word" "HOL-Library.Sublist"
begin

text \<open>
  What the program uses of Go's standard library: \<open>strings\<close>, \<open>strconv\<close>, \<open>time\<close>,
  \<open>encoding/hex\<close> and one verb of \<open>fmt\<close>. A Go \<open>string\<close> is its list of bytes (a HOL
  \<open>string\<close>), a Go \<open>int\<close> is a \<open>64 word\<close> read as signed, a \<open>time.Time\<close> is a number of
  nanoseconds and a \<open>time.Duration\<close> is a \<open>64 word\<close> number of nanoseconds.
\<close>

section \<open>Bytes and strings\<close>

text \<open>
  \<open>strings.TrimSpace\<close> removes the code points with Unicode's White\_Space property from both
  ends; these are their UTF-8 encodings.
\<close>

definition utf8_spaces :: "string list" where
  "utf8_spaces =
     [[CHR 0x09], [CHR 0x0A], [CHR 0x0B], [CHR 0x0C], [CHR 0x0D], [CHR 0x20],
      [CHR 0xC2, CHR 0x85], [CHR 0xC2, CHR 0xA0], [CHR 0xE1, CHR 0x9A, CHR 0x80],
      [CHR 0xE2, CHR 0x80, CHR 0x80], [CHR 0xE2, CHR 0x80, CHR 0x81],
      [CHR 0xE2, CHR 0x80, CHR 0x82], [CHR 0xE2, CHR 0x80, CHR 0x83],
      [CHR 0xE2, CHR 0x80, CHR 0x84], [CHR 0xE2, CHR 0x80, CHR 0x85],
      [CHR 0xE2, CHR 0x80, CHR 0x86], [CHR 0xE2, CHR 0x80, CHR 0x87],
      [CHR 0xE2, CHR 0x80, CHR 0x88], [CHR 0xE2, CHR 0x80, CHR 0x89],
      [CHR 0xE2, CHR 0x80, CHR 0x8A], [CHR 0xE2, CHR 0x80, CHR 0xA8],
      [CHR 0xE2, CHR 0x80, CHR 0xA9], [CHR 0xE2, CHR 0x80, CHR 0xAF],
      [CHR 0xE2, CHR 0x81, CHR 0x9F], [CHR 0xE3, CHR 0x80, CHR 0x80]]"

text \<open>Drop one member of \<open>ws\<close> from the front as long as there is one.\<close>

function trim_front :: "string list \<Rightarrow> string \<Rightarrow> string" where
  "trim_front ws s =
     (case find (\<lambda>w. w \<noteq> [] \<and> prefix w s) ws of
        None \<Rightarrow> s
      | Some w \<Rightarrow> trim_front ws (drop (length w) s))"
  by pat_completeness auto
termination
  by (relation "measure (\<lambda>(ws, s). length s)")
     (auto simp: find_Some_iff prefix_def)

declare trim_front.simps [simp del]

definition TrimSpace :: "string \<Rightarrow> string" where
  "TrimSpace s = rev (trim_front (map rev utf8_spaces) (rev (trim_front utf8_spaces s)))"

lemma trim_front_suffix: "suffix (trim_front ws s) s"
proof (induction ws s rule: trim_front.induct)
  case (1 ws s)
  show ?case
  proof (cases "find (\<lambda>w. w \<noteq> [] \<and> prefix w s) ws")
    case None
    then show ?thesis by (subst trim_front.simps) simp
  next
    case (Some w)
    then have "suffix (trim_front ws (drop (length w) s)) (drop (length w) s)"
      by (rule 1)
    then have "suffix (trim_front ws (drop (length w) s)) s"
      using suffix_drop suffix_order.trans by blast
    with Some show ?thesis by (subst trim_front.simps) simp
  qed
qed

lemma trim_front_no_space: "w \<in> set ws \<Longrightarrow> w \<noteq> [] \<Longrightarrow> \<not> prefix w (trim_front ws s)"
proof (induction ws s rule: trim_front.induct)
  case (1 ws s)
  show ?case
  proof (cases "find (\<lambda>w. w \<noteq> [] \<and> prefix w s) ws")
    case None
    then have "trim_front ws s = s" by (subst trim_front.simps) simp
    with None "1.prems" show ?thesis by (auto simp: find_None_iff)
  next
    case (Some v)
    then have "trim_front ws s = trim_front ws (drop (length v) s)"
      by (subst trim_front.simps) simp
    with "1.IH" [OF Some] "1.prems" show ?thesis by simp
  qed
qed

lemma trim_front_id: "\<forall>w \<in> set ws. w \<noteq> [] \<longrightarrow> \<not> prefix w s \<Longrightarrow> trim_front ws s = s"
  by (subst trim_front.simps) (auto split: option.split simp: find_Some_iff)

lemma trim_front_idem [simp]: "trim_front ws (trim_front ws s) = trim_front ws s"
  by (rule trim_front_id) (auto simp: trim_front_no_space)

definition trimmed :: "string \<Rightarrow> bool" where
  "trimmed s \<longleftrightarrow> (\<forall>w \<in> set utf8_spaces. \<not> prefix w s \<and> \<not> suffix w s)"

lemma utf8_spaces_ne: "w \<in> set utf8_spaces \<Longrightarrow> w \<noteq> []"
  by (auto simp: utf8_spaces_def)

lemma TrimSpace_trimmed: "trimmed (TrimSpace s)"
proof -
  let ?t = "trim_front utf8_spaces s"
  let ?u = "trim_front (map rev utf8_spaces) (rev ?t)"
  have pre: "prefix (rev ?u) ?t"
    using trim_front_suffix [of "map rev utf8_spaces" "rev ?t"] by (simp add: suffix_to_prefix)
  have "\<not> prefix w (rev ?u)" if "w \<in> set utf8_spaces" for w
    using that pre trim_front_no_space [of w utf8_spaces s] utf8_spaces_ne
    by (blast intro: prefix_order.trans)
  moreover have "\<not> suffix w (rev ?u)" if "w \<in> set utf8_spaces" for w
    using that trim_front_no_space [of "rev w" "map rev utf8_spaces" "rev ?t"] utf8_spaces_ne
    by (auto simp: suffix_to_prefix)
  ultimately show ?thesis by (auto simp: trimmed_def TrimSpace_def)
qed

lemma length_TrimSpace: "length (TrimSpace s) \<le> length s"
  using suffix_length_le [OF trim_front_suffix, of utf8_spaces s]
    suffix_length_le [OF trim_front_suffix, of "map rev utf8_spaces" "rev (trim_front utf8_spaces s)"]
  by (simp add: TrimSpace_def)

lemma trimmed_TrimSpace: "trimmed s \<Longrightarrow> TrimSpace s = s"
  using utf8_spaces_ne
  by (auto simp: TrimSpace_def trimmed_def trim_front_id suffix_to_prefix)

lemma TrimSpace_idem [simp]: "TrimSpace (TrimSpace s) = TrimSpace s"
  by (rule trimmed_TrimSpace) (rule TrimSpace_trimmed)

lemma TrimSpace_Nil [simp]: "TrimSpace [] = []"
  by (rule trimmed_TrimSpace) (auto simp: trimmed_def dest: utf8_spaces_ne)

text \<open>
  \<open>strings.ToLower\<close> lowers byte by byte when every byte is ASCII; otherwise it maps
  \<open>unicode.ToLower\<close> over the code points, whose case tables are the parameter \<open>uni\<close>.
\<close>

definition isASCII :: "string \<Rightarrow> bool" where
  "isASCII s \<longleftrightarrow> list_all (\<lambda>c. of_char c < (128::nat)) s"

definition lower_byte :: "char \<Rightarrow> char" where
  "lower_byte c =
     (if 65 \<le> (of_char c :: nat) \<and> (of_char c :: nat) \<le> 90 then char_of (of_char c + 32 :: nat) else c)"

definition ToLower :: "(string \<Rightarrow> string) \<Rightarrow> string \<Rightarrow> string" where
  "ToLower uni s = (if isASCII s then map lower_byte s else uni s)"

lemma lower_byte_idem [simp]: "lower_byte (lower_byte c) = lower_byte c"
  by (auto simp: lower_byte_def)

lemma lower_byte_ascii: "of_char c < (128::nat) \<Longrightarrow> of_char (lower_byte c) < (128::nat)"
  by (auto simp: lower_byte_def)

lemma isASCII_map_lower [simp]: "isASCII s \<Longrightarrow> isASCII (map lower_byte s)"
  by (auto simp: isASCII_def list_all_iff lower_byte_ascii)

lemma ToLower_ascii_idem: "isASCII s \<Longrightarrow> ToLower uni (ToLower uni s) = ToLower uni s"
  by (simp add: ToLower_def comp_def)

lemma isASCII_simps [simp]:
  "isASCII []" "isASCII (c # s) \<longleftrightarrow> of_char c < (128::nat) \<and> isASCII s"
  by (simp_all add: isASCII_def)

text \<open>
  The case tables of package \<open>unicode\<close>, as far as the program relies on them: lowering a
  lowered string changes nothing, and it turns no other code point into white space.
\<close>

definition unicode_laws :: "(string \<Rightarrow> string) \<Rightarrow> bool" where
  "unicode_laws uni \<longleftrightarrow>
     (\<forall>s. \<not> isASCII s \<longrightarrow> ToLower uni (uni s) = uni s) \<and>
     (\<forall>s. \<not> isASCII s \<longrightarrow> trimmed s \<longrightarrow> trimmed (uni s))"

definition norm_email :: "(string \<Rightarrow> string) \<Rightarrow> string \<Rightarrow> string" where
  "norm_email uni s = ToLower uni (TrimSpace s)"

lemma norm_email_TrimSpace [simp]: "norm_email uni (TrimSpace s) = norm_email uni s"
  by (simp add: norm_email_def)

text \<open>Lowering neither makes nor removes white space, so normalising twice is normalising once.\<close>

lemma lower_byte_id: "lower_byte c = d \<Longrightarrow> \<not> (97 \<le> (of_char d :: nat) \<and> (of_char d :: nat) \<le> 122) \<Longrightarrow> c = d"
  by (auto simp: lower_byte_def split: if_splits)

lemma utf8_spaces_lower: "w \<in> set utf8_spaces \<Longrightarrow> map lower_byte xs = w \<Longrightarrow> xs = w"
proof -
  assume w: "w \<in> set utf8_spaces" and xs: "map lower_byte xs = w"
  have "\<forall>w \<in> set utf8_spaces. \<forall>d \<in> set w. \<not> (97 \<le> (of_char d :: nat) \<and> (of_char d :: nat) \<le> 122)"
    by (simp add: utf8_spaces_def)
  with w have "\<forall>d \<in> set w. \<not> (97 \<le> (of_char d :: nat) \<and> (of_char d :: nat) \<le> 122)" by blast
  with xs have "\<forall>x \<in> set xs. lower_byte x = x"
    using lower_byte_id by fastforce
  then have "map lower_byte xs = xs" by (simp add: map_idI)
  with xs show "xs = w" by simp
qed

lemma trimmed_lower: "trimmed s \<Longrightarrow> trimmed (map lower_byte s)"
proof -
  assume s: "trimmed s"
  have "\<not> prefix w (map lower_byte s)" if w: "w \<in> set utf8_spaces" for w
  proof
    assume "prefix w (map lower_byte s)"
    then have "map lower_byte (take (length w) s) = w"
      by (metis append_eq_conv_conj prefix_def take_map)
    then have "take (length w) s = w" by (rule utf8_spaces_lower [OF w])
    then have "prefix w s" by (metis take_is_prefix)
    with s w show False by (simp add: trimmed_def)
  qed
  moreover have "\<not> suffix w (map lower_byte s)" if w: "w \<in> set utf8_spaces" for w
  proof
    assume "suffix w (map lower_byte s)"
    then obtain zs where "map lower_byte s = zs @ w" by (auto simp: suffix_def)
    then have "map lower_byte (drop (length zs) s) = w"
      by (metis append_eq_conv_conj drop_map)
    then have "drop (length zs) s = w" by (rule utf8_spaces_lower [OF w])
    then have "suffix w s" by (metis suffix_drop)
    with s w show False by (simp add: trimmed_def)
  qed
  ultimately show ?thesis by (simp add: trimmed_def)
qed

lemma norm_email_idem:
  assumes "unicode_laws uni"
  shows "norm_email uni (norm_email uni s) = norm_email uni s"
proof (cases "isASCII (TrimSpace s)")
  case True
  then show ?thesis
    using trimmed_TrimSpace [OF trimmed_lower [OF TrimSpace_trimmed, of s]]
    by (simp add: norm_email_def ToLower_def comp_def)
next
  case False
  then show ?thesis
    using assms trimmed_TrimSpace [of "uni (TrimSpace s)"] TrimSpace_trimmed [of s]
    by (simp add: norm_email_def ToLower_def unicode_laws_def)
qed

text \<open>\<open>strings.EqualFold\<close> against an ASCII word without \<open>k\<close> and \<open>s\<close> (the two ASCII letters
  with a fold outside ASCII).\<close>

definition EqualFold :: "string \<Rightarrow> string \<Rightarrow> bool" where
  "EqualFold s t \<longleftrightarrow> map lower_byte s = map lower_byte t"

text \<open>Messages of the source hold an em dash, three bytes of UTF-8.\<close>

definition em_dash :: string where "em_dash = [CHR 0xE2, CHR 0x80, CHR 0x94]"

text \<open>\<open>strings.SplitN(s, sep, 2)\<close> for a one-byte separator.\<close>

fun SplitN2 :: "char \<Rightarrow> string \<Rightarrow> string list" where
  "SplitN2 sep s =
     (case dropWhile (\<lambda>c. c \<noteq> sep) s of
        [] \<Rightarrow> [s]
      | _ # rest \<Rightarrow> [takeWhile (\<lambda>c. c \<noteq> sep) s, rest])"

section \<open>Integers, time and durations\<close>

type_synonym int64 = "64 word"
type_synonym time = int

definition time_Millisecond :: int64 where "time_Millisecond = 1000000"
definition time_Second :: int64 where "time_Second = 1000000000"
definition time_Minute :: int64 where "time_Minute = 60000000000"
definition time_Hour :: int64 where "time_Hour = 3600000000000"

lemmas time_units = time_Millisecond_def time_Second_def time_Minute_def time_Hour_def

definition time_Add :: "time \<Rightarrow> int64 \<Rightarrow> time" where
  "time_Add t d = t + sint d"

definition time_After :: "time \<Rightarrow> time \<Rightarrow> bool" where
  "time_After t u \<longleftrightarrow> t > u"

definition time_Before :: "time \<Rightarrow> time \<Rightarrow> bool" where
  "time_Before t u \<longleftrightarrow> t < u"

lemma sint_int64: "- (2 ^ 63) \<le> k \<Longrightarrow> k < 2 ^ 63 \<Longrightarrow> sint (word_of_int k :: int64) = k"
  by (simp add: sint_sbintrunc' signed_take_bit_int_eq_self)

lemma sint_int64_bounds: "- (2 ^ 63) \<le> sint (x :: int64)" "sint (x :: int64) < 2 ^ 63"
  using sint_ge [of x] sint_lt [of x] by simp_all

lemma sint_mult_int64:
  assumes "- (2 ^ 63) \<le> sint a * sint b" and "sint a * sint b < 2 ^ 63"
  shows "sint (a * b :: int64) = sint a * sint b"
proof -
  have "a * b = word_of_int (sint a * sint b)"
    by simp
  with assms show ?thesis by (simp only: sint_int64)
qed

lemma sint_minutes:
  "0 \<le> sint n \<Longrightarrow> sint n \<le> 153722867 \<Longrightarrow> sint (n * time_Minute) = sint n * 60000000000"
  by (subst sint_mult_int64) (simp_all add: time_Minute_def)

lemma sint_hours:
  "0 \<le> sint n \<Longrightarrow> sint n \<le> 2562047 \<Longrightarrow> sint (n * time_Hour) = sint n * 3600000000000"
  by (subst sint_mult_int64) (simp_all add: time_Hour_def)

section \<open>strconv\<close>

definition digit_val :: "char \<Rightarrow> nat" where
  "digit_val c = of_char c - 48"

definition is_digit :: "char \<Rightarrow> bool" where
  "is_digit c \<longleftrightarrow> 48 \<le> (of_char c :: nat) \<and> (of_char c :: nat) \<le> 57"

definition digit_char :: "nat \<Rightarrow> char" where
  "digit_char d = char_of (d + 48)"

text \<open>
  \<open>strconv.ParseUint\<close> in base 10 for 64 bits: scanning stops at the first byte that is no digit
  (a syntax error, \<open>None\<close>) or that takes the number past 64 bits (the largest value, whatever
  follows).
\<close>

fun ParseUint :: "nat \<Rightarrow> string \<Rightarrow> nat option" where
  "ParseUint n [] = Some n"
| "ParseUint n (c # cs) =
     (if \<not> is_digit c then None
      else if 2 ^ 64 \<le> 10 * n + digit_val c then Some (2 ^ 64 - 1)
      else ParseUint (10 * n + digit_val c) cs)"

text \<open>
  The value of \<open>strconv.Atoi\<close>: 0 on a syntax error, the nearest bound on a range error.
\<close>

definition Atoi_int :: "string \<Rightarrow> int" where
  "Atoi_int s =
     (let body = (case s of [] \<Rightarrow> [] | c # cs \<Rightarrow> if c = CHR ''+'' \<or> c = CHR ''-'' then cs else s)
      in if body = [] then 0
         else case ParseUint 0 body of
                None \<Rightarrow> 0
              | Some un \<Rightarrow>
                  if hd s = CHR ''-'' then - int (min un (2 ^ 63)) else int (min un (2 ^ 63 - 1)))"

definition Atoi :: "string \<Rightarrow> int64" where
  "Atoi s = word_of_int (Atoi_int s)"

lemma Atoi_int_bounds: "- (2 ^ 63) \<le> Atoi_int s \<and> Atoi_int s < 2 ^ 63"
  by (auto simp: Atoi_int_def Let_def min_def split: option.split)

lemma sint_Atoi [simp]: "sint (Atoi s) = Atoi_int s"
  unfolding Atoi_def using Atoi_int_bounds by (intro sint_int64) auto

text \<open>Decimal digits, the most significant first (\<open>strconv.Itoa\<close> of a number \<open>\<ge> 0\<close>).\<close>

fun dec_digits :: "nat \<Rightarrow> string" where
  "dec_digits n = (if n < 10 then [digit_char n] else dec_digits (n div 10) @ [digit_char (n mod 10)])"

declare dec_digits.simps [simp del]

definition Itoa :: "int \<Rightarrow> string" where
  "Itoa n = (if n < 0 then CHR ''-'' # dec_digits (nat (- n)) else dec_digits (nat n))"

text \<open>\<open>fmt.Sprintf("%06d", n)\<close> for a number \<open>\<ge> 0\<close>.\<close>

definition Sprintf_06d :: "nat \<Rightarrow> string" where
  "Sprintf_06d n = replicate (6 - length (dec_digits n)) (CHR ''0'') @ dec_digits n"

lemma digit_char_props [simp]:
  assumes "d < 10"
  shows "is_digit (digit_char d)" "digit_val (digit_char d) = d"
  using assms by (simp_all add: is_digit_def digit_val_def digit_char_def)

lemma length_dec_digits: "n < 10 ^ k \<Longrightarrow> 0 < k \<Longrightarrow> length (dec_digits n) \<le> k"
proof (induction n arbitrary: k rule: dec_digits.induct)
  case (1 n)
  show ?case
  proof (cases "n < 10")
    case True
    with "1.prems" show ?thesis by (subst dec_digits.simps) simp
  next
    case False
    with "1.prems" obtain j where k: "k = Suc j" and "0 < j"
      by (cases k) (auto, metis One_nat_def gr0I power_0 nat_mult_1_right)
    with "1.prems" False have "length (dec_digits (n div 10)) \<le> j"
      by (intro "1.IH") auto
    with False k show ?thesis by (subst dec_digits.simps) simp
  qed
qed

lemma length_Sprintf_06d: "n < 1000000 \<Longrightarrow> length (Sprintf_06d n) = 6"
  using length_dec_digits [of n 6] by (simp add: Sprintf_06d_def)

definition dec_value :: "string \<Rightarrow> nat" where
  "dec_value s = foldl (\<lambda>n c. 10 * n + digit_val c) 0 s"

lemma dec_value_digits [simp]: "dec_value (dec_digits n) = n"
proof (induction n rule: dec_digits.induct)
  case (1 n)
  then show ?case by (subst dec_digits.simps) (simp add: dec_value_def)
qed

lemma dec_value_zeros: "dec_value (replicate k (CHR ''0'') @ s) = dec_value s"
  by (induction k) (simp_all add: dec_value_def digit_val_def)

lemma dec_value_06d [simp]: "dec_value (Sprintf_06d n) = n"
  by (simp add: Sprintf_06d_def dec_value_zeros)

lemma digits_dec_digits: "list_all is_digit (dec_digits n)"
proof (induction n rule: dec_digits.induct)
  case (1 n)
  then show ?case by (subst dec_digits.simps) simp
qed

lemma digits_06d: "list_all is_digit (Sprintf_06d n)"
proof -
  have "is_digit (CHR ''0'')" by (simp add: is_digit_def)
  then show ?thesis
    using digits_dec_digits [of n] by (auto simp: Sprintf_06d_def list_all_iff)
qed

lemma digits_trimmed: "list_all is_digit s \<Longrightarrow> trimmed s"
proof -
  assume s: "list_all is_digit s"
  have edges: "\<forall>w \<in> set utf8_spaces. \<not> is_digit (hd w)"
    by (simp add: utf8_spaces_def is_digit_def)
  have "\<not> prefix w s \<and> \<not> suffix w s" if w: "w \<in> set utf8_spaces" for w
  proof -
    have "hd w \<in> set w" using utf8_spaces_ne [OF w] by simp
    moreover have "set w \<subseteq> set s" if "prefix w s \<or> suffix w s"
      using that by (auto dest: set_mono_prefix set_mono_suffix)
    ultimately show ?thesis
      using s edges w by (auto simp: list_all_iff)
  qed
  then show ?thesis by (simp add: trimmed_def)
qed

section \<open>encoding/hex\<close>

definition hex_digit :: "nat \<Rightarrow> char" where
  "hex_digit d = ''0123456789abcdef'' ! d"

definition hex_EncodeToString :: "string \<Rightarrow> string" where
  "hex_EncodeToString s =
     concat (map (\<lambda>c. [hex_digit (of_char c div 16), hex_digit (of_char c mod 16)]) s)"

lemma hex_digit_inj: "a < 16 \<Longrightarrow> b < 16 \<Longrightarrow> hex_digit a = hex_digit b \<longleftrightarrow> a = b"
proof -
  have "distinct ''0123456789abcdef''" by simp
  then show "a < 16 \<Longrightarrow> b < 16 \<Longrightarrow> hex_digit a = hex_digit b \<longleftrightarrow> a = b"
    unfolding hex_digit_def by (intro nth_eq_iff_index_eq) auto
qed

lemma hex_byte_inj:
  "hex_digit (of_char c div 16) = hex_digit (of_char d div 16) \<Longrightarrow>
   hex_digit (of_char c mod 16) = hex_digit (of_char d mod 16) \<Longrightarrow> c = d"
proof -
  have lt: "(of_char x :: nat) div 16 < 16" for x :: char
  proof -
    have "(of_char x :: nat) < 256" by (rule nat_of_char_less_256)
    then show ?thesis by (simp add: less_mult_imp_div_less)
  qed
  assume "hex_digit (of_char c div 16) = hex_digit (of_char d div 16)"
    and "hex_digit (of_char c mod 16) = hex_digit (of_char d mod 16)"
  then have "(of_char c :: nat) div 16 = of_char d div 16" "(of_char c :: nat) mod 16 = of_char d mod 16"
    using hex_digit_inj lt by auto
  then have "(of_char c :: nat) = of_char d" by (metis div_mult_mod_eq)
  then show ?thesis by simp
qed

lemma hex_EncodeToString_inj: "hex_EncodeToString s = hex_EncodeToString t \<longleftrightarrow> s = t"
proof
  show "hex_EncodeToString s = hex_EncodeToString t \<Longrightarrow> s = t"
  proof (induction s arbitrary: t)
    case Nil
    then show ?case by (cases t) (simp_all add: hex_EncodeToString_def)
  next
    case (Cons c s)
    then show ?case
      by (cases t) (auto simp: hex_EncodeToString_def intro: hex_byte_inj)
  qed
qed simp

end
