(* ===== verification/ApiError.thy ===== *)
theory ApiError
  imports GoStd
begin

text \<open>
  \<open>internal/lib/apierror.go\<close> and \<open>internal/lib/response.go\<close>: the structured error, the
  sentinel errors, the constructors, and the JSON envelope that \<open>Success\<close>, \<open>Created\<close>,
  \<open>NoContent\<close> and \<open>Fail\<close> write. A Go \<open>error\<close> is a value of \<open>goerr\<close>: a pointer to one of the
  package's sentinels, a freshly allocated \<open>*APIError\<close>, one of the two library sentinels the
  code compares with, a plain text error, or an error wrapped by \<open>fmt.Errorf\<close> with \<open>%w\<close>.
\<close>

section \<open>Codes and the error value\<close>

datatype ErrorCode =
    ErrCodeBadRequest | ErrCodeUnauthorized | ErrCodeForbidden | ErrCodeNotFound | ErrCodeConflict
  | ErrCodeInternal | ErrCodeTooManyRequests | ErrCodeUnprocessable | ErrCodeValidation

fun code_text :: "ErrorCode \<Rightarrow> string" where
  "code_text ErrCodeBadRequest = ''BAD_REQUEST''"
| "code_text ErrCodeUnauthorized = ''UNAUTHORIZED''"
| "code_text ErrCodeForbidden = ''FORBIDDEN''"
| "code_text ErrCodeNotFound = ''NOT_FOUND''"
| "code_text ErrCodeConflict = ''CONFLICT''"
| "code_text ErrCodeInternal = ''INTERNAL_ERROR''"
| "code_text ErrCodeTooManyRequests = ''TOO_MANY_REQUESTS''"
| "code_text ErrCodeUnprocessable = ''UNPROCESSABLE_ENTITY''"
| "code_text ErrCodeValidation = ''VALIDATION_ERROR''"

record APIError =
  aeCode :: ErrorCode
  aeMessage :: string
  aeDetails :: "(string \<times> string) list"
  aeStatus :: nat

text \<open>The sentinel variables of the package, and the values they point to.\<close>

datatype sentinel =
    ErrBadRequest | ErrUnauthorized | ErrForbidden | ErrNotFound | ErrConflict
  | ErrInternalServer | ErrTooManyRequests

definition NewAPIError :: "ErrorCode \<Rightarrow> string \<Rightarrow> nat \<Rightarrow> APIError" where
  "NewAPIError code message status =
     \<lparr>aeCode = code, aeMessage = message, aeDetails = [], aeStatus = status\<rparr>"

fun sentinel_value :: "sentinel \<Rightarrow> APIError" where
  "sentinel_value ErrBadRequest = NewAPIError ErrCodeBadRequest ''invalid request'' 400"
| "sentinel_value ErrUnauthorized = NewAPIError ErrCodeUnauthorized ''unauthorized'' 401"
| "sentinel_value ErrForbidden = NewAPIError ErrCodeForbidden ''forbidden'' 403"
| "sentinel_value ErrNotFound = NewAPIError ErrCodeNotFound ''resource not found'' 404"
| "sentinel_value ErrConflict = NewAPIError ErrCodeConflict ''resource already exists'' 409"
| "sentinel_value ErrInternalServer = NewAPIError ErrCodeInternal ''internal server error'' 500"
| "sentinel_value ErrTooManyRequests = NewAPIError ErrCodeTooManyRequests ''too many requests'' 429"

datatype goerr =
    Sentinel sentinel
  | Fresh APIError
  | NoRows \<comment> \<open>\<open>pgx.ErrNoRows\<close>\<close>
  | CtxCanceled \<comment> \<open>\<open>context.Canceled\<close>\<close>
  | Plain string
  | Wrapped string goerr

text \<open>\<open>errors.Is\<close>: the error itself or anything it wraps is the target (a pointer comparison, so
  only sentinels are ever targets).\<close>

fun errors_Is :: "goerr \<Rightarrow> goerr \<Rightarrow> bool" where
  "errors_Is (Wrapped m e) t \<longleftrightarrow> Wrapped m e = t \<or> errors_Is e t"
| "errors_Is e t \<longleftrightarrow> e = t"

text \<open>The type assertion \<open>err.(*APIError)\<close>, which does not look inside a wrapped error.\<close>

fun as_APIError :: "goerr \<Rightarrow> APIError option" where
  "as_APIError (Sentinel s) = Some (sentinel_value s)"
| "as_APIError (Fresh a) = Some a"
| "as_APIError _ = None"

definition Error :: "APIError \<Rightarrow> string" where
  "Error e = aeMessage e"

section \<open>Constructors\<close>

definition BadRequest :: "string \<Rightarrow> goerr" where
  "BadRequest msg = Fresh (NewAPIError ErrCodeBadRequest msg 400)"

definition BadRequestWithDetails :: "string \<Rightarrow> (string \<times> string) list \<Rightarrow> goerr" where
  "BadRequestWithDetails msg details =
     Fresh ((NewAPIError ErrCodeValidation msg 400)\<lparr>aeDetails := details\<rparr>)"

definition Unauthorized :: "string \<Rightarrow> goerr" where
  "Unauthorized msg = Fresh (NewAPIError ErrCodeUnauthorized msg 401)"

definition Forbidden :: "string \<Rightarrow> goerr" where
  "Forbidden msg = Fresh (NewAPIError ErrCodeForbidden msg 403)"

definition NotFound :: "string \<Rightarrow> goerr" where
  "NotFound msg = Fresh (NewAPIError ErrCodeNotFound msg 404)"

definition Conflict :: "string \<Rightarrow> goerr" where
  "Conflict msg = Fresh (NewAPIError ErrCodeConflict msg 409)"

definition InternalError :: "string \<Rightarrow> goerr" where
  "InternalError msg = Fresh (NewAPIError ErrCodeInternal msg 500)"

definition TooManyRequests :: "string \<Rightarrow> goerr" where
  "TooManyRequests msg = Fresh (NewAPIError ErrCodeTooManyRequests msg 429)"

definition UnprocessableEntity :: "string \<Rightarrow> goerr" where
  "UnprocessableEntity msg = Fresh (NewAPIError ErrCodeUnprocessable msg 422)"

lemmas constructor_defs =
  BadRequest_def BadRequestWithDetails_def Unauthorized_def Forbidden_def NotFound_def Conflict_def
  InternalError_def TooManyRequests_def UnprocessableEntity_def

section \<open>Responses\<close>

datatype json =
    JNull
  | JBool bool
  | JInt int
  | JString string
  | JTime time
  | JArray "json list"
  | JObject "(string \<times> json) list"

text \<open>What a handler has written: the status, and the body unless it wrote none.\<close>

record response =
  rStatus :: nat
  rBody :: "json option"
  rHeaders :: "(string \<times> string) list"

definition JSON :: "nat \<Rightarrow> json \<Rightarrow> response" where
  "JSON status body = \<lparr>rStatus = status, rBody = Some body, rHeaders = []\<rparr>"

record errorBody =
  ebCode :: ErrorCode
  ebMessage :: string
  ebDetails :: "(string \<times> string) list"

record envelope =
  eSuccess :: bool
  eData :: "json option"
  eError :: "errorBody option"
  eMeta :: "json option"

definition errorBody_json :: "errorBody \<Rightarrow> json" where
  "errorBody_json b =
     JObject ([(''code'', JString (code_text (ebCode b))), (''message'', JString (ebMessage b))] @
       (if ebDetails b = [] then [] else [(''details'', JObject (map (\<lambda>(k, v). (k, JString v)) (ebDetails b)))]))"

text \<open>The fields tagged \<open>omitempty\<close> are left out when they are nil.\<close>

definition envelope_json :: "envelope \<Rightarrow> json" where
  "envelope_json e =
     JObject ([(''success'', JBool (eSuccess e))] @
       (case eData e of None \<Rightarrow> [] | Some d \<Rightarrow> [(''data'', d)]) @
       (case eError e of None \<Rightarrow> [] | Some b \<Rightarrow> [(''error'', errorBody_json b)]) @
       (case eMeta e of None \<Rightarrow> [] | Some m \<Rightarrow> [(''meta'', m)]))"

definition Success :: "json \<Rightarrow> response" where
  "Success data = JSON 200 (envelope_json \<lparr>eSuccess = True, eData = Some data, eError = None, eMeta = None\<rparr>)"

definition SuccessWithMeta :: "json \<Rightarrow> json \<Rightarrow> response" where
  "SuccessWithMeta data meta =
     JSON 200 (envelope_json \<lparr>eSuccess = True, eData = Some data, eError = None, eMeta = Some meta\<rparr>)"

definition Created :: "json \<Rightarrow> response" where
  "Created data = JSON 201 (envelope_json \<lparr>eSuccess = True, eData = Some data, eError = None, eMeta = None\<rparr>)"

definition NoContent :: response where
  "NoContent = \<lparr>rStatus = 204, rBody = None, rHeaders = []\<rparr>"

definition FailStatus :: "nat \<Rightarrow> APIError \<Rightarrow> response" where
  "FailStatus status err =
     JSON status (envelope_json
       \<lparr>eSuccess = False, eData = None,
        eError = Some \<lparr>ebCode = aeCode err, ebMessage = aeMessage err, ebDetails = aeDetails err\<rparr>,
        eMeta = None\<rparr>)"

definition Fail :: "goerr \<Rightarrow> response" where
  "Fail err =
     (let apiErr = (case as_APIError err of Some a \<Rightarrow> a | None \<Rightarrow> sentinel_value ErrInternalServer)
      in JSON (aeStatus apiErr) (envelope_json
           \<lparr>eSuccess = False, eData = None,
            eError = Some \<lparr>ebCode = aeCode apiErr, ebMessage = aeMessage apiErr, ebDetails = aeDetails apiErr\<rparr>,
            eMeta = None\<rparr>))"

lemmas response_defs =
  JSON_def Success_def SuccessWithMeta_def Created_def NoContent_def FailStatus_def Fail_def

section \<open>Lemmas\<close>

lemma rStatus_simps [simp]:
  "rStatus (JSON n b) = n"
  "rStatus (Success d) = 200"
  "rStatus (SuccessWithMeta d m) = 200"
  "rStatus (Created d) = 201"
  "rStatus NoContent = 204"
  "rStatus (FailStatus n a) = n"
  by (simp_all add: response_defs)

lemma rStatus_Fail:
  "rStatus (Fail e) = (case as_APIError e of Some a \<Rightarrow> aeStatus a | None \<Rightarrow> 500)"
  by (simp add: Fail_def Let_def NewAPIError_def split: option.split)

lemma rStatus_Fail_simps [simp]:
  "rStatus (Fail (Sentinel ErrBadRequest)) = 400"
  "rStatus (Fail (Sentinel ErrUnauthorized)) = 401"
  "rStatus (Fail (Sentinel ErrForbidden)) = 403"
  "rStatus (Fail (Sentinel ErrNotFound)) = 404"
  "rStatus (Fail (Sentinel ErrConflict)) = 409"
  "rStatus (Fail (Sentinel ErrInternalServer)) = 500"
  "rStatus (Fail (Sentinel ErrTooManyRequests)) = 429"
  "rStatus (Fail (BadRequest m)) = 400"
  "rStatus (Fail (Unauthorized m)) = 401"
  "rStatus (Fail (Forbidden m)) = 403"
  "rStatus (Fail (NotFound m)) = 404"
  "rStatus (Fail (Conflict m)) = 409"
  "rStatus (Fail (InternalError m)) = 500"
  "rStatus (Fail (TooManyRequests m)) = 429"
  "rStatus (Fail (UnprocessableEntity m)) = 422"
  "rStatus (Fail (Plain m)) = 500"
  "rStatus (Fail (Wrapped m e)) = 500"
  "rStatus (Fail NoRows) = 500"
  by (simp_all add: rStatus_Fail constructor_defs NewAPIError_def)

lemma errors_Is_Sentinel [simp]:
  "errors_Is (Sentinel s) (Sentinel t) \<longleftrightarrow> s = t"
  "\<not> errors_Is (Fresh a) (Sentinel t)"
  "\<not> errors_Is NoRows (Sentinel t)"
  "\<not> errors_Is CtxCanceled (Sentinel t)"
  "\<not> errors_Is (Plain m) (Sentinel t)"
  "errors_Is (Wrapped m e) (Sentinel t) \<longleftrightarrow> errors_Is e (Sentinel t)"
  by simp_all

lemma constructors_not_sentinel [simp]:
  "BadRequest m \<noteq> Sentinel s" "Unauthorized m \<noteq> Sentinel s" "Conflict m \<noteq> Sentinel s"
  "\<not> errors_Is (BadRequest m) (Sentinel t)"
  "\<not> errors_Is (Unauthorized m) (Sentinel t)"
  "\<not> errors_Is (Conflict m) (Sentinel t)"
  by (simp_all add: constructor_defs)

end
