(* ===== verification/Models.thy ===== *)
theory Models
  imports ApiError
begin

text \<open>
  \<open>internal/models\<close>: the user, the password reset and the audit record, with the role table.
  A method that reads the clock (\<open>IsLocked\<close>, \<open>IsExpired\<close>) takes the instant it read as an
  argument. A role is a Go string, so it may hold a value outside the five constants.
\<close>

type_synonym uuid = "128 word"
type_synonym UserRole = string

definition RoleSuperAdmin :: UserRole where "RoleSuperAdmin = ''super_admin''"
definition RoleAdmin :: UserRole where "RoleAdmin = ''admin''"
definition RoleManager :: UserRole where "RoleManager = ''manager''"
definition RoleMember :: UserRole where "RoleMember = ''member''"
definition RoleViewer :: UserRole where "RoleViewer = ''viewer''"

lemmas role_defs =
  RoleSuperAdmin_def RoleAdmin_def RoleManager_def RoleMember_def RoleViewer_def

record User =
  uID :: uuid
  uEmail :: string
  uName :: string
  uPasswordHash :: string
  uRole :: UserRole
  uTOTPSecret :: "string option"
  uTOTPEnabled :: bool
  uFailedAttempts :: int
  uLockedUntil :: "time option"
  uIsActive :: bool
  uCreatedAt :: time
  uUpdatedAt :: time

definition IsLocked :: "time \<Rightarrow> User \<Rightarrow> bool" where
  "IsLocked now u = (case uLockedUntil u of None \<Rightarrow> False | Some t \<Rightarrow> time_Before now t)"

definition RolePermissions :: "UserRole \<Rightarrow> string list" where
  "RolePermissions role =
     (if role = RoleSuperAdmin then [''*'']
      else if role = RoleAdmin then [''users:read'', ''users:write'', ''users:invite'', ''audit:read'']
      else if role = RoleManager then [''users:read'', ''users:invite'']
      else if role = RoleMember then [''profile:read'', ''profile:write'']
      else if role = RoleViewer then [''profile:read'']
      else [])"

definition HasPermission :: "User \<Rightarrow> string \<Rightarrow> bool" where
  "HasPermission u perm = list_ex (\<lambda>p. p = ''*'' \<or> p = perm) (RolePermissions (uRole u))"

record PasswordReset =
  prID :: uuid
  prUserID :: uuid
  prOTPHash :: string
  prToken :: "string option"
  prExpiresAt :: time
  prUsedAt :: "time option"
  prCreatedAt :: time

definition IsExpired :: "time \<Rightarrow> PasswordReset \<Rightarrow> bool" where
  "IsExpired now r = time_After now (prExpiresAt r)"

definition IsConsumed :: "PasswordReset \<Rightarrow> bool" where
  "IsConsumed r = (prUsedAt r \<noteq> None)"

text \<open>\<open>json.RawMessage\<close> metadata is kept as the document it encodes.\<close>

record AuditLog =
  alID :: uuid
  alUserID :: "uuid option"
  alAction :: string
  alResource :: string
  alResourceID :: "string option"
  alIPAddress :: string
  alUserAgent :: string
  alMetadata :: json
  alCreatedAt :: time

section \<open>Lemmas\<close>

lemma RolePermissions_simps [simp]:
  "RolePermissions RoleSuperAdmin = [''*'']"
  "RolePermissions RoleAdmin = [''users:read'', ''users:write'', ''users:invite'', ''audit:read'']"
  "RolePermissions RoleManager = [''users:read'', ''users:invite'']"
  "RolePermissions RoleMember = [''profile:read'', ''profile:write'']"
  "RolePermissions RoleViewer = [''profile:read'']"
  by (simp_all add: RolePermissions_def role_defs)

lemma wildcard_only_super_admin: "''*'' \<in> set (RolePermissions r) \<longleftrightarrow> r = RoleSuperAdmin"
  by (simp add: RolePermissions_def role_defs)

section \<open>Properties\<close>

text \<open>C40: a user holds a permission exactly when the role is super admin or the role's list names it;
  so an unknown role holds none, and the roles are ordered: what a viewer may do a member may do,
  what a manager may do an admin may do, and what anyone may do a super admin may do.\<close>

theorem HasPermission_iff:
  "(HasPermission u p \<longleftrightarrow> uRole u = RoleSuperAdmin \<or> p \<in> set (RolePermissions (uRole u))) \<and>
   (uRole u \<notin> {RoleSuperAdmin, RoleAdmin, RoleManager, RoleMember, RoleViewer} \<longrightarrow> \<not> HasPermission u p) \<and>
   (HasPermission (u\<lparr>uRole := RoleManager\<rparr>) p \<longrightarrow> HasPermission (u\<lparr>uRole := RoleAdmin\<rparr>) p) \<and>
   (HasPermission (u\<lparr>uRole := RoleViewer\<rparr>) p \<longrightarrow> HasPermission (u\<lparr>uRole := RoleMember\<rparr>) p) \<and>
   (HasPermission u p \<longrightarrow> HasPermission (u\<lparr>uRole := RoleSuperAdmin\<rparr>) p)"
proof (intro conjI impI)
  show "HasPermission u p \<longleftrightarrow> uRole u = RoleSuperAdmin \<or> p \<in> set (RolePermissions (uRole u))"
    using wildcard_only_super_admin [of "uRole u"]
    by (auto simp: HasPermission_def list_ex_iff)
next
  assume "uRole u \<notin> {RoleSuperAdmin, RoleAdmin, RoleManager, RoleMember, RoleViewer}"
  then show "\<not> HasPermission u p"
    by (simp add: HasPermission_def RolePermissions_def)
qed (auto simp: HasPermission_def)

theorem HasPermission_iff_witness:
  "HasPermission \<lparr>uID = 1, uEmail = [], uName = [], uPasswordHash = [], uRole = RoleAdmin,
     uTOTPSecret = None, uTOTPEnabled = False, uFailedAttempts = 0, uLockedUntil = None,
     uIsActive = True, uCreatedAt = 0, uUpdatedAt = 0\<rparr> ''users:invite''"
  (is "HasPermission ?u _")
proof -
  have "HasPermission (?u\<lparr>uRole := RoleManager\<rparr>) ''users:invite''"
    by (simp add: HasPermission_def)
  then show ?thesis using HasPermission_iff [of ?u "''users:invite''"] by simp
qed

end
