(* ===== verification/Token.thy ===== *)
theory Token
  imports Models "HOL-Library.Countable"
begin

text \<open>
  \<open>internal/auth/token.go\<close>: the JWT claims, signing, parsing and the three issuers. The JWT
  library and \<open>uuid.UUID.String\<close> are parameters (\<open>jwt_lib\<close>); \<open>jwt_laws\<close> states what their
  documentation promises. Every function that reads the clock once takes that instant as an
  argument.
\<close>

section \<open>Claims\<close>

definition PurposeSession :: string where "PurposeSession = ''''"
definition PurposeMFA :: string where "PurposeMFA = ''mfa''"
definition PurposeTOTPSetup :: string where "PurposeTOTPSetup = ''totp_setup''"
definition PurposePasswordReset :: string where "PurposePasswordReset = ''pwd_reset''"
definition PurposeInvite :: string where "PurposeInvite = ''invite''"

lemmas purpose_defs =
  PurposeSession_def PurposeMFA_def PurposeTOTPSetup_def PurposePasswordReset_def PurposeInvite_def

record Claims =
  cSubject :: string
  cIssuedAt :: "time option"
  cExpiresAt :: "time option"
  cUserID :: uuid
  cEmail :: string
  cRole :: string
  cPermissions :: "string list"
  cPurpose :: string

text \<open>The signing method that a token's header names, as the key function sees it.\<close>

datatype signing_method = SigningMethodHMAC | OtherMethod string

record jwt_lib =
  NewNumericDate :: "time \<Rightarrow> time"
  SignedString :: "string \<Rightarrow> Claims \<Rightarrow> goerr + string"
  ParseWithClaims :: "time \<Rightarrow> string \<Rightarrow> (signing_method \<Rightarrow> goerr + string) \<Rightarrow> goerr + (Claims \<times> bool)"
  UUID_String :: "uuid \<Rightarrow> string"

section \<open>Sign and Parse\<close>

definition Sign :: "jwt_lib \<Rightarrow> string \<Rightarrow> Claims \<Rightarrow> goerr + string" where
  "Sign J secret claims =
     (case SignedString J secret claims of
        Inl err \<Rightarrow> Inl (Wrapped ''sign token'' err)
      | Inr tok \<Rightarrow> Inr tok)"

definition keyfunc :: "string \<Rightarrow> signing_method \<Rightarrow> goerr + string" where
  "keyfunc secret method =
     (case method of
        SigningMethodHMAC \<Rightarrow> Inr secret
      | OtherMethod alg \<Rightarrow> Inl (Plain (''unexpected signing method: '' @ alg)))"

definition Parse :: "jwt_lib \<Rightarrow> time \<Rightarrow> string \<Rightarrow> string \<Rightarrow> goerr + Claims" where
  "Parse J now tokenStr secret =
     (case ParseWithClaims J now tokenStr (keyfunc secret) of
        Inl err \<Rightarrow> Inl (Wrapped ''parse token'' err)
      | Inr (claims, valid) \<Rightarrow>
          if \<not> valid then Inl (Plain ''invalid token claims'')
          else if cSubject claims = '''' then Inl (Plain ''missing sub claim'')
          else Inr claims)"

section \<open>Issuers\<close>

definition IssueSessionToken ::
    "jwt_lib \<Rightarrow> time \<Rightarrow> string \<Rightarrow> uuid \<Rightarrow> string \<Rightarrow> string \<Rightarrow> string list \<Rightarrow> int64 \<Rightarrow> (goerr + string) \<times> time" where
  "IssueSessionToken J now secret userID email role perms ttl =
     (let expiresAt = time_Add now ttl;
          claims = \<lparr>cSubject = UUID_String J userID,
                    cIssuedAt = Some (NewNumericDate J now),
                    cExpiresAt = Some (NewNumericDate J expiresAt),
                    cUserID = userID, cEmail = email, cRole = role, cPermissions = perms,
                    cPurpose = PurposeSession\<rparr>
      in (Sign J secret claims, expiresAt))"

definition IssueMFAToken :: "jwt_lib \<Rightarrow> time \<Rightarrow> string \<Rightarrow> uuid \<Rightarrow> int64 \<Rightarrow> goerr + string" where
  "IssueMFAToken J now secret userID ttl =
     Sign J secret
       \<lparr>cSubject = UUID_String J userID,
        cIssuedAt = Some (NewNumericDate J now),
        cExpiresAt = Some (NewNumericDate J (time_Add now ttl)),
        cUserID = userID, cEmail = '''', cRole = '''', cPermissions = [],
        cPurpose = PurposeMFA\<rparr>"

definition IssuePurposeToken ::
    "jwt_lib \<Rightarrow> time \<Rightarrow> string \<Rightarrow> uuid \<Rightarrow> string \<Rightarrow> string \<Rightarrow> int64 \<Rightarrow> goerr + string" where
  "IssuePurposeToken J now secret userID email purpose ttl =
     Sign J secret
       \<lparr>cSubject = UUID_String J userID,
        cIssuedAt = Some (NewNumericDate J now),
        cExpiresAt = Some (NewNumericDate J (time_Add now ttl)),
        cUserID = userID, cEmail = email, cRole = '''', cPermissions = [],
        cPurpose = purpose\<rparr>"

lemmas issuer_defs = IssueSessionToken_def IssueMFAToken_def IssuePurposeToken_def

section \<open>What the JWT library documents\<close>

text \<open>
  A numeric date is the instant truncated to the second. A string that was signed under a secret
  parses under that secret to the claims it was made from strictly before the expiry it carries, and
  fails to parse from then on; no string at all parses at or after the expiry it carries.
  \<open>UUID.String\<close> is never empty.
\<close>

definition jwt_laws :: "jwt_lib \<Rightarrow> bool" where
  "jwt_laws J \<longleftrightarrow>
     (\<forall>t. NewNumericDate J t = t - t mod 1000000000) \<and>
     (\<forall>secret c tok now kf e.
        SignedString J secret c = Inr tok \<longrightarrow> cExpiresAt c = Some (NewNumericDate J e) \<longrightarrow>
        kf SigningMethodHMAC = Inr secret \<longrightarrow>
        (if now < NewNumericDate J e then ParseWithClaims J now tok kf = Inr (c, True)
         else \<exists>err. ParseWithClaims J now tok kf = Inl err)) \<and>
     (\<forall>now tok kf c v e.
        ParseWithClaims J now tok kf = Inr (c, v) \<longrightarrow> cExpiresAt c = Some e \<longrightarrow> now < e) \<and>
     (\<forall>u. UUID_String J u \<noteq> '''')"

lemma jwt_lawsD:
  assumes "jwt_laws J"
  shows "NewNumericDate J t = t - t mod 1000000000"
    and "SignedString J secret c = Inr tok \<Longrightarrow> cExpiresAt c = Some (NewNumericDate J e) \<Longrightarrow>
      kf SigningMethodHMAC = Inr secret \<Longrightarrow>
      (if now < NewNumericDate J e then ParseWithClaims J now tok kf = Inr (c, True)
       else \<exists>err. ParseWithClaims J now tok kf = Inl err)"
    and "ParseWithClaims J now tok kf = Inr (c, v) \<Longrightarrow> cExpiresAt c = Some e' \<Longrightarrow> now < e'"
    and "UUID_String J u \<noteq> ''''"
  using assms unfolding jwt_laws_def by blast+

section \<open>Lemmas\<close>

lemma Sign_Inr: "Sign J secret c = Inr tok \<longleftrightarrow> SignedString J secret c = Inr tok"
  by (simp add: Sign_def split: sum.split)

lemma Parse_Inr:
  "Parse J now tok secret = Inr c \<longleftrightarrow>
     ParseWithClaims J now tok (keyfunc secret) = Inr (c, True) \<and> cSubject c \<noteq> ''''"
  by (auto simp: Parse_def split: sum.split)

lemma Parse_unexpired:
  "jwt_laws J \<Longrightarrow> Parse J now tok secret = Inr c \<Longrightarrow> cExpiresAt c = Some e \<Longrightarrow> now < e"
  using jwt_lawsD(3) by (auto simp: Parse_Inr)

text \<open>A token that any issuer signed parses back to its claims until it expires, and to nothing after.\<close>

lemma Parse_Sign:
  assumes "jwt_laws J" "Sign J secret c = Inr tok"
    and "cExpiresAt c = Some (NewNumericDate J e)" "cSubject c = UUID_String J u"
  shows "if now < NewNumericDate J e then Parse J now tok secret = Inr c
    else \<exists>err. Parse J now tok secret = Inl err"
proof -
  have "keyfunc secret SigningMethodHMAC = Inr secret" by (simp add: keyfunc_def)
  then show ?thesis
    using jwt_lawsD(2) [OF assms(1), of secret c tok e "keyfunc secret" now] assms jwt_lawsD(4) [OF assms(1)]
    by (auto simp: Sign_Inr Parse_def split: if_splits)
qed

text \<open>So what a freshly issued token parses to does not depend on when it is parsed.\<close>

lemma Parse_Sign_claims:
  assumes "jwt_laws J" "Sign J secret c = Inr tok"
    and "cExpiresAt c = Some (NewNumericDate J e)" "cSubject c = UUID_String J u"
    and "Parse J now tok secret = Inr c'"
  shows "c' = c \<and> now < NewNumericDate J e"
  using Parse_Sign [OF assms(1-4), of now] assms(5) by (auto split: if_splits)

lemma issued_purpose:
  "jwt_laws J \<Longrightarrow> IssuePurposeToken J t secret u email purpose ttl = Inr tok \<Longrightarrow>
   Parse J now tok secret = Inr c \<Longrightarrow>
   cUserID c = u \<and> cEmail c = email \<and> cPurpose c = purpose \<and> cRole c = '''' \<and> cPermissions c = [] \<and>
   now < NewNumericDate J (time_Add t ttl)"
  by (drule Parse_Sign_claims [where e = "time_Add t ttl" and u = u])
    (auto simp: IssuePurposeToken_def)

lemma issued_mfa:
  "jwt_laws J \<Longrightarrow> IssueMFAToken J t secret u ttl = Inr tok \<Longrightarrow> Parse J now tok secret = Inr c \<Longrightarrow>
   cUserID c = u \<and> cPurpose c = PurposeMFA \<and> cRole c = '''' \<and> cPermissions c = [] \<and>
   now < NewNumericDate J (time_Add t ttl)"
  by (drule Parse_Sign_claims [where e = "time_Add t ttl" and u = u])
    (auto simp: IssueMFAToken_def)

lemma issued_session:
  "jwt_laws J \<Longrightarrow> IssueSessionToken J t secret u email role perms ttl = (Inr tok, expiry) \<Longrightarrow>
   Parse J now tok secret = Inr c \<Longrightarrow>
   expiry = time_Add t ttl \<and> cUserID c = u \<and> cEmail c = email \<and> cRole c = role \<and>
   cPermissions c = perms \<and> cPurpose c = PurposeSession \<and> now < NewNumericDate J expiry"
  by (drule Parse_Sign_claims [where e = "time_Add t ttl" and u = u])
    (auto simp: IssueSessionToken_def Let_def)

lemma numeric_date_bounds:
  assumes "jwt_laws J"
  shows "NewNumericDate J t \<le> t" "t - 1000000000 < NewNumericDate J t"
proof -
  have "0 \<le> t mod 1000000000" "t mod 1000000000 < 1000000000" by simp_all
  then show "NewNumericDate J t \<le> t" "t - 1000000000 < NewNumericDate J t"
    unfolding jwt_lawsD(1) [OF assms] by linarith+
qed

section \<open>A library that satisfies the laws\<close>

text \<open>
  The laws are consistent: a token that spells out the signing secret and the claims as one decimal
  number, which parsing reads back, satisfies them. The examples of the theories below use it.
\<close>

type_synonym claims_tuple =
  "string \<times> time option \<times> time option \<times> int \<times> string \<times> string \<times> string list \<times> string"

definition claims_tuple :: "Claims \<Rightarrow> claims_tuple" where
  "claims_tuple c =
     (cSubject c, cIssuedAt c, cExpiresAt c, uint (cUserID c), cEmail c, cRole c, cPermissions c, cPurpose c)"

definition tuple_claims :: "claims_tuple \<Rightarrow> Claims" where
  "tuple_claims = (\<lambda>(s, i, e, u, m, r, ps, p).
     \<lparr>cSubject = s, cIssuedAt = i, cExpiresAt = e, cUserID = word_of_int u, cEmail = m, cRole = r,
      cPermissions = ps, cPurpose = p\<rparr>)"

lemma tuple_claims_inverse [simp]: "tuple_claims (claims_tuple c) = c"
  by (simp add: tuple_claims_def claims_tuple_def)

definition spell :: "string \<Rightarrow> Claims \<Rightarrow> string" where
  "spell secret c = dec_digits (to_nat (secret, claims_tuple c))"

definition unspell :: "string \<Rightarrow> string \<times> Claims" where
  "unspell tok = (case from_nat (dec_value tok) of (secret, t) \<Rightarrow> (secret, tuple_claims t))"

lemma unspell_spell [simp]: "unspell (spell secret c) = (secret, c)"
  by (simp add: unspell_def spell_def)

definition example_jwt :: jwt_lib where
  "example_jwt =
     \<lparr>NewNumericDate = (\<lambda>t. t - t mod 1000000000),
      SignedString = (\<lambda>secret c. Inr (spell secret c)),
      ParseWithClaims = (\<lambda>now tok kf.
        case kf SigningMethodHMAC of
          Inl err \<Rightarrow> Inl err
        | Inr key \<Rightarrow>
            (case unspell tok of (secret, c) \<Rightarrow>
               if secret \<noteq> key then Inl (Plain ''signature is invalid'')
               else if (case cExpiresAt c of None \<Rightarrow> False | Some e \<Rightarrow> e \<le> now)
               then Inl (Plain ''token is expired'')
               else Inr (c, True))),
      UUID_String = (\<lambda>u. Itoa (uint u))\<rparr>"

lemma dec_digits_ne [simp]: "dec_digits n \<noteq> ''''"
  by (subst dec_digits.simps) simp

lemma jwt_laws_example [simp]: "jwt_laws example_jwt"
  unfolding jwt_laws_def
proof (intro conjI allI impI)
  fix now tok kf c v e
  assume "ParseWithClaims example_jwt now tok kf = Inr (c, v)" "cExpiresAt c = Some e"
  then show "now < e"
    by (auto simp: example_jwt_def split: sum.splits prod.splits if_splits option.splits)
qed (auto simp: example_jwt_def Itoa_def)

section \<open>Properties\<close>

text \<open>A purpose token (TOTP setup, password reset, invite) parses, under the secret it was signed
  with, to the user, email and purpose it was issued for, without a role or permissions, at every
  instant before its issue time plus its lifetime truncated to the second; at that instant and after
  it does not parse.\<close>

theorem IssuePurposeToken_roundtrip:
  assumes "jwt_laws J" and "IssuePurposeToken J t secret u email purpose ttl = Inr tok"
  shows "if now < NewNumericDate J (time_Add t ttl)
    then \<exists>c. Parse J now tok secret = Inr c \<and> cUserID c = u \<and> cEmail c = email \<and>
             cPurpose c = purpose \<and> cRole c = '''' \<and> cPermissions c = []
    else \<exists>err. Parse J now tok secret = Inl err"
  using Parse_Sign [OF assms(1) assms(2) [unfolded IssuePurposeToken_def], of "time_Add t ttl" u now]
  by simp

theorem IssuePurposeToken_roundtrip_witness:
  "\<exists>tok c. IssuePurposeToken example_jwt 0 ''k'' 7 ''a@b'' PurposeInvite time_Hour = Inr tok \<and>
     Parse example_jwt 5 tok ''k'' = Inr c \<and> cPurpose c = PurposeInvite"
proof -
  obtain tok where tok: "IssuePurposeToken example_jwt 0 ''k'' 7 ''a@b'' PurposeInvite time_Hour = Inr tok"
    by (simp add: IssuePurposeToken_def Sign_def example_jwt_def)
  have "(5::int) < NewNumericDate example_jwt (time_Add 0 time_Hour)"
    by (simp add: example_jwt_def time_Add_def time_Hour_def)
  then show ?thesis
    using IssuePurposeToken_roundtrip [OF jwt_laws_example tok, of 5] tok by auto
qed

text \<open>C35: a session token parses to the user, email, role and permissions it was issued for, with the
  empty purpose, strictly before the expiry that the issuer returns (to the second) and never after;
  an MFA token parses to its user with purpose \<open>mfa\<close> and carries no email, role or permission.\<close>

theorem IssueSession_IssueMFA_roundtrip:
  assumes "jwt_laws J"
    and "IssueSessionToken J t secret u email role perms ttl = (Inr tok, expiry)"
    and "IssueMFAToken J t secret u ttl' = Inr mtok"
  shows "expiry = time_Add t ttl \<and>
    (if now < NewNumericDate J expiry
     then \<exists>c. Parse J now tok secret = Inr c \<and> cUserID c = u \<and> cEmail c = email \<and> cRole c = role \<and>
              cPermissions c = perms \<and> cPurpose c = PurposeSession
     else \<exists>err. Parse J now tok secret = Inl err) \<and>
    (if now < NewNumericDate J (time_Add t ttl')
     then \<exists>c. Parse J now mtok secret = Inr c \<and> cUserID c = u \<and> cPurpose c = PurposeMFA \<and>
              cEmail c = '''' \<and> cRole c = '''' \<and> cPermissions c = []
     else \<exists>err. Parse J now mtok secret = Inl err)"
proof -
  have expiry: "expiry = time_Add t ttl"
    and tok: "Sign J secret
      \<lparr>cSubject = UUID_String J u, cIssuedAt = Some (NewNumericDate J t),
       cExpiresAt = Some (NewNumericDate J expiry), cUserID = u, cEmail = email, cRole = role,
       cPermissions = perms, cPurpose = PurposeSession\<rparr> = Inr tok"
    using assms(2) by (auto simp: IssueSessionToken_def Let_def)
  show ?thesis
    using expiry Parse_Sign [OF assms(1) tok, of expiry u now]
      Parse_Sign [OF assms(1) assms(3) [unfolded IssueMFAToken_def], of "time_Add t ttl'" u now]
    by simp
qed

theorem IssueSession_IssueMFA_roundtrip_witness:
  "\<exists>tok c. fst (IssueSessionToken example_jwt 0 ''k'' 7 ''a@b'' ''admin'' [''users:read''] time_Hour) = Inr tok \<and>
     Parse example_jwt 5 tok ''k'' = Inr c \<and> cRole c = ''admin'' \<and> cPurpose c = PurposeSession"
proof -
  obtain tok where tok:
    "IssueSessionToken example_jwt 0 ''k'' 7 ''a@b'' ''admin'' [''users:read''] time_Hour = (Inr tok, time_Add 0 time_Hour)"
    by (simp add: IssueSessionToken_def Sign_def example_jwt_def Let_def)
  obtain mtok where mtok: "IssueMFAToken example_jwt 0 ''k'' 7 time_Minute = Inr mtok"
    by (simp add: IssueMFAToken_def Sign_def example_jwt_def)
  have "(5::int) < NewNumericDate example_jwt (time_Add 0 time_Hour)"
    by (simp add: example_jwt_def time_Add_def time_Hour_def)
  then show ?thesis
    using IssueSession_IssueMFA_roundtrip [OF jwt_laws_example tok mtok, of 5] tok by auto
qed

end
