(* ===== verification/Runtime.thy ===== *)
theory Runtime
  imports Token
begin

text \<open>
  What the program meets outside its own source, and the state of a running process. Every call
  that leaves the process (a statement, a Redis command, a clock read, a random number) takes the
  next number of the counter \<open>ticks\<close>; what comes back is what the parameter \<open>outside\<close> holds for
  that number, so a theorem about every \<open>outside\<close> is a theorem about every behaviour of the clock,
  of the network and of the random source. Third-party functions are fields of \<open>outside\<close> too.
  The stores behind the repositories stay abstract: \<open>'d\<close> in \<open>'d world\<close>.
\<close>

section \<open>The outside\<close>

text \<open>
  A command sent over the network may be carried out and acknowledged, may be refused before it has
  any effect, or may take effect and lose its acknowledgement; the caller sees the same error in the
  last two cases.
\<close>

datatype fault = Healthy | Refused string | AckLost string

text \<open>\<open>EXPIRE\<close> takes whole seconds.\<close>

datatype redis_cmd = Redis_Incr string | Redis_Expire string int

record outside =
  now_at :: "nat \<Rightarrow> time"
  sql_fault :: "nat \<Rightarrow> fault"
  redis_fault :: "nat \<Rightarrow> fault"
  uuid_at :: "nat \<Rightarrow> uuid"
  rand_Int :: "nat \<Rightarrow> goerr + nat"
  rand_Read :: "nat \<Rightarrow> goerr + string"
  tie_at :: "nat \<Rightarrow> uuid \<Rightarrow> nat"
  unicode_lower :: "string \<Rightarrow> string"
  sha256_Sum256 :: "string \<Rightarrow> string"
  pg_time :: "time \<Rightarrow> time"
  pg_ilike :: "string \<Rightarrow> string \<Rightarrow> bool"
  bcrypt_Compare :: "string \<Rightarrow> string \<Rightarrow> bool"
  bcrypt_Generate :: "nat \<Rightarrow> string \<Rightarrow> nat \<Rightarrow> goerr + string"
  bcrypt_DefaultCost :: nat
  totp_Validate :: "time \<Rightarrow> string \<Rightarrow> string \<Rightarrow> bool"
  totp_Generate :: "nat \<Rightarrow> string \<Rightarrow> string \<Rightarrow> goerr + (string \<times> string)"
  redis_counter :: "(time \<times> redis_cmd) list \<Rightarrow> string \<Rightarrow> int64"
  redis_seconds :: "int64 \<Rightarrow> int" \<comment> \<open>the argument the client sends for a duration\<close>
  jwt :: jwt_lib

text \<open>
  What the Redis client documents of durations: whole seconds, rounded towards zero, and one second for a
  positive duration below it. \<open>redis_lifetime\<close> is the lifetime in nanoseconds that a duration so becomes.
\<close>

definition whole_seconds :: "int64 \<Rightarrow> int" where
  "whole_seconds d =
     (if 0 < sint d \<and> sint d < 1000000000 then 1
      else if sint d < 0 then - ((- sint d) div 1000000000) else sint d div 1000000000)"

definition redis_lifetime :: "int64 \<Rightarrow> int" where
  "redis_lifetime d = whole_seconds d * 1000000000"

lemma whole_seconds_pos: "0 < sint d \<Longrightarrow> 0 < whole_seconds d"
  by (simp add: whole_seconds_def pos_imp_zdiv_pos_iff)

lemma redis_lifetime_exact: "0 < sint d \<Longrightarrow> 1000000000 dvd sint d \<Longrightarrow> redis_lifetime d = sint d"
  by (auto simp: redis_lifetime_def whole_seconds_def dest: zdvd_imp_le)

section \<open>The state of a process\<close>

record 'd world =
  store :: 'd
  ticks :: nat
  redis_log :: "(time \<times> redis_cmd) list" \<comment> \<open>commands that took effect, oldest first\<close>
  outbox :: "(string \<times> string) list" \<comment> \<open>what the notifier has logged: email and code\<close>

definition tick :: "('d world, nat) state" where
  "tick = do {
     w \<leftarrow> State_Monad.get;
     _ \<leftarrow> State_Monad.set (w\<lparr>ticks := Suc (ticks w)\<rparr>);
     ret (ticks w)
   }"

text \<open>\<open>crypto/rand.Int\<close>: what the random source supplies, brought into the range.\<close>

definition crypto_rand_Int :: "outside \<Rightarrow> nat \<Rightarrow> ('d world, goerr + nat) state" where
  "crypto_rand_Int L bound = do {
     n \<leftarrow> tick;
     ret (case rand_Int L n of Inl err \<Rightarrow> Inl err | Inr k \<Rightarrow> Inr (k mod bound))
   }"

definition time_Now :: "outside \<Rightarrow> ('d world, time) state" where
  "time_Now L = do { n \<leftarrow> tick; ret (now_at L n) }"

lemma run_tick [simp]: "run_state tick w = (ticks w, w\<lparr>ticks := Suc (ticks w)\<rparr>)"
  by (simp add: tick_def)

lemma run_time_Now [simp]:
  "run_state (time_Now L) w = (now_at L (ticks w), w\<lparr>ticks := Suc (ticks w)\<rparr>)"
  by (simp add: time_Now_def)

section \<open>Frames\<close>

text \<open>
  An operation of a repository changes the store and lets the counter advance, nothing else.
\<close>

definition same_but_store :: "'d world \<Rightarrow> 'd world \<Rightarrow> bool" where
  "same_but_store w w' \<longleftrightarrow>
     redis_log w' = redis_log w \<and> outbox w' = outbox w \<and> ticks w \<le> ticks w'"

lemma same_but_store_order [simp, intro]: "reflp same_but_store" "transp same_but_store"
  by (auto simp: reflp_def transp_def same_but_store_def)

lemma same_but_store_simps [simp]:
  "same_but_store w w"
  "same_but_store w (w\<lparr>ticks := n\<rparr>) \<longleftrightarrow> ticks w \<le> n"
  by (auto simp: same_but_store_def)

lemma same_but_store_Suc: "same_but_store (w\<lparr>ticks := Suc (ticks w)\<rparr>) w' \<Longrightarrow> same_but_store w w'"
  by (simp add: same_but_store_def)

lemma same_but_store_trans: "same_but_store w w' \<Longrightarrow> same_but_store w' w'' \<Longrightarrow> same_but_store w w''"
  by (simp add: same_but_store_def)

text \<open>A relation between the stores before and after, lifted to worlds.\<close>

definition on_store :: "('d \<Rightarrow> 'd \<Rightarrow> bool) \<Rightarrow> 'd world \<Rightarrow> 'd world \<Rightarrow> bool" where
  "on_store P w w' \<longleftrightarrow> P (store w) (store w')"

lemma on_store_order [simp, intro]:
  "reflp P \<Longrightarrow> reflp (on_store P)" "transp P \<Longrightarrow> transp (on_store P)"
  unfolding reflp_def transp_def on_store_def by blast+

lemma rel_tick_store [rel_intros]: "reflp P \<Longrightarrow> state_io_rel (on_store P) tick"
  by (auto simp: state_io_rel_def on_store_def reflp_def)

lemma rel_time_Now_store [rel_intros]: "reflp P \<Longrightarrow> state_io_rel (on_store P) (time_Now L)"
  by (auto simp: state_io_rel_def on_store_def reflp_def)

end
