(* ===== verification/Database.thy ===== *)
theory Database
  imports Runtime
begin

text \<open>
  The PostgreSQL side of the program: the tables of \<open>migrations/\<close> with their constraints, the pools
  of \<open>internal/bootstrap/database.go\<close>, and the way a statement runs on one of them. A read replica
  is a copy of the tables that may lag behind the primary; \<open>Read\<close> picks one in turn.
\<close>

section \<open>The schema\<close>

text \<open>The enum \<open>user_role\<close> of migration 001. PostgreSQL orders an enum as it was declared.\<close>

datatype user_role = SuperAdmin | Admin | Manager | Member | Viewer

fun enum_out :: "user_role \<Rightarrow> string" where
  "enum_out SuperAdmin = ''super_admin''"
| "enum_out Admin = ''admin''"
| "enum_out Manager = ''manager''"
| "enum_out Member = ''member''"
| "enum_out Viewer = ''viewer''"

definition enum_in :: "string \<Rightarrow> user_role option" where
  "enum_in s = find (\<lambda>r. enum_out r = s) [SuperAdmin, Admin, Manager, Member, Viewer]"

fun enum_pos :: "user_role \<Rightarrow> nat" where
  "enum_pos SuperAdmin = 0"
| "enum_pos Admin = 1"
| "enum_pos Manager = 2"
| "enum_pos Member = 3"
| "enum_pos Viewer = 4"

lemma enum_pos_inj: "enum_pos r = enum_pos s \<longleftrightarrow> r = s"
  by (cases r; cases s) simp_all

instantiation user_role :: linorder
begin

definition less_eq_user_role :: "user_role \<Rightarrow> user_role \<Rightarrow> bool" where
  "less_eq_user_role r s \<longleftrightarrow> enum_pos r \<le> enum_pos s"

definition less_user_role :: "user_role \<Rightarrow> user_role \<Rightarrow> bool" where
  "less_user_role r s \<longleftrightarrow> enum_pos r < enum_pos s"

instance
  by standard (auto simp: less_eq_user_role_def less_user_role_def enum_pos_inj [symmetric])

end

lemma enum_in_out [simp]: "enum_in (enum_out r) = Some r"
  by (cases r) (simp_all add: enum_in_def)

lemma enum_in_Some: "enum_in s = Some r \<longleftrightarrow> s = enum_out r"
proof
  assume "enum_in s = Some r"
  then show "s = enum_out r" by (auto simp: enum_in_def split: if_splits)
qed simp

lemma enum_out_inj [simp]: "enum_out r = enum_out s \<longleftrightarrow> r = s"
  by (metis enum_in_out option.inject)

text \<open>The tables of migrations 002 and 003.\<close>

record users_row =
  c_id :: uuid
  c_email :: string
  c_name :: string
  c_password_hash :: string
  c_role :: user_role
  c_totp_secret :: "string option"
  c_totp_enabled :: bool
  c_failed_attempts :: int
  c_locked_until :: "time option"
  c_is_active :: bool
  c_created_at :: time
  c_updated_at :: time

record resets_row =
  r_id :: uuid
  r_user_id :: uuid
  r_otp_hash :: string
  r_token :: "string option"
  r_expires_at :: time
  r_used_at :: "time option"
  r_created_at :: time

record audit_row =
  a_id :: uuid
  a_user_id :: "uuid option"
  a_action :: string
  a_resource :: string
  a_resource_id :: "string option"
  a_ip_address :: string
  a_user_agent :: string
  a_metadata :: json
  a_created_at :: time

record tables =
  users :: "users_row list"
  password_resets :: "resets_row list"
  audit_logs :: "audit_row list"

text \<open>
  The constraints the schema declares: primary keys, the unique email, the foreign keys of
  \<open>password_resets\<close> and \<open>audit_logs\<close>, and the range of an \<open>INT\<close> column.
\<close>

definition wf_tables :: "tables \<Rightarrow> bool" where
  "wf_tables t \<longleftrightarrow>
     distinct (map c_id (users t)) \<and> distinct (map c_email (users t)) \<and>
     distinct (map r_id (password_resets t)) \<and> distinct (map a_id (audit_logs t)) \<and>
     r_user_id ` set (password_resets t) \<subseteq> c_id ` set (users t) \<and>
     {u. \<exists>r \<in> set (audit_logs t). a_user_id r = Some u} \<subseteq> c_id ` set (users t) \<and>
     (\<forall>r \<in> set (users t). - (2 ^ 31) \<le> c_failed_attempts r \<and> c_failed_attempts r < 2 ^ 31)"

section \<open>Pools\<close>

record DB =
  primary :: tables
  replicas :: "tables list"
  rr :: int64

datatype pool = WritePool | ReadPool nat

definition Read :: "DB \<Rightarrow> pool \<times> DB" where
  "Read db =
     (if length (replicas db) = 0 then (WritePool, db)
      else
        let idx = rr db + 1
        in (ReadPool (unat ((idx - 1) mod word_of_nat (length (replicas db)))), db\<lparr>rr := idx\<rparr>))"

fun pool_tables :: "DB \<Rightarrow> pool \<Rightarrow> tables" where
  "pool_tables db WritePool = primary db"
| "pool_tables db (ReadPool i) = replicas db ! i"

section \<open>Running a statement\<close>

text \<open>
  A statement that writes sees the server's clock and a fresh UUID for its defaults, and either
  fails on a constraint or gives a result and the new tables.
\<close>

type_synonym 'a stmt = "time \<Rightarrow> uuid \<Rightarrow> tables \<Rightarrow> goerr + ('a \<times> tables)"

definition pg_write :: "outside \<Rightarrow> 'a stmt \<Rightarrow> (DB world, goerr + 'a) state" where
  "pg_write L st = do {
     n \<leftarrow> tick;
     w \<leftarrow> State_Monad.get;
     case sql_fault L n of
       Refused m \<Rightarrow> ret (Inl (Plain m))
     | f \<Rightarrow>
         (case st (pg_time L (now_at L n)) (uuid_at L n) (primary (store w)) of
            Inl e \<Rightarrow> ret (Inl e)
          | Inr (a, t) \<Rightarrow> do {
              _ \<leftarrow> State_Monad.set (w\<lparr>store := (store w)\<lparr>primary := t\<rparr>\<rparr>);
              ret (case f of AckLost m \<Rightarrow> Inl (Plain m) | _ \<Rightarrow> Inr a)
            })
   }"

text \<open>A query runs on the pool that \<open>Read\<close> picks; its own number settles what SQL leaves open.\<close>

definition pg_read :: "outside \<Rightarrow> (nat \<Rightarrow> tables \<Rightarrow> goerr + 'a) \<Rightarrow> (DB world, goerr + 'a) state" where
  "pg_read L q = do {
     w \<leftarrow> State_Monad.get;
     let (p, db) = Read (store w);
     _ \<leftarrow> State_Monad.set (w\<lparr>store := db\<rparr>);
     n \<leftarrow> tick;
     ret (case sql_fault L n of
            Healthy \<Rightarrow> q n (pool_tables db p)
          | Refused m \<Rightarrow> Inl (Plain m)
          | AckLost m \<Rightarrow> Inl (Plain m))
   }"

text \<open>\<open>INSERT\<close>, \<open>UPDATE ... WHERE\<close> and \<open>DELETE ... WHERE\<close> report the rows they touched.\<close>

definition rows_affected :: "('a \<Rightarrow> bool) \<Rightarrow> 'a list \<Rightarrow> nat" where
  "rows_affected p xs = length (filter p xs)"

text \<open>\<open>QueryRow(...).Scan\<close>: the first row, or \<open>pgx.ErrNoRows\<close>.\<close>

definition first_row :: "'a list \<Rightarrow> goerr + 'a" where
  "first_row rows = (case rows of [] \<Rightarrow> Inl NoRows | r # _ \<Rightarrow> Inr r)"

definition update_users :: "(users_row \<Rightarrow> bool) \<Rightarrow> (users_row \<Rightarrow> users_row) \<Rightarrow> tables \<Rightarrow> tables" where
  "update_users p f t = t\<lparr>users := update_where p f (users t)\<rparr>"

section \<open>One node\<close>

text \<open>Without replicas every read sees the primary.\<close>

definition single_node :: "DB \<Rightarrow> bool" where
  "single_node db \<longleftrightarrow> replicas db = [] \<and> wf_tables (primary db)"

lemma Read_single [simp]: "replicas db = [] \<Longrightarrow> Read db = (WritePool, db)"
  by (simp add: Read_def)

lemma run_pg_read_single:
  assumes "replicas (store w) = []"
  shows "run_state (pg_read L q) w =
    (case sql_fault L (ticks w) of
        Healthy \<Rightarrow> q (ticks w) (primary (store w))
      | Refused m \<Rightarrow> Inl (Plain m)
      | AckLost m \<Rightarrow> Inl (Plain m), w\<lparr>ticks := Suc (ticks w)\<rparr>)"
  using assms by (simp add: pg_read_def split: fault.split)

text \<open>A query leaves every table as it was; a write changes the primary as its statement says, or not at all.\<close>

lemma pg_read_frame:
  assumes "run_state (pg_read L q) w = (r, w')"
  shows "primary (store w') = primary (store w) \<and> replicas (store w') = replicas (store w) \<and>
    same_but_store w w'"
  using assms
  by (auto simp: pg_read_def Read_def Let_def same_but_store_def split: if_splits prod.splits)

lemma pg_write_cases:
  assumes "run_state (pg_write L st) w = (r, w')"
  obtains (unchanged) e where "r = Inl e" "store w' = store w" "same_but_store w w'"
      "(\<exists>m. e = Plain m) \<or>
       st (pg_time L (now_at L (ticks w))) (uuid_at L (ticks w)) (primary (store w)) = Inl e"
  | (written) a t where
      "st (pg_time L (now_at L (ticks w))) (uuid_at L (ticks w)) (primary (store w)) = Inr (a, t)"
      "store w' = (store w)\<lparr>primary := t\<rparr>" "same_but_store w w'" "r = Inr a \<or> (\<exists>m. r = Inl (Plain m))"
  using assms
  by (auto simp: pg_write_def same_but_store_def split: fault.splits sum.splits prod.splits)

lemma run_pg_write_healthy:
  assumes "sql_fault L (ticks w) = Healthy"
  shows "run_state (pg_write L st) w =
    (case st (pg_time L (now_at L (ticks w))) (uuid_at L (ticks w)) (primary (store w)) of
       Inl e \<Rightarrow> (Inl e, w\<lparr>ticks := Suc (ticks w)\<rparr>)
     | Inr (a, t) \<Rightarrow> (Inr a, w\<lparr>ticks := Suc (ticks w), store := (store w)\<lparr>primary := t\<rparr>\<rparr>))"
  using assms by (auto simp: pg_write_def split: sum.splits prod.splits)

end
