(* ===== verification/Pagination.thy ===== *)
theory Pagination
  imports ApiError "HOL-Library.Signed_Division"
begin

text \<open>
  \<open>internal/lib/pagination.go\<close>: the page parameters read from a query string, the SQL offset and
  the metadata of a page. Go's \<open>int\<close> is a 64-bit word here, so the wrap-around of \<open>Offset\<close> and
  the clamping of \<open>strconv.Atoi\<close> are part of the model. A query string is the map from a key to
  its first value.
\<close>

definition defaultPage :: int64 where "defaultPage = 1"
definition defaultPageSize :: int64 where "defaultPageSize = 20"
definition maxPageSize :: int64 where "maxPageSize = 100"

lemmas page_consts = defaultPage_def defaultPageSize_def maxPageSize_def

record Params =
  Page :: int64
  PageSize :: int64

definition Offset :: "Params \<Rightarrow> int64" where
  "Offset p = (Page p - 1) * PageSize p"

record Meta =
  mPage :: int64
  mPageSize :: int64
  mTotal :: int64
  mTotalPages :: int64

definition DefaultQuery :: "(string \<rightharpoonup> string) \<Rightarrow> string \<Rightarrow> string \<Rightarrow> string" where
  "DefaultQuery q key dflt = (case q key of None \<Rightarrow> dflt | Some v \<Rightarrow> v)"

definition ParseParams :: "(string \<rightharpoonup> string) \<Rightarrow> Params" where
  "ParseParams q =
     (let page = Atoi (DefaultQuery q ''page'' (Itoa (sint defaultPage)));
          pageSize = Atoi (DefaultQuery q ''page_size'' (Itoa (sint defaultPageSize)));
          page = (if sint page < 1 then defaultPage else page);
          pageSize = (if sint pageSize < 1 \<or> sint pageSize > sint maxPageSize
                      then defaultPageSize else pageSize)
      in \<lparr>Page = page, PageSize = pageSize\<rparr>)"

text \<open>Go's division truncates towards zero, and a zero divisor panics (\<open>None\<close>).\<close>

definition NewMeta :: "Params \<Rightarrow> int64 \<Rightarrow> Meta option" where
  "NewMeta params count =
     (if PageSize params = 0 then None
      else
        let totalPages = (word_of_int (sint count sdiv sint (PageSize params)) :: int64);
            rest = (word_of_int (sint count smod sint (PageSize params)) :: int64);
            totalPages = (if sint rest > 0 then totalPages + 1 else totalPages)
        in Some \<lparr>mPage = Page params, mPageSize = PageSize params,
                 mTotal = count, mTotalPages = totalPages\<rparr>)"

definition Meta_json :: "Meta \<Rightarrow> json" where
  "Meta_json m =
     JObject [(''page'', JInt (sint (mPage m))), (''page_size'', JInt (sint (mPageSize m))),
              (''total'', JInt (sint (mTotal m))), (''total_pages'', JInt (sint (mTotalPages m)))]"

section \<open>Lemmas\<close>

lemma ParseParams_sel:
  "Page (ParseParams q) =
     (let p = Atoi (DefaultQuery q ''page'' (Itoa 1)) in if sint p < 1 then 1 else p)"
  "PageSize (ParseParams q) =
     (let p = Atoi (DefaultQuery q ''page_size'' (Itoa 20))
      in if sint p < 1 \<or> sint p > 100 then 20 else p)"
  by (simp_all add: ParseParams_def Let_def page_consts)

lemma PageSize_ParseParams: "1 \<le> sint (PageSize (ParseParams q))" "sint (PageSize (ParseParams q)) \<le> 100"
  by (auto simp: ParseParams_sel Let_def)

lemma Page_ParseParams: "1 \<le> sint (Page (ParseParams q))"
  by (auto simp: ParseParams_sel Let_def)

lemma sint_pred_int64: "1 \<le> sint (x :: int64) \<Longrightarrow> sint (x - 1) = sint x - 1"
proof -
  assume "1 \<le> sint x"
  moreover have "x - 1 = word_of_int (sint x - 1)" by simp
  ultimately show ?thesis
    using sint_int64_bounds [of x] by (simp only: sint_int64)
qed

lemma Offset_exact:
  assumes "1 \<le> sint (Page p)" "0 \<le> sint (PageSize p)"
    and "(sint (Page p) - 1) * sint (PageSize p) < 2 ^ 63"
  shows "sint (Offset p) = (sint (Page p) - 1) * sint (PageSize p)"
proof -
  have eq: "sint (Page p - 1) = sint (Page p) - 1"
    using assms(1) by (rule sint_pred_int64)
  have "0 \<le> (sint (Page p) - 1) * sint (PageSize p)"
    using assms(1,2) by simp
  with assms(3) eq show ?thesis
    unfolding Offset_def by (subst sint_mult_int64) auto
qed

lemma nonneg_sdiv:
  fixes a b :: int
  assumes "0 \<le> a" "0 < b"
  shows "a sdiv b = a div b" "a smod b = a mod b"
proof -
  show "a sdiv b = a div b" "a smod b = a mod b"
    using assms by (cases "a = 0"; simp add: signed_divide_int_def signed_modulo_int_def)+
qed

text \<open>Rounding up, in the way the code does it.\<close>

lemma ceil_div:
  fixes a b :: int
  assumes "0 \<le> a" "0 < b"
  shows "a div b + (if 0 < a mod b then 1 else 0) = (a + b - 1) div b"
proof -
  have "a + b - 1 = a div b * b + (a mod b + b - 1)" by simp
  then have "(a + b - 1) div b = a div b + (a mod b + b - 1) div b"
    using assms(2) by (metis add.commute div_mult_self1 less_irrefl)
  moreover have "(a mod b + b - 1) div b = (if 0 < a mod b then 1 else 0)"
  proof (cases "0 < a mod b")
    case True
    have "(a mod b - 1) div b = 0"
      using True pos_mod_bound [OF assms(2), of a] by (intro div_pos_pos_trivial) linarith+
    moreover have "(a mod b - 1 + b) div b = (a mod b - 1) div b + 1"
      using assms(2) by (intro div_add_self2) simp
    moreover have "a mod b - 1 + b = a mod b + b - 1" by simp
    ultimately show ?thesis using True by simp
  next
    case False
    with assms(2) have "a mod b = 0" using pos_mod_sign [OF assms(2), of a] by linarith
    with assms(2) show ?thesis by (simp add: div_pos_pos_trivial)
  qed
  ultimately show ?thesis by simp
qed

lemma NewMeta_value:
  assumes "0 \<le> sint n" "0 < sint (PageSize p)"
  shows "\<exists>m. NewMeta p n = Some m \<and> mTotal m = n \<and> mPage m = Page p \<and> mPageSize m = PageSize p \<and>
    sint (mTotalPages m) = (sint n + sint (PageSize p) - 1) div sint (PageSize p)"
proof -
  let ?t = "sint n" and ?s = "sint (PageSize p)"
  let ?q = "word_of_int (?t div ?s) :: int64"
  have q: "0 \<le> ?t div ?s" "?t div ?s \<le> ?t" and r: "0 \<le> ?t mod ?s" "?t mod ?s < ?s"
    using assms zdiv_mono2 [of ?t 1 ?s] by (simp_all add: pos_imp_zdiv_nonneg_iff)
  have t: "?t < 2 ^ 63" "?s < 2 ^ 63" by (rule sint_int64_bounds)+
  have sq: "sint ?q = ?t div ?s" using q t by (intro sint_int64) auto
  have sr: "sint (word_of_int (?t mod ?s) :: int64) = ?t mod ?s"
    using r t by (intro sint_int64) auto
  have step: "sint (?q + 1) = ?t div ?s + 1" if "0 < ?t mod ?s"
  proof -
    have "2 \<le> ?s" using that r by simp
    then have "?t div ?s \<le> ?t div 2"
      using assms(1) by (intro zdiv_mono2) auto
    then have "?t div ?s < 2 ^ 62"
      using t(1) by simp
    then have "sint (word_of_int (?t div ?s + 1) :: int64) = ?t div ?s + 1"
      using q by (intro sint_int64) auto
    then show ?thesis by simp
  qed
  have "PageSize p \<noteq> 0" using assms(2) by auto
  then show ?thesis
    using sq sr step ceil_div [OF assms]
    by (auto simp: NewMeta_def Let_def nonneg_sdiv [OF assms])
qed

text \<open>The offset is the product on 64 bits.\<close>

lemma sint_word_int64: "sint (word_of_int k :: int64) = (k + 2 ^ 63) mod 2 ^ 64 - 2 ^ 63"
  by (simp add: sint_sbintrunc' signed_take_bit_eq_take_bit_shift take_bit_eq_mod)

lemma sint_Offset:
  assumes "1 \<le> sint (Page p)"
  shows "sint (Offset p) = ((sint (Page p) - 1) * sint (PageSize p) + 2 ^ 63) mod 2 ^ 64 - 2 ^ 63"
proof -
  have "Offset p = word_of_int (sint (Page p - 1) * sint (PageSize p))" by (simp add: Offset_def)
  then show ?thesis by (simp only: sint_word_int64 sint_pred_int64 [OF assms])
qed

lemma Offset_negative:
  assumes "1 \<le> sint (Page p)" "2 ^ 63 \<le> (sint (Page p) - 1) * sint (PageSize p)"
    "(sint (Page p) - 1) * sint (PageSize p) < 2 ^ 64"
  shows "sint (Offset p) = (sint (Page p) - 1) * sint (PageSize p) - 2 ^ 64"
proof -
  let ?k = "(sint (Page p) - 1) * sint (PageSize p)"
  have "?k + 2 ^ 63 = (?k - 2 ^ 63) + 2 ^ 64" by simp
  then have "(?k + 2 ^ 63) mod 2 ^ 64 = (?k - 2 ^ 63) mod 2 ^ 64" by (simp only: mod_add_self2)
  also have "\<dots> = ?k - 2 ^ 63" using assms(2,3) by (intro mod_pos_pos_trivial) simp_all
  finally show ?thesis using sint_Offset [OF assms(1)] by simp
qed

lemma Offset_largest_page:
  assumes "sint (Page p) = 2 ^ 63 - 1" "1 \<le> sint (PageSize p)" "sint (PageSize p) \<le> 100"
  shows "sint (Offset p) = (if even (sint (PageSize p)) then - (2 * sint (PageSize p)) else 2 ^ 63 - 2 * sint (PageSize p))"
proof -
  let ?s = "sint (PageSize p)"
  have off: "sint (Offset p) = ((2 ^ 63 - 2) * ?s + 2 ^ 63) mod 2 ^ 64 - 2 ^ 63"
    using sint_Offset [of p] assms(1) by simp
  show ?thesis
  proof (cases "even ?s")
    case True
    then obtain t where t: "?s = 2 * t" by (elim evenE)
    have "((2 ^ 63 - 2) * ?s + 2 ^ 63) mod 2 ^ 64 = ((2 ^ 63 - 2 * ?s) + t * 2 ^ 64) mod 2 ^ 64"
      unfolding t by (simp add: algebra_simps)
    also have "\<dots> = 2 ^ 63 - 2 * ?s"
      unfolding mod_mult_self1 using assms(2,3) by (intro mod_pos_pos_trivial) simp_all
    finally show ?thesis using off True by simp
  next
    case False
    then obtain t where t: "?s = 2 * t + 1" by (elim oddE)
    have "((2 ^ 63 - 2) * ?s + 2 ^ 63) mod 2 ^ 64 = ((2 ^ 64 - 2 * ?s) + t * 2 ^ 64) mod 2 ^ 64"
      unfolding t by (simp add: algebra_simps)
    also have "\<dots> = 2 ^ 64 - 2 * ?s"
      unfolding mod_mult_self1 using assms(2,3) by (intro mod_pos_pos_trivial) simp_all
    finally show ?thesis using off False by simp
  qed
qed

text \<open>A decimal number that does not fit is the largest page.\<close>

lemma ParseUint_digits:
  "list_all is_digit s \<Longrightarrow> n < 2 ^ 64 \<Longrightarrow>
     ParseUint n s = Some (min (2 ^ 64 - 1) (foldl (\<lambda>n c. 10 * n + digit_val c) n s))"
proof (induction s arbitrary: n)
  case (Cons c s)
  have mono: "m \<le> foldl (\<lambda>n c. 10 * n + digit_val c) m xs" for m and xs :: string
    by (induction xs arbitrary: m) (auto intro: order_trans [OF _ ], metis add_leE le_add1 mult_2 mult_Suc numeral_eq_Suc order_trans trans_le_add1)
  show ?case
  proof (cases "2 ^ 64 \<le> 10 * n + digit_val c")
    case True
    with mono [of "10 * n + digit_val c" s] Cons.prems show ?thesis by (simp add: min_def)
  qed (use Cons in simp)
qed simp

lemma Atoi_int_digits:
  assumes "list_all is_digit s" "s \<noteq> []"
  shows "Atoi_int s = int (min (2 ^ 63 - 1) (dec_value s))"
proof -
  have "hd s \<noteq> CHR ''+''" "hd s \<noteq> CHR ''-''" using assms by (cases s; auto simp: is_digit_def)+
  then show ?thesis
    using assms ParseUint_digits [OF assms(1), of 0]
    by (cases s) (auto simp: Atoi_int_def dec_value_def)
qed

section \<open>Properties\<close>

text \<open>C36: whatever the query string holds, the parsed page is at least 1 and the parsed page size is
  between 1 and 100; a page size above 100 is not capped at 100 but replaced by the default 20.\<close>

theorem ParseParams_bounds:
  "1 \<le> sint (Page (ParseParams q)) \<and> 1 \<le> sint (PageSize (ParseParams q)) \<and>
   sint (PageSize (ParseParams q)) \<le> 100 \<and>
   (q ''page_size'' = Some v \<and> 100 < Atoi_int v \<longrightarrow> sint (PageSize (ParseParams q)) = 20)"
  using Page_ParseParams [of q] PageSize_ParseParams [of q]
  by (auto simp: ParseParams_sel DefaultQuery_def Let_def)

theorem ParseParams_bounds_witness:
  "sint (PageSize (ParseParams [''page_size'' \<mapsto> ''101''])) = 20"
proof -
  have "100 < Atoi_int ''101''"
    by (simp add: Atoi_int_def is_digit_def digit_val_def)
  then show ?thesis
    using ParseParams_bounds [of "[''page_size'' \<mapsto> ''101'']" "''101''"] by simp
qed

text \<open>The SQL offset of a parsed page is the mathematical one, and so never negative, for every
  page number up to 92233720368547758; beyond that the 64-bit product can wrap.\<close>

theorem Offset_ParseParams:
  assumes "sint (Page (ParseParams q)) \<le> 92233720368547758"
  shows "sint (Offset (ParseParams q)) =
      (sint (Page (ParseParams q)) - 1) * sint (PageSize (ParseParams q)) \<and>
    0 \<le> sint (Offset (ParseParams q))"
proof -
  let ?p = "sint (Page (ParseParams q))" and ?s = "sint (PageSize (ParseParams q))"
  have b: "1 \<le> ?p" "1 \<le> ?s" "?s \<le> 100"
    by (rule Page_ParseParams PageSize_ParseParams)+
  have "(?p - 1) * ?s \<le> (?p - 1) * 100"
    using b by (intro mult_left_mono) auto
  with assms have "(?p - 1) * ?s < 2 ^ 63" by simp
  with b have "sint (Offset (ParseParams q)) = (?p - 1) * ?s"
    by (intro Offset_exact) auto
  with b show ?thesis by simp
qed

theorem Offset_ParseParams_witness:
  "sint (Offset (ParseParams [''page'' \<mapsto> ''3''])) = 40"
proof -
  have p: "Page (ParseParams [''page'' \<mapsto> ''3'']) = 3"
    by (simp add: ParseParams_sel DefaultQuery_def Atoi_def Atoi_int_def is_digit_def digit_val_def)
  have s: "PageSize (ParseParams [''page'' \<mapsto> ''3'']) = 20"
    by (simp add: ParseParams_sel DefaultQuery_def Atoi_def Atoi_int_def Itoa_def is_digit_def
        digit_val_def digit_char_def dec_digits.simps)
  show ?thesis
    using Offset_ParseParams [of "[''page'' \<mapsto> ''3'']"] by (simp add: p s)
qed

text \<open>The metadata of a parsed page reports the smallest number of pages that holds all rows: one
  page fewer would not hold them, and none are needed for an empty result.\<close>

theorem NewMeta_ParseParams:
  assumes "0 \<le> sint n"
  shows "\<exists>m. NewMeta (ParseParams q) n = Some m \<and>
    sint n \<le> sint (mTotalPages m) * sint (mPageSize m) \<and>
    (sint (mTotalPages m) - 1) * sint (mPageSize m) < sint n \<and>
    mPageSize m = PageSize (ParseParams q) \<and> mTotal m = n"
proof -
  let ?s = "sint (PageSize (ParseParams q))"
  have s: "0 < ?s" using PageSize_ParseParams(1) [of q] by linarith
  obtain m where m: "NewMeta (ParseParams q) n = Some m" "mTotal m = n"
      "mPageSize m = PageSize (ParseParams q)" "sint (mTotalPages m) = (sint n + ?s - 1) div ?s"
    using NewMeta_value [OF assms s] by blast
  have le: "(sint n + ?s - 1) div ?s * ?s \<le> sint n + ?s - 1"
    using pos_mod_sign [OF s, of "sint n + ?s - 1"]
      div_mult_mod_eq [of "sint n + ?s - 1" ?s] by linarith
  have ge: "sint n + ?s - 1 < (sint n + ?s - 1) div ?s * ?s + ?s"
    using pos_mod_bound [OF s, of "sint n + ?s - 1"]
      div_mult_mod_eq [of "sint n + ?s - 1" ?s] by linarith
  show ?thesis
    using m le ge by (auto simp: algebra_simps)
qed

theorem NewMeta_ParseParams_witness:
  "\<exists>m. NewMeta (ParseParams [''page_size'' \<mapsto> ''10'']) 21 = Some m \<and> mTotal m = 21"
  using NewMeta_ParseParams [of 21 "[''page_size'' \<mapsto> ''10'']"] by auto

end
