(* ===== verification/Interfaces.thy ===== *)
theory Interfaces
  imports Database Pagination
begin

text \<open>
  \<open>internal/repository/interfaces\<close>: the parameter structs, the operations of each repository as a
  record (a Go interface value), and the contract its comments state as a locale. The services are
  defined over the records and their lemmas are proved in the locales, so they hold for every
  implementation that keeps the contract.
\<close>

section \<open>Users\<close>

record CreateUserParams =
  cuEmail :: string
  cuName :: string
  cuPasswordHash :: string
  cuRole :: UserRole

record UpdateUserParams =
  uuName :: "string option"
  uuRole :: "UserRole option"

record ListUsersParams =
  luRole :: "UserRole option"
  luSearch :: "string option"
  luParams :: Params

text \<open>A method that returns only an \<open>error\<close> gives \<open>None\<close> for \<open>nil\<close>.\<close>

record 'd IUserRepository =
  users_Create :: "CreateUserParams \<Rightarrow> ('d world, goerr + User) state"
  users_FindByID :: "uuid \<Rightarrow> ('d world, goerr + User) state"
  users_FindByEmail :: "string \<Rightarrow> ('d world, goerr + User) state"
  users_List :: "ListUsersParams \<Rightarrow> ('d world, goerr + User list \<times> int) state"
  users_Update :: "uuid \<Rightarrow> UpdateUserParams \<Rightarrow> ('d world, goerr + User) state"
  users_UpdatePassword :: "uuid \<Rightarrow> string \<Rightarrow> ('d world, goerr option) state"
  users_IncrFailedAttempts :: "uuid \<Rightarrow> ('d world, goerr option) state"
  users_LockUntil :: "uuid \<Rightarrow> time \<Rightarrow> ('d world, goerr option) state"
  users_ClearLock :: "uuid \<Rightarrow> ('d world, goerr option) state"
  users_SetTOTP :: "uuid \<Rightarrow> string \<Rightarrow> bool \<Rightarrow> ('d world, goerr option) state"
  users_Deactivate :: "uuid \<Rightarrow> ('d world, goerr option) state"
  users_CountSuperAdmins :: "('d world, goerr + int) state"

section \<open>Password resets\<close>

record CreatePasswordResetParams =
  cpUserID :: uuid
  cpOTPHash :: string
  cpExpiresAt :: time

record 'd IPasswordResetRepository =
  resets_Create :: "CreatePasswordResetParams \<Rightarrow> ('d world, goerr + PasswordReset) state"
  resets_FindByUserID :: "uuid \<Rightarrow> ('d world, goerr + PasswordReset) state"
  resets_SetToken :: "uuid \<Rightarrow> string \<Rightarrow> ('d world, goerr option) state"
  resets_Consume :: "uuid \<Rightarrow> ('d world, goerr option) state"
  resets_DeleteExpired :: "('d world, goerr option) state"

section \<open>Audit logs\<close>

record CreateAuditParams =
  caUserID :: "uuid option"
  caAction :: string
  caResource :: string
  caResourceID :: "string option"
  caIPAddress :: string
  caUserAgent :: string
  caMetadata :: json

record ListAuditParams =
  laUserID :: "uuid option"
  laResource :: "string option"
  laParams :: Params

record 'd IAuditRepository =
  audit_Create :: "CreateAuditParams \<Rightarrow> ('d world, goerr option) state"
  audit_List :: "ListAuditParams \<Rightarrow> ('d world, goerr + AuditLog list \<times> int) state"

section \<open>The abstract store of users\<close>

text \<open>
  What the contract speaks about: a finite map from identifiers to users. An update changes one user
  and stamps it; the stamp is not part of the contract.
\<close>

type_synonym user_map = "uuid \<rightharpoonup> User"

definition upd_user :: "uuid \<Rightarrow> (User \<Rightarrow> User) \<Rightarrow> user_map \<Rightarrow> user_map \<Rightarrow> bool" where
  "upd_user i f m m' \<longleftrightarrow>
     (\<exists>t. m' = (case m i of None \<Rightarrow> m | Some u \<Rightarrow> m(i \<mapsto> (f u)\<lparr>uUpdatedAt := t\<rparr>)))"

definition apply_update :: "UpdateUserParams \<Rightarrow> User \<Rightarrow> User" where
  "apply_update p u =
     u\<lparr>uName := (case uuName p of None \<Rightarrow> uName u | Some n \<Rightarrow> TrimSpace n),
       uRole := (case uuRole p of None \<Rightarrow> uRole u | Some r \<Rightarrow> r)\<rparr>"

definition new_user :: "(string \<Rightarrow> string) \<Rightarrow> CreateUserParams \<Rightarrow> User \<Rightarrow> bool" where
  "new_user norm p u \<longleftrightarrow>
     uEmail u = norm (cuEmail p) \<and> uName u = TrimSpace (cuName p) \<and>
     uPasswordHash u = cuPasswordHash p \<and> uRole u = cuRole p \<and> uTOTPSecret u = None \<and>
     \<not> uTOTPEnabled u \<and> uFailedAttempts u = 0 \<and> uLockedUntil u = None \<and> uIsActive u"

definition active_super_admins :: "user_map \<Rightarrow> uuid set" where
  "active_super_admins m = {i. \<exists>u. m i = Some u \<and> uRole u = RoleSuperAdmin \<and> uIsActive u}"

section \<open>The contract of the user repository\<close>

text \<open>
  \<open>tbl\<close> reads the users out of a store, \<open>good\<close> is the implementation's invariant, \<open>norm\<close> the way it
  normalises an email and \<open>stamp\<close> the precision it keeps of an instant. An operation that reports
  an error may have been carried out (a lost acknowledgement) or not, never something else.
\<close>

locale user_repository =
  fixes R :: "'d IUserRepository"
    and tbl :: "'d \<Rightarrow> user_map"
    and good :: "'d \<Rightarrow> bool"
    and norm :: "string \<Rightarrow> string"
    and stamp :: "time \<Rightarrow> time"
  assumes key_id: "good d \<Longrightarrow> tbl d i = Some u \<Longrightarrow> uID u = i"
    and unique_email: "good d \<Longrightarrow> tbl d i = Some u \<Longrightarrow> tbl d j = Some v \<Longrightarrow> uEmail u = uEmail v \<Longrightarrow> i = j"
    and finite_users: "good d \<Longrightarrow> finite (dom (tbl d))"
    and FindByID_run:
      "good (store w) \<Longrightarrow> run_state (users_FindByID R i) w = (r, w') \<Longrightarrow>
       good (store w') \<and> tbl (store w') = tbl (store w) \<and> same_but_store w w' \<and>
       (case r of Inr u \<Rightarrow> tbl (store w) i = Some u
        | Inl e \<Rightarrow> errors_Is e (Sentinel ErrNotFound) \<longrightarrow> tbl (store w) i = None)"
    and FindByEmail_run:
      "good (store w) \<Longrightarrow> run_state (users_FindByEmail R email) w = (r, w') \<Longrightarrow>
       good (store w') \<and> tbl (store w') = tbl (store w) \<and> same_but_store w w' \<and>
       (case r of Inr u \<Rightarrow> tbl (store w) (uID u) = Some u \<and> uEmail u = norm email
        | Inl e \<Rightarrow> errors_Is e (Sentinel ErrNotFound) \<longrightarrow>
            (\<forall>i u. tbl (store w) i = Some u \<longrightarrow> uEmail u \<noteq> norm email))"
    and List_run:
      "good (store w) \<Longrightarrow> run_state (users_List R lp) w = (rl, w') \<Longrightarrow>
       good (store w') \<and> tbl (store w') = tbl (store w) \<and> same_but_store w w' \<and>
       (case rl of Inr (us, n) \<Rightarrow> \<forall>u \<in> set us. tbl (store w) (uID u) = Some u | Inl _ \<Rightarrow> True)"
    and CountSuperAdmins_run:
      "good (store w) \<Longrightarrow> run_state (users_CountSuperAdmins R) w = (rc, w') \<Longrightarrow>
       good (store w') \<and> tbl (store w') = tbl (store w) \<and> same_but_store w w' \<and>
       (case rc of Inr n \<Rightarrow> n = int (card (active_super_admins (tbl (store w)))) | Inl _ \<Rightarrow> True)"
    and Create_run:
      "good (store w) \<Longrightarrow> run_state (users_Create R cp) w = (r, w') \<Longrightarrow>
       good (store w') \<and> same_but_store w w' \<and>
       ((\<exists>u. new_user norm cp u \<and> tbl (store w) (uID u) = None \<and>
             tbl (store w') = (tbl (store w))(uID u \<mapsto> u) \<and> (\<forall>v. r = Inr v \<longrightarrow> v = u)) \<or>
        (\<exists>e. r = Inl e \<and> tbl (store w') = tbl (store w)))"
    and Update_run:
      "good (store w) \<Longrightarrow> run_state (users_Update R i up) w = (r, w') \<Longrightarrow>
       good (store w') \<and> same_but_store w w' \<and>
       (upd_user i (apply_update up) (tbl (store w)) (tbl (store w')) \<or> tbl (store w') = tbl (store w)) \<and>
       (case r of
          Inr u \<Rightarrow> tbl (store w') i = Some u \<and>
            (\<exists>v. tbl (store w) i = Some v \<and> u\<lparr>uUpdatedAt := 0\<rparr> = (apply_update up v)\<lparr>uUpdatedAt := 0\<rparr>)
        | Inl e \<Rightarrow> errors_Is e (Sentinel ErrNotFound) \<longrightarrow> tbl (store w) i = None)"
    and UpdatePassword_run:
      "good (store w) \<Longrightarrow> run_state (users_UpdatePassword R i h) w = (re, w') \<Longrightarrow>
       good (store w') \<and> same_but_store w w' \<and>
       (upd_user i (\<lambda>u. u\<lparr>uPasswordHash := h\<rparr>) (tbl (store w)) (tbl (store w')) \<or>
        re \<noteq> None \<and> tbl (store w') = tbl (store w)) \<and>
       (re = None \<longrightarrow> tbl (store w) i \<noteq> None)"
    and IncrFailedAttempts_run:
      "good (store w) \<Longrightarrow> run_state (users_IncrFailedAttempts R i) w = (re, w') \<Longrightarrow>
       good (store w') \<and> same_but_store w w' \<and>
       (upd_user i (\<lambda>u. u\<lparr>uFailedAttempts := uFailedAttempts u + 1\<rparr>) (tbl (store w)) (tbl (store w')) \<or>
        re \<noteq> None \<and> tbl (store w') = tbl (store w))"
    and LockUntil_run:
      "good (store w) \<Longrightarrow> run_state (users_LockUntil R i until) w = (re, w') \<Longrightarrow>
       good (store w') \<and> same_but_store w w' \<and>
       (upd_user i (\<lambda>u. u\<lparr>uLockedUntil := Some (stamp until)\<rparr>) (tbl (store w)) (tbl (store w')) \<or>
        re \<noteq> None \<and> tbl (store w') = tbl (store w))"
    and ClearLock_run:
      "good (store w) \<Longrightarrow> run_state (users_ClearLock R i) w = (re, w') \<Longrightarrow>
       good (store w') \<and> same_but_store w w' \<and>
       (upd_user i (\<lambda>u. u\<lparr>uFailedAttempts := 0, uLockedUntil := None\<rparr>) (tbl (store w)) (tbl (store w')) \<or>
        re \<noteq> None \<and> tbl (store w') = tbl (store w))"
    and SetTOTP_run:
      "good (store w) \<Longrightarrow> run_state (users_SetTOTP R i secret b) w = (re, w') \<Longrightarrow>
       good (store w') \<and> same_but_store w w' \<and>
       (upd_user i (\<lambda>u. u\<lparr>uTOTPSecret := Some secret, uTOTPEnabled := b\<rparr>) (tbl (store w)) (tbl (store w')) \<or>
        re \<noteq> None \<and> tbl (store w') = tbl (store w))"
    and Deactivate_run:
      "good (store w) \<Longrightarrow> run_state (users_Deactivate R i) w = (re, w') \<Longrightarrow>
       good (store w') \<and> same_but_store w w' \<and>
       (upd_user i (\<lambda>u. u\<lparr>uIsActive := False\<rparr>) (tbl (store w)) (tbl (store w')) \<or>
        re \<noteq> None \<and> tbl (store w') = tbl (store w)) \<and>
       (re = None \<longrightarrow> tbl (store w) i \<noteq> None)"

text \<open>A repository whose connection works: nothing fails but for what the contract itself names.\<close>

locale reliable_user_repository = user_repository +
  assumes FindByID_total:
      "good (store w) \<Longrightarrow> fst (run_state (users_FindByID R i) w) =
        (case tbl (store w) i of Some u \<Rightarrow> Inr u | None \<Rightarrow> Inl (Sentinel ErrNotFound))"
    and FindByEmail_total:
      "good (store w) \<Longrightarrow> tbl (store w) i = Some u \<Longrightarrow> uEmail u = norm email \<Longrightarrow>
        fst (run_state (users_FindByEmail R email) w) = Inr u"
    and FindByEmail_absent:
      "good (store w) \<Longrightarrow> \<forall>i u. tbl (store w) i = Some u \<longrightarrow> uEmail u \<noteq> norm email \<Longrightarrow>
        fst (run_state (users_FindByEmail R email) w) = Inl (Sentinel ErrNotFound)"
    and IncrFailedAttempts_total:
      "good (store w) \<Longrightarrow> tbl (store w) i = Some u \<Longrightarrow> uFailedAttempts u + 1 < 2 ^ 31 \<Longrightarrow>
        fst (run_state (users_IncrFailedAttempts R i) w) = None"
    and LockUntil_total: "good (store w) \<Longrightarrow> fst (run_state (users_LockUntil R i until) w) = None"
    and ClearLock_total: "good (store w) \<Longrightarrow> fst (run_state (users_ClearLock R i) w) = None"
    and SetTOTP_total: "good (store w) \<Longrightarrow> fst (run_state (users_SetTOTP R i secret b) w) = None"
    and UpdatePassword_total:
      "good (store w) \<Longrightarrow> tbl (store w) i \<noteq> None \<Longrightarrow>
        fst (run_state (users_UpdatePassword R i h) w) = None"
    and Deactivate_total:
      "good (store w) \<Longrightarrow> tbl (store w) i \<noteq> None \<Longrightarrow> fst (run_state (users_Deactivate R i) w) = None"
    and CountSuperAdmins_total:
      "good (store w) \<Longrightarrow> fst (run_state (users_CountSuperAdmins R) w) =
        Inr (int (card (active_super_admins (tbl (store w)))))"

section \<open>The contract of the password-reset repository\<close>

definition drop_user :: "uuid \<Rightarrow> (uuid \<rightharpoonup> PasswordReset) \<Rightarrow> uuid \<rightharpoonup> PasswordReset" where
  "drop_user u m = (\<lambda>i. case m i of None \<Rightarrow> None | Some p \<Rightarrow> if prUserID p = u then None else Some p)"

definition new_reset :: "(time \<Rightarrow> time) \<Rightarrow> CreatePasswordResetParams \<Rightarrow> PasswordReset \<Rightarrow> bool" where
  "new_reset stamp cp p \<longleftrightarrow>
     prUserID p = cpUserID cp \<and> prOTPHash p = cpOTPHash cp \<and> prToken p = None \<and>
     prExpiresAt p = stamp (cpExpiresAt cp) \<and> prUsedAt p = None"

text \<open>
  \<open>Create\<close> removes what the user had before (but ignores an error of that removal) and adds the new
  record; \<open>Consume\<close> marks an unused record, once.
\<close>

locale reset_repository =
  fixes P :: "'d IPasswordResetRepository"
    and rtbl :: "'d \<Rightarrow> uuid \<rightharpoonup> PasswordReset"
    and rgood :: "'d \<Rightarrow> bool"
    and rstamp :: "time \<Rightarrow> time"
  assumes reset_key: "rgood d \<Longrightarrow> rtbl d i = Some p \<Longrightarrow> prID p = i"
    and resets_Create_run:
      "rgood (store w) \<Longrightarrow> run_state (resets_Create P cp) w = (r, w') \<Longrightarrow>
       rgood (store w') \<and> same_but_store w w' \<and>
       (\<exists>m. (m = rtbl (store w) \<or> m = drop_user (cpUserID cp) (rtbl (store w))) \<and>
          ((\<exists>e. r = Inl e) \<and> rtbl (store w') = m \<or>
           (\<exists>p. new_reset rstamp cp p \<and> m (prID p) = None \<and> rtbl (store w') = m(prID p \<mapsto> p) \<and>
                (\<forall>v. r = Inr v \<longrightarrow> v = p))))"
    and resets_FindByUserID_run:
      "rgood (store w) \<Longrightarrow> run_state (resets_FindByUserID P u) w = (r, w') \<Longrightarrow>
       rgood (store w') \<and> rtbl (store w') = rtbl (store w) \<and> same_but_store w w' \<and>
       (case r of
          Inr p \<Rightarrow> rtbl (store w) (prID p) = Some p \<and> prUserID p = u \<and> prUsedAt p = None
        | Inl e \<Rightarrow> errors_Is e (Sentinel ErrNotFound) \<longrightarrow>
            (\<forall>i p. rtbl (store w) i = Some p \<longrightarrow> prUserID p = u \<longrightarrow> prUsedAt p \<noteq> None))"
    and resets_SetToken_run:
      "rgood (store w) \<Longrightarrow> run_state (resets_SetToken P i tok) w = (re, w') \<Longrightarrow>
       rgood (store w') \<and> same_but_store w w' \<and>
       (re \<noteq> None \<and> rtbl (store w') = rtbl (store w) \<or>
        (\<exists>p. rtbl (store w) i = Some p \<and> rtbl (store w') = (rtbl (store w))(i \<mapsto> p\<lparr>prToken := Some tok\<rparr>)))"
    and resets_Consume_run:
      "rgood (store w) \<Longrightarrow> run_state (resets_Consume P i) w = (re, w') \<Longrightarrow>
       rgood (store w') \<and> same_but_store w w' \<and>
       (re \<noteq> None \<and> rtbl (store w') = rtbl (store w) \<or>
        (\<exists>p t. rtbl (store w) i = Some p \<and> prUsedAt p = None \<and>
           rtbl (store w') = (rtbl (store w))(i \<mapsto> p\<lparr>prUsedAt := Some t\<rparr>)))"
    and resets_DeleteExpired_run:
      "rgood (store w) \<Longrightarrow> run_state (resets_DeleteExpired P) w = (re, w') \<Longrightarrow>
       rgood (store w') \<and> same_but_store w w' \<and>
       (re \<noteq> None \<and> rtbl (store w') = rtbl (store w) \<or>
        (\<exists>now. rtbl (store w') =
           (\<lambda>i. case rtbl (store w) i of None \<Rightarrow> None | Some p \<Rightarrow> if prExpiresAt p < now then None else Some p)))"

locale reliable_reset_repository = reset_repository +
  assumes resets_Create_replaces:
      "rgood (store w) \<Longrightarrow> run_state (resets_Create P cp) w = (Inr p, w') \<Longrightarrow>
       rtbl (store w') = (drop_user (cpUserID cp) (rtbl (store w)))(prID p \<mapsto> p)"
    and resets_FindByUserID_total:
      "rgood (store w) \<Longrightarrow> rtbl (store w) i = Some p \<Longrightarrow> prUserID p = u \<Longrightarrow> prUsedAt p = None \<Longrightarrow>
       (\<forall>j q. rtbl (store w) j = Some q \<longrightarrow> prUserID q = u \<longrightarrow> prUsedAt q = None \<longrightarrow> j = i) \<Longrightarrow>
       fst (run_state (resets_FindByUserID P u) w) = Inr p"
    and resets_Consume_total:
      "rgood (store w) \<Longrightarrow> rtbl (store w) i = Some p \<Longrightarrow> prUsedAt p = None \<Longrightarrow>
       fst (run_state (resets_Consume P i) w) = None"

section \<open>The contract of the audit repository\<close>

text \<open>
  Entries are appended and never changed or removed: an operation leaves every entry where it is,
  \<open>Create\<close> adds at most one, and a nil error means that it did.
\<close>

definition audit_entry :: "CreateAuditParams \<Rightarrow> AuditLog \<Rightarrow> bool" where
  "audit_entry p a \<longleftrightarrow>
     alUserID a = caUserID p \<and> alAction a = caAction p \<and> alResource a = caResource p \<and>
     alResourceID a = caResourceID p \<and> alIPAddress a = caIPAddress p \<and>
     alUserAgent a = caUserAgent p \<and> alMetadata a = caMetadata p"

locale audit_repository =
  fixes A :: "'d IAuditRepository"
    and entries :: "'d \<Rightarrow> AuditLog list"
    and agood :: "'d \<Rightarrow> bool"
  assumes audit_Create_run:
      "agood (store w) \<Longrightarrow> run_state (audit_Create A p) w = (re, w') \<Longrightarrow>
       agood (store w') \<and> same_but_store w w' \<and>
       ((\<exists>a. audit_entry p a \<and> entries (store w') = entries (store w) @ [a]) \<or>
        re \<noteq> None \<and> entries (store w') = entries (store w))"
    and audit_List_run:
      "agood (store w) \<Longrightarrow> run_state (audit_List A q) w = (ra, w') \<Longrightarrow>
       agood (store w') \<and> same_but_store w w' \<and> entries (store w') = entries (store w) \<and>
       (case ra of Inr (as, n) \<Rightarrow> set as \<subseteq> set (entries (store w)) | Inl _ \<Rightarrow> True)"
begin

text \<open>However the operations are interleaved, the log only grows at its end.\<close>

definition grows :: "'d world \<Rightarrow> 'd world \<Rightarrow> bool" where
  "grows w w' \<longleftrightarrow> (agood (store w) \<longrightarrow>
     agood (store w') \<and> (\<exists>as. entries (store w') = entries (store w) @ as))"

lemma grows_order [simp, intro]: "reflp grows" "transp grows"
  by (auto simp: reflp_def transp_def grows_def)

lemma audit_grows [rel_intros]:
  "state_io_rel grows (audit_Create A p)"
  "state_io_rel grows (audit_List A q)"
proof -
  have "grows w (snd (run_state (audit_Create A p) w))" for w
    using audit_Create_run [of w p "fst (run_state (audit_Create A p) w)" "snd (run_state (audit_Create A p) w)"]
    by (auto simp: grows_def)
  moreover have "grows w (snd (run_state (audit_List A q) w))" for w
    using audit_List_run [of w q "fst (run_state (audit_List A q) w)" "snd (run_state (audit_List A q) w)"]
    by (auto simp: grows_def)
  ultimately show "state_io_rel grows (audit_Create A p)" "state_io_rel grows (audit_List A q)"
    by (simp_all add: state_io_rel_def)
qed

end

section \<open>The two stores of the auth service\<close>

text \<open>Neither repository touches the other's records.\<close>

definition same_view :: "('d \<Rightarrow> 'v) \<Rightarrow> 'd \<Rightarrow> 'd \<Rightarrow> bool" where
  "same_view f d d' \<longleftrightarrow> f d' = f d"

lemma same_view_order [simp, intro]: "reflp (same_view f)" "transp (same_view f)"
  by (auto simp: reflp_def transp_def same_view_def)

lemma same_viewD:
  "state_io_rel (on_store (same_view f)) m \<Longrightarrow> run_state m w = (r, w') \<Longrightarrow> f (store w') = f (store w)"
  unfolding state_io_rel_def on_store_def same_view_def by (metis snd_conv)

locale auth_stores =
  user_repository R tbl good norm stamp + reset_repository P rtbl good stamp
  for R :: "'d IUserRepository" and tbl and good and norm and stamp
    and P :: "'d IPasswordResetRepository" and rtbl +
  assumes users_keep_resets [rel_intros]:
      "state_io_rel (on_store (same_view rtbl)) (users_Create R cp)"
      "state_io_rel (on_store (same_view rtbl)) (users_FindByID R i)"
      "state_io_rel (on_store (same_view rtbl)) (users_FindByEmail R email)"
      "state_io_rel (on_store (same_view rtbl)) (users_Update R i up)"
      "state_io_rel (on_store (same_view rtbl)) (users_UpdatePassword R i h)"
      "state_io_rel (on_store (same_view rtbl)) (users_IncrFailedAttempts R i)"
      "state_io_rel (on_store (same_view rtbl)) (users_LockUntil R i until)"
      "state_io_rel (on_store (same_view rtbl)) (users_ClearLock R i)"
      "state_io_rel (on_store (same_view rtbl)) (users_SetTOTP R i secret b)"
      "state_io_rel (on_store (same_view rtbl)) (users_Deactivate R i)"
    and resets_keep_users [rel_intros]:
      "state_io_rel (on_store (same_view tbl)) (resets_Create P rp)"
      "state_io_rel (on_store (same_view tbl)) (resets_FindByUserID P u)"
      "state_io_rel (on_store (same_view tbl)) (resets_SetToken P i tok)"
      "state_io_rel (on_store (same_view tbl)) (resets_Consume P i)"
      "state_io_rel (on_store (same_view tbl)) (resets_DeleteExpired P)"

locale reliable_auth_stores =
  auth_stores + reliable_user_repository R tbl good norm stamp +
  reliable_reset_repository P rtbl good stamp

section \<open>What follows for every implementation\<close>

text \<open>
  How an operation may change the users: the invariant is kept, and \<open>Q\<close> relates what every identifier
  stood for before and after. The relation is over options, so it also says which users may appear.
\<close>

definition grown :: "('a \<Rightarrow> 'a \<Rightarrow> bool) \<Rightarrow> 'a option \<Rightarrow> 'a option \<Rightarrow> bool" where
  "grown q x y \<longleftrightarrow> (\<forall>u. x = Some u \<longrightarrow> (\<exists>v. y = Some v \<and> q u v))"

lemma grown_order [intro]: "reflp q \<Longrightarrow> reflp (grown q)" "transp q \<Longrightarrow> transp (grown q)"
proof -
  show "reflp q \<Longrightarrow> reflp (grown q)" by (simp add: grown_def reflp_def)
  assume q: "transp q"
  show "transp (grown q)"
  proof (rule transpI)
    fix x y z
    assume "grown q x y" "grown q y z"
    then show "grown q x z" unfolding grown_def using transpD [OF q] by fast
  qed
qed

lemma rel_option_order [intro]: "reflp q \<Longrightarrow> reflp (rel_option q)" "transp q \<Longrightarrow> transp (rel_option q)"
  by (rule option.rel_reflp, assumption) (rule option.rel_transp, assumption)

lemma grown_simps [simp]: "grown q None y" "grown q (Some u) (Some v) \<longleftrightarrow> q u v"
  by (simp_all add: grown_def)

context user_repository
begin

definition users_evolve :: "(User option \<Rightarrow> User option \<Rightarrow> bool) \<Rightarrow> 'd world \<Rightarrow> 'd world \<Rightarrow> bool" where
  "users_evolve Q w w' \<longleftrightarrow> (good (store w) \<longrightarrow>
     good (store w') \<and> (\<forall>i. Q (tbl (store w) i) (tbl (store w') i)))"

lemma users_evolve_order [intro]:
  "reflp Q \<Longrightarrow> reflp (users_evolve Q)" "transp Q \<Longrightarrow> transp (users_evolve Q)"
  unfolding reflp_def transp_def users_evolve_def by blast+

lemma users_evolveD:
  "state_io_rel (users_evolve Q) m \<Longrightarrow> good (store w) \<Longrightarrow> run_state m w = (r, w') \<Longrightarrow>
   good (store w') \<and> Q (tbl (store w) i) (tbl (store w') i)"
  unfolding state_io_rel_def users_evolve_def by (metis snd_conv)

lemma evolve_runI:
  assumes "\<And>w r w'. good (store w) \<Longrightarrow> run_state m w = (r, w') \<Longrightarrow>
    good (store w') \<and> (\<forall>i. Q (tbl (store w) i) (tbl (store w') i))"
  shows "state_io_rel (users_evolve Q) m"
  using assms unfolding state_io_rel_def users_evolve_def by (metis prod.collapse)

lemma evolve_upd:
  assumes "upd_user i f m m'" "reflp Q" "\<And>u t. Q (Some u) (Some ((f u)\<lparr>uUpdatedAt := t\<rparr>))"
  shows "Q (m j) (m' j)"
proof -
  obtain t where t: "m' = (case m i of None \<Rightarrow> m | Some u \<Rightarrow> m(i \<mapsto> (f u)\<lparr>uUpdatedAt := t\<rparr>))"
    using assms(1) unfolding upd_user_def by blast
  have "Q x x" for x using assms(2) by (simp add: reflp_def)
  with t assms(3) show ?thesis
    by (cases "m i"; cases "j = i") auto
qed

lemma evolve_quiet [rel_intros]:
  assumes "reflp Q"
  shows "state_io_rel (users_evolve Q) tick" "state_io_rel (users_evolve Q) (time_Now L)"
    "state_io_rel (users_evolve Q) (users_FindByID R i)"
    "state_io_rel (users_evolve Q) (users_FindByEmail R email)"
    "state_io_rel (users_evolve Q) (users_List R lp)"
    "state_io_rel (users_evolve Q) (users_CountSuperAdmins R)"
proof -
  have Q: "Q x x" for x using assms by (simp add: reflp_def)
  show "state_io_rel (users_evolve Q) tick" "state_io_rel (users_evolve Q) (time_Now L)"
    by (rule evolve_runI, use Q in auto)+
  show "state_io_rel (users_evolve Q) (users_FindByID R i)"
    by (rule evolve_runI) (use FindByID_run Q in metis)
  show "state_io_rel (users_evolve Q) (users_FindByEmail R email)"
    by (rule evolve_runI) (use FindByEmail_run Q in metis)
  show "state_io_rel (users_evolve Q) (users_List R lp)"
    by (rule evolve_runI) (use List_run Q in metis)
  show "state_io_rel (users_evolve Q) (users_CountSuperAdmins R)"
    by (rule evolve_runI) (use CountSuperAdmins_run Q in metis)
qed

lemma evolve_Create [rel_intros]:
  assumes "reflp Q" "\<And>u. new_user norm cp u \<Longrightarrow> Q None (Some u)"
  shows "state_io_rel (users_evolve Q) (users_Create R cp)"
proof (rule evolve_runI)
  fix w r w'
  assume g: "good (store w)" and run: "run_state (users_Create R cp) w = (r, w')"
  have Q: "Q x x" for x using assms by (simp add: reflp_def)
  show "good (store w') \<and> (\<forall>i. Q (tbl (store w) i) (tbl (store w') i))"
    using Create_run [OF g run] Q assms(2) by (metis fun_upd_apply)
qed

lemma evolve_write:
  assumes "\<And>w r w'. good (store w) \<Longrightarrow> run_state m w = (r, w') \<Longrightarrow>
      good (store w') \<and> (upd_user i f (tbl (store w)) (tbl (store w')) \<or> tbl (store w') = tbl (store w))"
    and "reflp Q" and "\<And>u t. Q (Some u) (Some ((f u)\<lparr>uUpdatedAt := t\<rparr>))"
  shows "state_io_rel (users_evolve Q) m"
proof (rule evolve_runI)
  fix w r w'
  assume "good (store w)" "run_state m w = (r, w')"
  note run = assms(1) [OF this]
  have "Q x x" for x using assms(2) by (simp add: reflp_def)
  then show "good (store w') \<and> (\<forall>i. Q (tbl (store w) i) (tbl (store w') i))"
    using run evolve_upd [OF _ assms(2,3)] by metis
qed

lemma evolve_writes [rel_intros]:
  assumes "reflp Q"
  shows "(\<And>u t. Q (Some u) (Some ((apply_update up u)\<lparr>uUpdatedAt := t\<rparr>))) \<Longrightarrow> state_io_rel (users_evolve Q) (users_Update R i up)"
    and "(\<And>u t. Q (Some u) (Some (u\<lparr>uPasswordHash := h, uUpdatedAt := t\<rparr>))) \<Longrightarrow> state_io_rel (users_evolve Q) (users_UpdatePassword R i h)"
    and "(\<And>u t. Q (Some u) (Some (u\<lparr>uFailedAttempts := uFailedAttempts u + 1, uUpdatedAt := t\<rparr>))) \<Longrightarrow>
      state_io_rel (users_evolve Q) (users_IncrFailedAttempts R i)"
    and "(\<And>u t. Q (Some u) (Some (u\<lparr>uLockedUntil := Some (stamp until), uUpdatedAt := t\<rparr>))) \<Longrightarrow>
      state_io_rel (users_evolve Q) (users_LockUntil R i until)"
    and "(\<And>u t. Q (Some u) (Some (u\<lparr>uFailedAttempts := 0, uLockedUntil := None, uUpdatedAt := t\<rparr>))) \<Longrightarrow>
      state_io_rel (users_evolve Q) (users_ClearLock R i)"
    and "(\<And>u t. Q (Some u) (Some (u\<lparr>uTOTPSecret := Some secret, uTOTPEnabled := b, uUpdatedAt := t\<rparr>))) \<Longrightarrow>
      state_io_rel (users_evolve Q) (users_SetTOTP R i secret b)"
    and "(\<And>u t. Q (Some u) (Some (u\<lparr>uIsActive := False, uUpdatedAt := t\<rparr>))) \<Longrightarrow>
      state_io_rel (users_evolve Q) (users_Deactivate R i)"
proof -
  show "(\<And>u t. Q (Some u) (Some ((apply_update up u)\<lparr>uUpdatedAt := t\<rparr>))) \<Longrightarrow> state_io_rel (users_evolve Q) (users_Update R i up)"
    by (rule evolve_write [where f = "apply_update up" and i = i, OF _ assms]) (use Update_run in blast, simp)
  show "(\<And>u t. Q (Some u) (Some (u\<lparr>uPasswordHash := h, uUpdatedAt := t\<rparr>))) \<Longrightarrow> state_io_rel (users_evolve Q) (users_UpdatePassword R i h)"
    by (rule evolve_write [where f = "\<lambda>u. u\<lparr>uPasswordHash := h\<rparr>" and i = i, OF _ assms]) (use UpdatePassword_run in blast, simp)
  show "(\<And>u t. Q (Some u) (Some (u\<lparr>uFailedAttempts := uFailedAttempts u + 1, uUpdatedAt := t\<rparr>))) \<Longrightarrow>
      state_io_rel (users_evolve Q) (users_IncrFailedAttempts R i)"
    by (rule evolve_write [where f = "\<lambda>u. u\<lparr>uFailedAttempts := uFailedAttempts u + 1\<rparr>" and i = i, OF _ assms]) (use IncrFailedAttempts_run in blast, simp)
  show "(\<And>u t. Q (Some u) (Some (u\<lparr>uLockedUntil := Some (stamp until), uUpdatedAt := t\<rparr>))) \<Longrightarrow>
      state_io_rel (users_evolve Q) (users_LockUntil R i until)"
    by (rule evolve_write [where f = "\<lambda>u. u\<lparr>uLockedUntil := Some (stamp until)\<rparr>" and i = i, OF _ assms]) (use LockUntil_run in blast, simp)
  show "(\<And>u t. Q (Some u) (Some (u\<lparr>uFailedAttempts := 0, uLockedUntil := None, uUpdatedAt := t\<rparr>))) \<Longrightarrow>
      state_io_rel (users_evolve Q) (users_ClearLock R i)"
    by (rule evolve_write [where f = "\<lambda>u. u\<lparr>uFailedAttempts := 0, uLockedUntil := None\<rparr>" and i = i, OF _ assms]) (use ClearLock_run in blast, simp)
  show "(\<And>u t. Q (Some u) (Some (u\<lparr>uTOTPSecret := Some secret, uTOTPEnabled := b, uUpdatedAt := t\<rparr>))) \<Longrightarrow>
      state_io_rel (users_evolve Q) (users_SetTOTP R i secret b)"
    by (rule evolve_write [where f = "\<lambda>u. u\<lparr>uTOTPSecret := Some secret, uTOTPEnabled := b\<rparr>" and i = i, OF _ assms]) (use SetTOTP_run in blast, simp)
  show "(\<And>u t. Q (Some u) (Some (u\<lparr>uIsActive := False, uUpdatedAt := t\<rparr>))) \<Longrightarrow>
      state_io_rel (users_evolve Q) (users_Deactivate R i)"
    by (rule evolve_write [where f = "\<lambda>u. u\<lparr>uIsActive := False\<rparr>" and i = i, OF _ assms]) (use Deactivate_run in blast, simp)
qed

end

text \<open>A healthy connection, run by run.\<close>

context reliable_user_repository
begin

lemma find_email:
  assumes "good (store w)" "tbl (store w) i = Some u" "uEmail u = norm email"
  obtains w1 where "run_state (users_FindByEmail R email) w = (Inr u, w1)" "good (store w1)"
    "tbl (store w1) = tbl (store w)" "same_but_store w w1"
proof -
  obtain r w1 where run: "run_state (users_FindByEmail R email) w = (r, w1)" by fastforce
  have "r = Inr u" using FindByEmail_total [OF assms] run by simp
  with FindByEmail_run [OF assms(1) run] run that show thesis by auto
qed

lemma find_id:
  assumes "good (store w)" "tbl (store w) i = Some u"
  obtains w1 where "run_state (users_FindByID R i) w = (Inr u, w1)" "good (store w1)"
    "tbl (store w1) = tbl (store w)" "same_but_store w w1"
proof -
  obtain r w1 where run: "run_state (users_FindByID R i) w = (r, w1)" by fastforce
  have "r = Inr u" using FindByID_total [OF assms(1), of i] assms(2) run by simp
  with FindByID_run [OF assms(1) run] run that show thesis by auto
qed

lemma upd_user_Some:
  "upd_user i f m m' \<Longrightarrow> m i = Some u \<Longrightarrow> \<exists>t. m' = m(i \<mapsto> (f u)\<lparr>uUpdatedAt := t\<rparr>)"
  by (auto simp: upd_user_def)

lemma incr_attempts:
  assumes "good (store w)" "tbl (store w) i = Some u" "uFailedAttempts u + 1 < 2 ^ 31"
  obtains w1 t where "run_state (users_IncrFailedAttempts R i) w = (None, w1)" "good (store w1)"
    "tbl (store w1) = (tbl (store w))(i \<mapsto> u\<lparr>uFailedAttempts := uFailedAttempts u + 1, uUpdatedAt := t\<rparr>)"
    "same_but_store w w1"
proof -
  obtain r w1 where run: "run_state (users_IncrFailedAttempts R i) w = (r, w1)" by fastforce
  have "r = None" using IncrFailedAttempts_total [OF assms] run by simp
  with IncrFailedAttempts_run [OF assms(1) run] run assms(2) that show thesis
    by (auto dest!: upd_user_Some [where u = u])
qed

lemma lock_until:
  assumes "good (store w)" "tbl (store w) i = Some u"
  obtains w1 t where "run_state (users_LockUntil R i until) w = (None, w1)" "good (store w1)"
    "tbl (store w1) = (tbl (store w))(i \<mapsto> u\<lparr>uLockedUntil := Some (stamp until), uUpdatedAt := t\<rparr>)"
    "same_but_store w w1"
proof -
  obtain r w1 where run: "run_state (users_LockUntil R i until) w = (r, w1)" by fastforce
  have "r = None" using LockUntil_total [OF assms(1)] run by (metis fst_conv)
  with LockUntil_run [OF assms(1) run] run assms(2) that show thesis
    by (auto dest!: upd_user_Some [where u = u])
qed

lemma clear_lock:
  assumes "good (store w)" "tbl (store w) i = Some u"
  obtains w1 t where "run_state (users_ClearLock R i) w = (None, w1)" "good (store w1)"
    "tbl (store w1) = (tbl (store w))(i \<mapsto> u\<lparr>uFailedAttempts := 0, uLockedUntil := None, uUpdatedAt := t\<rparr>)"
    "same_but_store w w1"
proof -
  obtain r w1 where run: "run_state (users_ClearLock R i) w = (r, w1)" by fastforce
  have "r = None" using ClearLock_total [OF assms(1)] run by (metis fst_conv)
  with ClearLock_run [OF assms(1) run] run assms(2) that show thesis
    by (auto dest!: upd_user_Some [where u = u])
qed

lemma set_totp:
  assumes "good (store w)" "tbl (store w) i = Some u"
  obtains w1 t where "run_state (users_SetTOTP R i secret b) w = (None, w1)" "good (store w1)"
    "tbl (store w1) = (tbl (store w))(i \<mapsto> u\<lparr>uTOTPSecret := Some secret, uTOTPEnabled := b, uUpdatedAt := t\<rparr>)"
    "same_but_store w w1"
proof -
  obtain r w1 where run: "run_state (users_SetTOTP R i secret b) w = (r, w1)" by fastforce
  have "r = None" using SetTOTP_total [OF assms(1)] run by (metis fst_conv)
  with SetTOTP_run [OF assms(1) run] run assms(2) that show thesis
    by (auto dest!: upd_user_Some [where u = u])
qed

end

context reset_repository
begin

text \<open>A record that has been consumed cannot be consumed again.\<close>

lemma Consume_once:
  assumes good: "rgood (store w)" and run: "run_state (resets_Consume P i) w = (None, w1)"
  obtains p t where "rtbl (store w) i = Some p" "prUsedAt p = None" "rgood (store w1)"
    "rtbl (store w1) = (rtbl (store w))(i \<mapsto> p\<lparr>prUsedAt := Some t\<rparr>)"
    "\<And>w' re w2. rgood (store w') \<Longrightarrow> rtbl (store w') i = rtbl (store w1) i \<Longrightarrow>
       run_state (resets_Consume P i) w' = (re, w2) \<Longrightarrow>
       re \<noteq> None \<and> rtbl (store w2) = rtbl (store w')"
proof -
  from resets_Consume_run [OF good run] obtain p t where g: "rgood (store w1)"
    and p: "rtbl (store w) i = Some p" "prUsedAt p = None"
      "rtbl (store w1) = (rtbl (store w))(i \<mapsto> p\<lparr>prUsedAt := Some t\<rparr>)"
    by blast
  have "re \<noteq> None \<and> rtbl (store w2) = rtbl (store w')"
    if "rgood (store w')" "rtbl (store w') i = rtbl (store w1) i"
      "run_state (resets_Consume P i) w' = (re, w2)" for w' re w2
    using resets_Consume_run [OF that(1,3)] that(2) p(3) by auto
  with g p show thesis by (rule_tac that) blast+
qed

end

context reliable_reset_repository
begin

text \<open>After \<open>Create\<close> the new record is the only one of its user, and a lookup finds it.\<close>

lemma Create_found:
  assumes good: "rgood (store w)" and run: "run_state (resets_Create P cp) w = (Inr p, w1)"
  shows "new_reset rstamp cp p \<and>
    (\<forall>i q. rtbl (store w1) i = Some q \<longrightarrow> prUserID q = cpUserID cp \<longrightarrow> q = p) \<and>
    (\<forall>w'. store w' = store w1 \<longrightarrow> fst (run_state (resets_FindByUserID P (cpUserID cp)) w') = Inr p)"
proof -
  have view: "rtbl (store w1) = (drop_user (cpUserID cp) (rtbl (store w)))(prID p \<mapsto> p)"
    using resets_Create_replaces [OF good run] .
  from resets_Create_run [OF good run] have g: "rgood (store w1)" and new: "new_reset rstamp cp p"
    by auto
  have only: "q = p \<and> i = prID p" if "rtbl (store w1) i = Some q" "prUserID q = cpUserID cp" for i q
    using that unfolding view by (auto simp: drop_user_def split: if_splits option.splits)
  have "fst (run_state (resets_FindByUserID P (cpUserID cp)) w') = Inr p" if "store w' = store w1" for w'
  proof (rule resets_FindByUserID_total [where i = "prID p"])
    show "rgood (store w')" "rtbl (store w') (prID p) = Some p"
      using that g view by auto
    show "prUserID p = cpUserID cp" "prUsedAt p = None"
      using new by (simp_all add: new_reset_def)
    show "\<forall>j q. rtbl (store w') j = Some q \<longrightarrow> prUserID q = cpUserID cp \<longrightarrow> prUsedAt q = None \<longrightarrow> j = prID p"
      using only that by auto
  qed
  with new only show ?thesis by blast
qed

end

end
