(* ===== verification/UserRepo.thy ===== *)
theory UserRepo
  imports Interfaces "HOL-Library.Product_Lexorder"
begin

text \<open>
  \<open>internal/repository/implementation/user.go\<close>: the PostgreSQL user repository, one definition per
  method, each with its statement on the tables. The locale \<open>user_repository\<close> is interpreted on it
  for a database without read replicas, whatever faults the connection has, and
  \<open>reliable_user_repository\<close> for a connection without faults.
\<close>

section \<open>The methods\<close>

definition scanUser :: "users_row \<Rightarrow> User" where
  "scanUser r =
     \<lparr>uID = c_id r, uEmail = c_email r, uName = c_name r, uPasswordHash = c_password_hash r,
      uRole = enum_out (c_role r), uTOTPSecret = c_totp_secret r, uTOTPEnabled = c_totp_enabled r,
      uFailedAttempts = c_failed_attempts r, uLockedUntil = c_locked_until r,
      uIsActive = c_is_active r, uCreatedAt = c_created_at r, uUpdatedAt = c_updated_at r\<rparr>"

definition role_arg :: "UserRole \<Rightarrow> goerr + user_role" where
  "role_arg s = (case enum_in s of
      None \<Rightarrow> Inl (Plain (''invalid input value for enum user_role: '' @ s))
    | Some r \<Rightarrow> Inr r)"

definition insert_user :: "string \<Rightarrow> string \<Rightarrow> string \<Rightarrow> UserRole \<Rightarrow> users_row stmt" where
  "insert_user email name hash role now uid t =
     (case role_arg role of
        Inl e \<Rightarrow> Inl e
      | Inr r \<Rightarrow>
          if uid \<in> c_id ` set (users t) then Inl (Plain ''duplicate key value violates users_pkey'')
          else if email \<in> c_email ` set (users t)
          then Inl (Plain ''duplicate key value violates users_email_key'')
          else
            let row = \<lparr>c_id = uid, c_email = email, c_name = name, c_password_hash = hash, c_role = r,
                       c_totp_secret = None, c_totp_enabled = False, c_failed_attempts = 0,
                       c_locked_until = None, c_is_active = True, c_created_at = now,
                       c_updated_at = now\<rparr>
            in Inr (row, t\<lparr>users := users t @ [row]\<rparr>))"

definition pgx_users_Create :: "outside \<Rightarrow> CreateUserParams \<Rightarrow> (DB world, goerr + User) state" where
  "pgx_users_Create L p = do {
     r \<leftarrow> pg_write L (insert_user (norm_email (unicode_lower L) (cuEmail p)) (TrimSpace (cuName p))
                        (cuPasswordHash p) (cuRole p));
     ret (map_sum (\<lambda>e. e) scanUser r)
   }"

definition no_rows_to_not_found :: "goerr + 'a \<Rightarrow> goerr + 'a" where
  "no_rows_to_not_found r = (case r of
      Inl err \<Rightarrow> if errors_Is err NoRows then Inl (Sentinel ErrNotFound) else Inl err
    | Inr u \<Rightarrow> Inr u)"

definition pgx_users_FindByID :: "outside \<Rightarrow> uuid \<Rightarrow> (DB world, goerr + User) state" where
  "pgx_users_FindByID L i = do {
     r \<leftarrow> pg_read L (\<lambda>_ t. first_row (filter (\<lambda>r. c_id r = i) (users t)));
     ret (no_rows_to_not_found (map_sum (\<lambda>e. e) scanUser r))
   }"

definition pgx_users_FindByEmail :: "outside \<Rightarrow> string \<Rightarrow> (DB world, goerr + User) state" where
  "pgx_users_FindByEmail L email = do {
     r \<leftarrow> pg_read L (\<lambda>_ t.
            first_row (filter (\<lambda>r. c_email r = norm_email (unicode_lower L) email) (users t)));
     ret (no_rows_to_not_found (map_sum (\<lambda>e. e) scanUser r))
   }"

text \<open>
  The filter of \<open>List\<close>, the count and the page. SQL orders the rows by \<open>created_at DESC\<close> and leaves
  the order of equal instants open, which the number of the query settles.
\<close>

definition users_where :: "outside \<Rightarrow> ListUsersParams \<Rightarrow> goerr + (users_row \<Rightarrow> bool)" where
  "users_where L p =
     (let search = (case luSearch p of
            Some s \<Rightarrow> if s \<noteq> ''''
              then (\<lambda>r. pg_ilike L (c_name r) (''%'' @ s @ ''%'') \<or> pg_ilike L (c_email r) (''%'' @ s @ ''%''))
              else (\<lambda>_. True)
          | None \<Rightarrow> (\<lambda>_. True))
      in case luRole p of
           None \<Rightarrow> Inr search
         | Some role \<Rightarrow>
             (case role_arg role of Inl e \<Rightarrow> Inl e | Inr x \<Rightarrow> Inr (\<lambda>r. c_role r = x \<and> search r)))"

definition limit_offset :: "Params \<Rightarrow> 'a list \<Rightarrow> goerr + 'a list" where
  "limit_offset p xs =
     (if sint (PageSize p) < 0 then Inl (Plain ''LIMIT must not be negative'')
      else if sint (Offset p) < 0 then Inl (Plain ''OFFSET must not be negative'')
      else Inr (take (nat (sint (PageSize p))) (drop (nat (sint (Offset p))) xs)))"

definition pgx_users_List :: "outside \<Rightarrow> ListUsersParams \<Rightarrow> (DB world, goerr + User list \<times> int) state" where
  "pgx_users_List L p = do {
     c \<leftarrow> pg_read L (\<lambda>_ t. case users_where L p of
            Inl e \<Rightarrow> Inl e | Inr f \<Rightarrow> Inr (int (length (filter f (users t)))));
     case c of
       Inl err \<Rightarrow> ret (Inl (Wrapped ''count users'' err))
     | Inr n_rows \<Rightarrow> do {
         rows \<leftarrow> pg_read L (\<lambda>n t. case users_where L p of
            Inl e \<Rightarrow> Inl e
          | Inr f \<Rightarrow> limit_offset (luParams p)
              (sort_key (\<lambda>r. (- c_created_at r, tie_at L n (c_id r))) (filter f (users t))));
         case rows of
           Inl err \<Rightarrow> ret (Inl (Wrapped ''list users'' err))
         | Inr rs \<Rightarrow> ret (Inr (map scanUser rs, n_rows))
       }
   }"

definition update_user_row :: "uuid \<Rightarrow> (users_row \<Rightarrow> users_row) \<Rightarrow> nat stmt" where
  "update_user_row i f now uid t =
     Inr (rows_affected (\<lambda>r. c_id r = i) (users t), update_users (\<lambda>r. c_id r = i) f t)"

definition pgx_users_Update :: "outside \<Rightarrow> uuid \<Rightarrow> UpdateUserParams \<Rightarrow> (DB world, goerr + User) state" where
  "pgx_users_Update L i p =
     (if uuName p = None \<and> uuRole p = None then pgx_users_FindByID L i
      else do {
        updated \<leftarrow> time_Now L;
        r \<leftarrow> pg_write L (\<lambda>now uid t.
          case (case uuRole p of None \<Rightarrow> Inr None | Some s \<Rightarrow> map_sum (\<lambda>e. e) Some (role_arg s)) of
            Inl e \<Rightarrow> Inl e
          | Inr role \<Rightarrow>
              let t' = update_users (\<lambda>r. c_id r = i)
                    (\<lambda>r. r\<lparr>c_name := (case uuName p of None \<Rightarrow> c_name r | Some n \<Rightarrow> TrimSpace n),
                           c_role := (case role of None \<Rightarrow> c_role r | Some x \<Rightarrow> x),
                           c_updated_at := pg_time L updated\<rparr>) t
              in Inr (first_row (filter (\<lambda>r. c_id r = i) (users t')), t'));
        ret (case r of
            Inl err \<Rightarrow> Inl (Wrapped ''update user'' err)
          | Inr (Inl err) \<Rightarrow>
              if errors_Is err NoRows then Inl (Sentinel ErrNotFound) else Inl (Wrapped ''update user'' err)
          | Inr (Inr row) \<Rightarrow> Inr (scanUser row))
      })"

definition checked_exec :: "string \<Rightarrow> goerr + nat \<Rightarrow> goerr option" where
  "checked_exec what r = (case r of
      Inl err \<Rightarrow> Some (Wrapped what err)
    | Inr n \<Rightarrow> if n = 0 then Some (Sentinel ErrNotFound) else None)"

definition plain_exec :: "goerr + nat \<Rightarrow> goerr option" where
  "plain_exec r = (case r of Inl err \<Rightarrow> Some err | Inr _ \<Rightarrow> None)"

definition pgx_users_UpdatePassword :: "outside \<Rightarrow> uuid \<Rightarrow> string \<Rightarrow> (DB world, goerr option) state" where
  "pgx_users_UpdatePassword L i hash = do {
     r \<leftarrow> pg_write L (\<lambda>now. update_user_row i (\<lambda>r. r\<lparr>c_password_hash := hash, c_updated_at := now\<rparr>) now);
     ret (checked_exec ''update password'' r)
   }"

text \<open>The column is a 32-bit \<open>INT\<close>: adding one to its largest value is an error.\<close>

definition pgx_users_IncrFailedAttempts :: "outside \<Rightarrow> uuid \<Rightarrow> (DB world, goerr option) state" where
  "pgx_users_IncrFailedAttempts L i = do {
     r \<leftarrow> pg_write L (\<lambda>now uid t.
       if \<exists>r \<in> set (users t). c_id r = i \<and> 2 ^ 31 \<le> c_failed_attempts r + 1
       then Inl (Plain ''integer out of range'')
       else update_user_row i
              (\<lambda>r. r\<lparr>c_failed_attempts := c_failed_attempts r + 1, c_updated_at := now\<rparr>) now uid t);
     ret (plain_exec r)
   }"

definition pgx_users_LockUntil :: "outside \<Rightarrow> uuid \<Rightarrow> time \<Rightarrow> (DB world, goerr option) state" where
  "pgx_users_LockUntil L i until = do {
     r \<leftarrow> pg_write L (\<lambda>now. update_user_row i
            (\<lambda>r. r\<lparr>c_locked_until := Some (pg_time L until), c_updated_at := now\<rparr>) now);
     ret (plain_exec r)
   }"

definition pgx_users_ClearLock :: "outside \<Rightarrow> uuid \<Rightarrow> (DB world, goerr option) state" where
  "pgx_users_ClearLock L i = do {
     r \<leftarrow> pg_write L (\<lambda>now. update_user_row i
            (\<lambda>r. r\<lparr>c_failed_attempts := 0, c_locked_until := None, c_updated_at := now\<rparr>) now);
     ret (plain_exec r)
   }"

definition pgx_users_SetTOTP :: "outside \<Rightarrow> uuid \<Rightarrow> string \<Rightarrow> bool \<Rightarrow> (DB world, goerr option) state" where
  "pgx_users_SetTOTP L i secret enabled = do {
     r \<leftarrow> pg_write L (\<lambda>now. update_user_row i
            (\<lambda>r. r\<lparr>c_totp_secret := Some secret, c_totp_enabled := enabled, c_updated_at := now\<rparr>) now);
     ret (plain_exec r)
   }"

definition pgx_users_Deactivate :: "outside \<Rightarrow> uuid \<Rightarrow> (DB world, goerr option) state" where
  "pgx_users_Deactivate L i = do {
     r \<leftarrow> pg_write L (\<lambda>now. update_user_row i (\<lambda>r. r\<lparr>c_is_active := False, c_updated_at := now\<rparr>) now);
     ret (checked_exec ''deactivate user'' r)
   }"

definition pgx_users_CountSuperAdmins :: "outside \<Rightarrow> (DB world, goerr + int) state" where
  "pgx_users_CountSuperAdmins L = do {
     r \<leftarrow> pg_read L (\<lambda>_ t. Inr (int (length (filter (\<lambda>r. c_role r = SuperAdmin \<and> c_is_active r) (users t)))));
     ret (map_sum (Wrapped ''count super admins'') (\<lambda>n. n) r)
   }"

definition NewUserRepository :: "outside \<Rightarrow> DB IUserRepository" where
  "NewUserRepository L =
     \<lparr>users_Create = pgx_users_Create L,
      users_FindByID = pgx_users_FindByID L,
      users_FindByEmail = pgx_users_FindByEmail L,
      users_List = pgx_users_List L,
      users_Update = pgx_users_Update L,
      users_UpdatePassword = pgx_users_UpdatePassword L,
      users_IncrFailedAttempts = pgx_users_IncrFailedAttempts L,
      users_LockUntil = pgx_users_LockUntil L,
      users_ClearLock = pgx_users_ClearLock L,
      users_SetTOTP = pgx_users_SetTOTP L,
      users_Deactivate = pgx_users_Deactivate L,
      users_CountSuperAdmins = pgx_users_CountSuperAdmins L\<rparr>"

lemma NewUserRepository_simps [simp]:
  "users_Create (NewUserRepository L) = pgx_users_Create L"
  "users_FindByID (NewUserRepository L) = pgx_users_FindByID L"
  "users_FindByEmail (NewUserRepository L) = pgx_users_FindByEmail L"
  "users_List (NewUserRepository L) = pgx_users_List L"
  "users_Update (NewUserRepository L) = pgx_users_Update L"
  "users_UpdatePassword (NewUserRepository L) = pgx_users_UpdatePassword L"
  "users_IncrFailedAttempts (NewUserRepository L) = pgx_users_IncrFailedAttempts L"
  "users_LockUntil (NewUserRepository L) = pgx_users_LockUntil L"
  "users_ClearLock (NewUserRepository L) = pgx_users_ClearLock L"
  "users_SetTOTP (NewUserRepository L) = pgx_users_SetTOTP L"
  "users_Deactivate (NewUserRepository L) = pgx_users_Deactivate L"
  "users_CountSuperAdmins (NewUserRepository L) = pgx_users_CountSuperAdmins L"
  by (simp_all add: NewUserRepository_def)

section \<open>The users of a store\<close>

definition users_view :: "DB \<Rightarrow> user_map" where
  "users_view d i = map_option scanUser (find (\<lambda>r. c_id r = i) (users (primary d)))"

lemma scanUser_sel [simp]:
  "uID (scanUser r) = c_id r" "uEmail (scanUser r) = c_email r" "uName (scanUser r) = c_name r"
  "uPasswordHash (scanUser r) = c_password_hash r" "uRole (scanUser r) = enum_out (c_role r)"
  "uTOTPSecret (scanUser r) = c_totp_secret r" "uTOTPEnabled (scanUser r) = c_totp_enabled r"
  "uFailedAttempts (scanUser r) = c_failed_attempts r" "uLockedUntil (scanUser r) = c_locked_until r"
  "uIsActive (scanUser r) = c_is_active r" "uUpdatedAt (scanUser r) = c_updated_at r"
  "uCreatedAt (scanUser r) = c_created_at r"
  by (simp_all add: scanUser_def)

lemma find_distinct:
  "distinct (map key xs) \<Longrightarrow> find (\<lambda>x. key x = k) xs = Some x \<longleftrightarrow> x \<in> set xs \<and> key x = k"
  by (induction xs) (auto split: if_splits simp: image_iff)

lemma find_None_set: "find P xs = None \<longleftrightarrow> (\<forall>x \<in> set xs. \<not> P x)"
  by (auto simp: find_None_iff)

lemma find_update_where:
  "(\<And>x. key (f x) = key x) \<Longrightarrow>
   find (\<lambda>x. key x = k) (update_where (\<lambda>x. key x = j) f xs) =
     (if k = j then map_option f (find (\<lambda>x. key x = k) xs) else find (\<lambda>x. key x = k) xs)"
  by (induction xs) auto

lemma find_append: "find P (xs @ ys) = (case find P xs of None \<Rightarrow> find P ys | Some x \<Rightarrow> Some x)"
  by (induction xs) auto

lemma first_row_filter: "first_row (filter P xs) = (case find P xs of None \<Rightarrow> Inl NoRows | Some x \<Rightarrow> Inr x)"
  by (induction xs) (auto simp: first_row_def)

lemma rows_affected_find:
  "rows_affected P xs = 0 \<longleftrightarrow> find P xs = None" "0 < rows_affected P xs \<longleftrightarrow> find P xs \<noteq> None"
  by (simp_all add: rows_affected_def find_None_set filter_empty_conv)

lemma wf_users:
  assumes "single_node d"
  shows "distinct (map c_id (users (primary d)))" "distinct (map c_email (users (primary d)))"
    "r \<in> set (users (primary d)) \<Longrightarrow> - (2 ^ 31) \<le> c_failed_attempts r \<and> c_failed_attempts r < 2 ^ 31"
  using assms by (auto simp: single_node_def wf_tables_def)

lemma users_view_Some:
  "single_node d \<Longrightarrow> users_view d i = Some u \<longleftrightarrow>
     (\<exists>r \<in> set (users (primary d)). c_id r = i \<and> u = scanUser r)"
  by (auto simp: users_view_def find_distinct [OF wf_users(1)])

lemma users_view_None:
  "users_view d i = None \<longleftrightarrow> (\<forall>r \<in> set (users (primary d)). c_id r \<noteq> i)"
  by (simp add: users_view_def find_None_set)

text \<open>An update of one user's row, on the map and on the constraints.\<close>

lemma wf_update_row:
  assumes "wf_tables t"
    and "\<And>r. c_id (f r) = c_id r" and "\<And>r. c_email (f r) = c_email r"
    and "\<And>r. r \<in> set (users t) \<Longrightarrow> c_id r = i \<Longrightarrow>
      - (2 ^ 31) \<le> c_failed_attempts (f r) \<and> c_failed_attempts (f r) < 2 ^ 31"
  shows "wf_tables (update_users (\<lambda>r. c_id r = i) f t)"
proof -
  have ids: "map c_id (update_where (\<lambda>r. c_id r = i) f (users t)) = map c_id (users t)"
    and emails: "map c_email (update_where (\<lambda>r. c_id r = i) f (users t)) = map c_email (users t)"
    by (rule map_update_where, simp add: assms(2,3))+
  from ids have "c_id ` set (update_where (\<lambda>r. c_id r = i) f (users t)) = c_id ` set (users t)"
    by (metis set_map)
  with ids emails assms(1,4) show ?thesis
    by (auto simp: wf_tables_def update_users_def set_update_where)
qed

lemma users_view_update:
  assumes "\<And>r. c_id (f r) = c_id r"
    and "\<And>r. scanUser (f r) = (g (scanUser r))\<lparr>uUpdatedAt := t\<rparr>"
  shows "upd_user i g (users_view d)
    (users_view (d\<lparr>primary := update_users (\<lambda>r. c_id r = i) f (primary d)\<rparr>))"
  unfolding upd_user_def
proof (intro exI [of _ t] ext)
  fix j
  show "users_view (d\<lparr>primary := update_users (\<lambda>r. c_id r = i) f (primary d)\<rparr>) j =
    (case users_view d i of None \<Rightarrow> users_view d
     | Some u \<Rightarrow> (users_view d)(i \<mapsto> (g u)\<lparr>uUpdatedAt := t\<rparr>)) j"
    using assms
    by (auto simp: users_view_def update_users_def find_update_where option.map_comp comp_def
        split: option.split)
qed

text \<open>Any statement that updates one row, run on a single node.\<close>

lemma update_row_run:
  assumes good: "single_node (store w)"
    and run: "run_state (pg_write L st) w = (r, w')"
    and st: "\<And>now uid t n t'. st now uid t = Inr (n, t') \<Longrightarrow> update_user_row i (f now) now uid t = Inr (n, t')"
    and ids: "\<And>now r. c_id (f now r) = c_id r" "\<And>now r. c_email (f now r) = c_email r"
    and scan: "\<And>now r. scanUser (f now r) = (g (scanUser r))\<lparr>uUpdatedAt := now\<rparr>"
    and int: "\<And>now uid t x r. wf_tables t \<Longrightarrow> st now uid t = Inr x \<Longrightarrow> r \<in> set (users t) \<Longrightarrow> c_id r = i \<Longrightarrow>
      - (2 ^ 31) \<le> c_failed_attempts (f now r) \<and> c_failed_attempts (f now r) < 2 ^ 31"
  shows "single_node (store w') \<and> same_but_store w w' \<and>
    (upd_user i g (users_view (store w)) (users_view (store w')) \<or>
     (\<exists>e. r = Inl e) \<and> users_view (store w') = users_view (store w)) \<and>
    (\<forall>n. r = Inr n \<longrightarrow> (n = 0 \<longleftrightarrow> users_view (store w) i = None))"
  using run
proof (cases rule: pg_write_cases)
  case (unchanged e)
  with good show ?thesis by simp
next
  case (written n t)
  let ?now = "pg_time L (now_at L (ticks w))"
  have t: "update_user_row i (f ?now) ?now (uid) (primary (store w)) = Inr (n, t)" for uid
    using st [OF written(1)] by (simp add: update_user_row_def)
  then have t': "t = update_users (\<lambda>r. c_id r = i) (f ?now) (primary (store w))"
    and n: "n = rows_affected (\<lambda>r. c_id r = i) (users (primary (store w)))"
    by (simp_all add: update_user_row_def)
  have wf: "wf_tables (primary (store w))" using good by (simp add: single_node_def)
  have "wf_tables t"
    unfolding t' by (rule wf_update_row [OF wf ids]) (rule int [OF wf written(1)])
  moreover have "upd_user i g (users_view (store w)) (users_view (store w'))"
    unfolding written(2) t' by (rule users_view_update [OF ids(1) scan])
  ultimately show ?thesis
    using good written(2-4) n
    by (auto simp: single_node_def rows_affected_find users_view_def)
qed

section \<open>The contract holds\<close>

lemma run_read_good:
  assumes "single_node (store w)"
  shows "run_state (pg_read L q) w =
    (case sql_fault L (ticks w) of
        Healthy \<Rightarrow> q (ticks w) (primary (store w))
      | Refused m \<Rightarrow> Inl (Plain m)
      | AckLost m \<Rightarrow> Inl (Plain m), w\<lparr>ticks := Suc (ticks w)\<rparr>)"
  using assms by (intro run_pg_read_single) (simp add: single_node_def)

lemma pgx_users_FindByID_run:
  assumes "single_node (store w)"
  shows "run_state (pgx_users_FindByID L i) w =
    (case sql_fault L (ticks w) of
        Healthy \<Rightarrow> (case users_view (store w) i of Some u \<Rightarrow> Inr u | None \<Rightarrow> Inl (Sentinel ErrNotFound))
      | Refused m \<Rightarrow> Inl (Plain m) | AckLost m \<Rightarrow> Inl (Plain m),
     w\<lparr>ticks := Suc (ticks w)\<rparr>)"
  using assms
  by (auto simp: pgx_users_FindByID_def run_read_good first_row_filter users_view_def
      no_rows_to_not_found_def split: fault.split option.split)

lemma pgx_users_FindByEmail_run:
  assumes "single_node (store w)"
  shows "run_state (pgx_users_FindByEmail L email) w =
    (case sql_fault L (ticks w) of
        Healthy \<Rightarrow>
          (case find (\<lambda>r. c_email r = norm_email (unicode_lower L) email) (users (primary (store w))) of
             Some r \<Rightarrow> Inr (scanUser r) | None \<Rightarrow> Inl (Sentinel ErrNotFound))
      | Refused m \<Rightarrow> Inl (Plain m) | AckLost m \<Rightarrow> Inl (Plain m),
     w\<lparr>ticks := Suc (ticks w)\<rparr>)"
  using assms
  by (auto simp: pgx_users_FindByEmail_def run_read_good first_row_filter
      no_rows_to_not_found_def split: fault.split option.split)

lemma active_super_admins_view:
  assumes "single_node d"
  shows "card (active_super_admins (users_view d)) =
    length (filter (\<lambda>r. c_role r = SuperAdmin \<and> c_is_active r) (users (primary d)))"
proof -
  let ?P = "\<lambda>r. c_role r = SuperAdmin \<and> c_is_active r"
  have role: "enum_out x = RoleSuperAdmin \<longleftrightarrow> x = SuperAdmin" for x
    by (cases x) (simp_all add: RoleSuperAdmin_def)
  have "(\<exists>u. (\<exists>r \<in> set (users (primary d)). c_id r = i \<and> u = scanUser r) \<and> uRole u = RoleSuperAdmin \<and> uIsActive u)
      \<longleftrightarrow> (\<exists>r \<in> set (users (primary d)). c_id r = i \<and> uRole (scanUser r) = RoleSuperAdmin \<and> uIsActive (scanUser r))"
    for i by blast
  then have "active_super_admins (users_view d) = c_id ` set (filter ?P (users (primary d)))"
    unfolding active_super_admins_def users_view_Some [OF assms] by (auto simp: role)
  also have "card \<dots> = length (map c_id (filter ?P (users (primary d))))"
    using distinct_card [OF distinct_map_filter [OF wf_users(1) [OF assms], of ?P]] by simp
  finally show ?thesis by simp
qed

lemma pgx_users_Count_run:
  assumes "single_node (store w)"
  shows "run_state (pgx_users_CountSuperAdmins L) w =
    (case sql_fault L (ticks w) of
        Healthy \<Rightarrow> Inr (int (card (active_super_admins (users_view (store w)))))
      | Refused m \<Rightarrow> Inl (Wrapped ''count super admins'' (Plain m))
      | AckLost m \<Rightarrow> Inl (Wrapped ''count super admins'' (Plain m)),
     w\<lparr>ticks := Suc (ticks w)\<rparr>)"
  using assms
  by (auto simp: pgx_users_CountSuperAdmins_def run_read_good active_super_admins_view
      split: fault.split)

text \<open>The page that \<open>List\<close> returns is a window of the filtered rows, newest first.\<close>

lemma limit_offset_set: "limit_offset p xs = Inr ys \<Longrightarrow> set ys \<subseteq> set xs"
  by (auto simp: limit_offset_def split: if_splits dest: in_set_takeD in_set_dropD)

lemma pgx_users_List_run:
  assumes good: "single_node (store w)" and run: "run_state (pgx_users_List L p) w = (r, w')"
  shows "store w' = store w \<and> same_but_store w w' \<and>
    (\<forall>us n. r = Inr (us, n) \<longrightarrow>
       (\<exists>f rows. users_where L p = Inr f \<and> us = map scanUser rows \<and>
          n = int (length (filter f (users (primary (store w))))) \<and>
          limit_offset (luParams p)
            (sort_key (\<lambda>r. (- c_created_at r, tie_at L (Suc (ticks w)) (c_id r)))
              (filter f (users (primary (store w))))) = Inr rows))"
  using run good
  by (auto simp: pgx_users_List_def run_read_good same_but_store_def
      split: fault.splits sum.splits)

lemma wf_insert:
  assumes "wf_tables t" "c_id row \<notin> c_id ` set (users t)" "c_email row \<notin> c_email ` set (users t)"
    and "c_failed_attempts row = 0"
  shows "wf_tables (t\<lparr>users := users t @ [row]\<rparr>)"
proof -
  have "distinct (map c_id (users t @ [row]))" "distinct (map c_email (users t @ [row]))"
    using assms by (simp_all add: wf_tables_def)
  with assms show ?thesis unfolding wf_tables_def by simp blast
qed

lemma users_view_insert:
  assumes "c_id row \<notin> c_id ` set (users (primary d))"
  shows "users_view (d\<lparr>primary := (primary d)\<lparr>users := users (primary d) @ [row]\<rparr>\<rparr>) =
    (users_view d)(c_id row \<mapsto> scanUser row)"
proof
  fix j
  have "find (\<lambda>r. c_id r = c_id row) (users (primary d)) = None"
    unfolding find_None_set using assms by (metis image_eqI)
  then show "users_view (d\<lparr>primary := (primary d)\<lparr>users := users (primary d) @ [row]\<rparr>\<rparr>) j =
    ((users_view d)(c_id row \<mapsto> scanUser row)) j"
    by (auto simp: users_view_def find_append split: option.split)
qed

lemma new_row:
  assumes "insert_user email name hash role now uid t = Inr (row, t')"
  shows "t' = t\<lparr>users := users t @ [row]\<rparr>" "uid \<notin> c_id ` set (users t)" "email \<notin> c_email ` set (users t)"
    "c_id row = uid" "c_email row = email" "c_failed_attempts row = 0"
    "scanUser row = \<lparr>uID = uid, uEmail = email, uName = name, uPasswordHash = hash, uRole = role,
       uTOTPSecret = None, uTOTPEnabled = False, uFailedAttempts = 0, uLockedUntil = None,
       uIsActive = True, uCreatedAt = now, uUpdatedAt = now\<rparr>"
  using assms
  by (auto simp: insert_user_def role_arg_def scanUser_def enum_in_Some Let_def
      split: sum.splits option.splits if_splits)

lemma pgx_users_Create_run:
  assumes good: "single_node (store w)" and run: "run_state (pgx_users_Create L p) w = (r, w')"
  shows "single_node (store w') \<and> same_but_store w w' \<and>
    ((\<exists>u. new_user (norm_email (unicode_lower L)) p u \<and> users_view (store w) (uID u) = None \<and>
          users_view (store w') = (users_view (store w))(uID u \<mapsto> u) \<and> (\<forall>v. r = Inr v \<longrightarrow> v = u)) \<or>
     (\<exists>e. r = Inl e \<and> users_view (store w') = users_view (store w)))"
proof -
  obtain r0 where r0: "run_state (pg_write L (insert_user (norm_email (unicode_lower L) (cuEmail p))
      (TrimSpace (cuName p)) (cuPasswordHash p) (cuRole p))) w = (r0, w')"
    and r: "r = map_sum (\<lambda>e. e) scanUser r0"
    using run by (auto simp: pgx_users_Create_def split: prod.splits)
  from r0 show ?thesis
  proof (cases rule: pg_write_cases)
    case (unchanged e)
    with good r show ?thesis by simp
  next
    case (written row t)
    note row = new_row [OF written(1)]
    have wf0: "wf_tables (primary (store w))"
      using good by (simp add: single_node_def)
    have fresh: "c_id row \<notin> c_id ` set (users (primary (store w)))"
        "c_email row \<notin> c_email ` set (users (primary (store w)))"
      unfolding row(4,5) by (rule row(2) row(3))+
    have wf: "wf_tables t"
      unfolding row(1) by (rule wf_insert [OF wf0 fresh row(6)])
    have view: "users_view (store w') = (users_view (store w))(c_id row \<mapsto> scanUser row)"
      unfolding written(2) row(1) by (rule users_view_insert [OF fresh(1)])
    have "new_user (norm_email (unicode_lower L)) p (scanUser row)"
      unfolding new_user_def row(7) by simp
    moreover have "users_view (store w) (c_id row) = None"
      unfolding users_view_None using fresh(1) by (metis image_eqI)
    moreover have "\<forall>v. r = Inr v \<longrightarrow> v = scanUser row"
      using written(4) r by auto
    moreover have "single_node (store w')"
      using good wf written(2) by (simp add: single_node_def)
    ultimately show ?thesis
      using view written(3) by (metis scanUser_sel(1))
  qed
qed

text \<open>The two ways an \<open>Exec\<close> result becomes an error.\<close>

lemma run_execE:
  assumes "run_state (do { r \<leftarrow> pg_write L st; ret (h r) }) w = (re, w')"
  obtains r where "run_state (pg_write L st) w = (r, w')" "re = h r"
  using assms by (auto split: prod.splits)

lemma exec_None [simp]:
  "plain_exec r = None \<longleftrightarrow> (\<exists>n. r = Inr n)"
  "checked_exec s r = None \<longleftrightarrow> (\<exists>n. r = Inr n \<and> n \<noteq> 0)"
  by (auto simp: plain_exec_def checked_exec_def split: sum.split)

lemma upd_user_absent: "m i = None \<Longrightarrow> upd_user i g m m' \<longleftrightarrow> m' = m"
  by (simp add: upd_user_def)

lemma upd_user_id: "users_view d i = None \<Longrightarrow> upd_user i g (users_view d) (users_view d)"
  by (simp add: upd_user_absent)

text \<open>One lemma per method that updates a row; each names the field change and nothing else.\<close>

lemma pgx_users_UpdatePassword_run:
  assumes "single_node (store w)" and "run_state (pgx_users_UpdatePassword L i h) w = (re, w')"
  shows "single_node (store w') \<and> same_but_store w w' \<and>
    (upd_user i (\<lambda>u. u\<lparr>uPasswordHash := h\<rparr>) (users_view (store w)) (users_view (store w')) \<or>
     re \<noteq> None \<and> users_view (store w') = users_view (store w)) \<and>
    (re = None \<longrightarrow> users_view (store w) i \<noteq> None)"
proof -
  obtain r where r: "run_state (pg_write L (\<lambda>now. update_user_row i
      (\<lambda>r. r\<lparr>c_password_hash := h, c_updated_at := now\<rparr>) now)) w = (r, w')"
    and re: "re = checked_exec ''update password'' r"
    using assms(2) unfolding pgx_users_UpdatePassword_def by (rule run_execE)
  show ?thesis
    using update_row_run [OF assms(1) r, of i "\<lambda>now r. r\<lparr>c_password_hash := h, c_updated_at := now\<rparr>"
        "\<lambda>u. u\<lparr>uPasswordHash := h\<rparr>"] re
    by (auto simp: scanUser_def wf_tables_def)
qed

lemma pgx_users_IncrFailedAttempts_run:
  assumes "single_node (store w)" and "run_state (pgx_users_IncrFailedAttempts L i) w = (re, w')"
  shows "single_node (store w') \<and> same_but_store w w' \<and>
    (upd_user i (\<lambda>u. u\<lparr>uFailedAttempts := uFailedAttempts u + 1\<rparr>)
       (users_view (store w)) (users_view (store w')) \<or>
     re \<noteq> None \<and> users_view (store w') = users_view (store w))"
proof -
  let ?f = "\<lambda>now r. r\<lparr>c_failed_attempts := c_failed_attempts r + 1, c_updated_at := now\<rparr>"
  let ?st = "\<lambda>now uid t. if \<exists>r \<in> set (users t). c_id r = i \<and> 2 ^ 31 \<le> c_failed_attempts r + 1
       then Inl (Plain ''integer out of range'') else update_user_row i (?f now) now uid t"
  obtain r where r: "run_state (pg_write L ?st) w = (r, w')" and re: "re = plain_exec r"
    using assms(2) unfolding pgx_users_IncrFailedAttempts_def by (rule run_execE)
  have st: "?st now uid t = Inr x \<Longrightarrow> update_user_row i (?f now) now uid t = Inr x" for now uid t x
    by (simp split: if_splits)
  have int: "- (2 ^ 31) \<le> c_failed_attempts (?f now r) \<and> c_failed_attempts (?f now r) < 2 ^ 31"
    if "wf_tables t" "?st now uid t = Inr x" "r \<in> set (users t)" "c_id r = i" for now uid t x r
  proof -
    have "\<not> 2 ^ 31 \<le> c_failed_attempts r + 1" using that(2-4) by (auto split: if_splits)
    moreover have "- (2 ^ 31) \<le> c_failed_attempts r" using that(1,3) by (auto simp: wf_tables_def)
    ultimately show ?thesis by simp
  qed
  have scan: "scanUser (?f now r) =
      ((scanUser r)\<lparr>uFailedAttempts := uFailedAttempts (scanUser r) + 1\<rparr>)\<lparr>uUpdatedAt := now\<rparr>" for now r
    by (simp add: scanUser_def)
  have ids: "c_id (?f now r) = c_id r" "c_email (?f now r) = c_email r" for now r
    by simp_all
  have "single_node (store w') \<and> same_but_store w w' \<and>
    (upd_user i (\<lambda>u. u\<lparr>uFailedAttempts := uFailedAttempts u + 1\<rparr>)
       (users_view (store w)) (users_view (store w')) \<or>
     (\<exists>e. r = Inl e) \<and> users_view (store w') = users_view (store w)) \<and>
    (\<forall>n. r = Inr n \<longrightarrow> (n = 0 \<longleftrightarrow> users_view (store w) i = None))"
    by (rule update_row_run [where f = ?f, OF assms(1) r])
      (erule st, rule ids, rule ids, rule scan, rule int, assumption+)
  then show ?thesis unfolding re by auto
qed

lemma pgx_users_LockUntil_run:
  assumes "single_node (store w)" and "run_state (pgx_users_LockUntil L i until) w = (re, w')"
  shows "single_node (store w') \<and> same_but_store w w' \<and>
    (upd_user i (\<lambda>u. u\<lparr>uLockedUntil := Some (pg_time L until)\<rparr>)
       (users_view (store w)) (users_view (store w')) \<or>
     re \<noteq> None \<and> users_view (store w') = users_view (store w))"
proof -
  let ?f = "\<lambda>now r. r\<lparr>c_locked_until := Some (pg_time L until), c_updated_at := now\<rparr>"
  obtain r where r: "run_state (pg_write L (\<lambda>now. update_user_row i (?f now) now)) w = (r, w')"
    and re: "re = plain_exec r"
    using assms(2) unfolding pgx_users_LockUntil_def by (rule run_execE)
  show ?thesis
    using update_row_run [OF assms(1) r, of i ?f "\<lambda>u. u\<lparr>uLockedUntil := Some (pg_time L until)\<rparr>"] re
    by (auto simp: scanUser_def wf_tables_def)
qed

lemma pgx_users_ClearLock_run:
  assumes "single_node (store w)" and "run_state (pgx_users_ClearLock L i) w = (re, w')"
  shows "single_node (store w') \<and> same_but_store w w' \<and>
    (upd_user i (\<lambda>u. u\<lparr>uFailedAttempts := 0, uLockedUntil := None\<rparr>)
       (users_view (store w)) (users_view (store w')) \<or>
     re \<noteq> None \<and> users_view (store w') = users_view (store w))"
proof -
  let ?f = "\<lambda>now r. r\<lparr>c_failed_attempts := 0, c_locked_until := None, c_updated_at := now\<rparr>"
  obtain r where r: "run_state (pg_write L (\<lambda>now. update_user_row i (?f now) now)) w = (r, w')"
    and re: "re = plain_exec r"
    using assms(2) unfolding pgx_users_ClearLock_def by (rule run_execE)
  show ?thesis
    using update_row_run [OF assms(1) r, of i ?f "\<lambda>u. u\<lparr>uFailedAttempts := 0, uLockedUntil := None\<rparr>"] re
    by (auto simp: scanUser_def wf_tables_def)
qed

lemma pgx_users_SetTOTP_run:
  assumes "single_node (store w)" and "run_state (pgx_users_SetTOTP L i secret b) w = (re, w')"
  shows "single_node (store w') \<and> same_but_store w w' \<and>
    (upd_user i (\<lambda>u. u\<lparr>uTOTPSecret := Some secret, uTOTPEnabled := b\<rparr>)
       (users_view (store w)) (users_view (store w')) \<or>
     re \<noteq> None \<and> users_view (store w') = users_view (store w))"
proof -
  let ?f = "\<lambda>now r. r\<lparr>c_totp_secret := Some secret, c_totp_enabled := b, c_updated_at := now\<rparr>"
  obtain r where r: "run_state (pg_write L (\<lambda>now. update_user_row i (?f now) now)) w = (r, w')"
    and re: "re = plain_exec r"
    using assms(2) unfolding pgx_users_SetTOTP_def by (rule run_execE)
  show ?thesis
    using update_row_run [OF assms(1) r, of i ?f "\<lambda>u. u\<lparr>uTOTPSecret := Some secret, uTOTPEnabled := b\<rparr>"] re
    by (auto simp: scanUser_def wf_tables_def)
qed

lemma pgx_users_Deactivate_run:
  assumes "single_node (store w)" and "run_state (pgx_users_Deactivate L i) w = (re, w')"
  shows "single_node (store w') \<and> same_but_store w w' \<and>
    (upd_user i (\<lambda>u. u\<lparr>uIsActive := False\<rparr>) (users_view (store w)) (users_view (store w')) \<or>
     re \<noteq> None \<and> users_view (store w') = users_view (store w)) \<and>
    (re = None \<longrightarrow> users_view (store w) i \<noteq> None)"
proof -
  let ?f = "\<lambda>now r. r\<lparr>c_is_active := False, c_updated_at := now\<rparr>"
  obtain r where r: "run_state (pg_write L (\<lambda>now. update_user_row i (?f now) now)) w = (r, w')"
    and re: "re = checked_exec ''deactivate user'' r"
    using assms(2) unfolding pgx_users_Deactivate_def by (rule run_execE)
  show ?thesis
    using update_row_run [OF assms(1) r, of i ?f "\<lambda>u. u\<lparr>uIsActive := False\<rparr>"] re
    by (auto simp: scanUser_def wf_tables_def)
qed

lemma pgx_users_Update_run:
  assumes good: "single_node (store w)" and run: "run_state (pgx_users_Update L i p) w = (r, w')"
  shows "single_node (store w') \<and> same_but_store w w' \<and>
    (upd_user i (apply_update p) (users_view (store w)) (users_view (store w')) \<or>
     users_view (store w') = users_view (store w)) \<and>
    (case r of
       Inr u \<Rightarrow> users_view (store w') i = Some u \<and>
         (\<exists>v. users_view (store w) i = Some v \<and> u\<lparr>uUpdatedAt := 0\<rparr> = (apply_update p v)\<lparr>uUpdatedAt := 0\<rparr>)
     | Inl e \<Rightarrow> errors_Is e (Sentinel ErrNotFound) \<longrightarrow> users_view (store w) i = None)"
proof (cases "uuName p = None \<and> uuRole p = None")
  case True
  then have "apply_update p v = v" for v by (simp add: apply_update_def)
  with True good run show ?thesis
    by (auto simp: pgx_users_Update_def pgx_users_FindByID_run same_but_store_def
        split: fault.splits option.splits)
next
  case False
  let ?w = "w\<lparr>ticks := Suc (ticks w)\<rparr>" and ?at = "pg_time L (now_at L (ticks w))"
  let ?f = "\<lambda>role r. r\<lparr>c_name := (case uuName p of None \<Rightarrow> c_name r | Some n \<Rightarrow> TrimSpace n),
     c_role := (case role of None \<Rightarrow> c_role r | Some x \<Rightarrow> x), c_updated_at := ?at\<rparr>"
  let ?st = "\<lambda>now uid t. case (case uuRole p of None \<Rightarrow> Inr None | Some s \<Rightarrow> map_sum (\<lambda>e. e) Some (role_arg s)) of
      Inl e \<Rightarrow> Inl e
    | Inr role \<Rightarrow>
        let t' = update_users (\<lambda>r. c_id r = i) (?f role) t
        in Inr (first_row (filter (\<lambda>r. c_id r = i) (users t')), t')"
  obtain r0 where r0: "run_state (pg_write L ?st) ?w = (r0, w')"
    and r: "r = (case r0 of
            Inl err \<Rightarrow> Inl (Wrapped ''update user'' err)
          | Inr (Inl err) \<Rightarrow>
              if errors_Is err NoRows then Inl (Sentinel ErrNotFound) else Inl (Wrapped ''update user'' err)
          | Inr (Inr row) \<Rightarrow> Inr (scanUser row))"
    using run False unfolding pgx_users_Update_def by (auto split: prod.splits)
  have good': "single_node (store ?w)" using good by simp
  from r0 show ?thesis
  proof (cases rule: pg_write_cases)
    case (unchanged e)
    then have "\<exists>m. e = Plain m"
      by (auto simp: role_arg_def Let_def split: sum.splits option.splits)
    with unchanged good r same_but_store_Suc [OF unchanged(3)] show ?thesis by auto
  next
    case (written row t)
    then obtain role where role:
        "(case uuRole p of None \<Rightarrow> Inr None | Some s \<Rightarrow> map_sum (\<lambda>e. e) Some (role_arg s)) = Inr role"
      and t0: "t = update_users (\<lambda>r. c_id r = i) (?f role) (primary (store w))"
      and row: "row = first_row (filter (\<lambda>r. c_id r = i) (users t))"
      by (auto simp: Let_def split: sum.splits)
    define f :: "users_row \<Rightarrow> users_row" where "f = ?f role"
    have t: "t = update_users (\<lambda>r. c_id r = i) f (primary (store w))"
      and ids: "c_id (f x) = c_id x" "c_email (f x) = c_email x" "c_failed_attempts (f x) = c_failed_attempts x" for x
      by (simp_all add: t0 f_def)
    have scan: "scanUser (f x) = (apply_update p (scanUser x))\<lparr>uUpdatedAt := ?at\<rparr>" for x
      using role by (auto simp: f_def scanUser_def apply_update_def role_arg_def enum_in_Some
          split: option.splits)
    have st': "store w' = (store w)\<lparr>primary := t\<rparr>" using written(2) by simp
    have "wf_tables t"
      unfolding t using good
      by (intro wf_update_row) (auto simp: ids single_node_def wf_tables_def)
    then have wf: "single_node (store w')"
      using good unfolding st' by (simp add: single_node_def)
    have upd: "upd_user i (apply_update p) (users_view (store w)) (users_view (store w'))"
      unfolding st' t by (rule users_view_update [OF ids(1) scan])
    have found: "find (\<lambda>x. c_id x = i) (users t) = map_option f (find (\<lambda>x. c_id x = i) (users (primary (store w))))"
      unfolding t update_users_def by (simp add: find_update_where ids)
    have view': "users_view (store w') i = map_option scanUser (find (\<lambda>x. c_id x = i) (users t))"
      unfolding st' by (simp add: users_view_def)
    show ?thesis
    proof (cases "find (\<lambda>x. c_id x = i) (users (primary (store w)))")
      case None
      then have "row = Inl NoRows" using row found by (simp add: first_row_filter)
      with None wf upd same_but_store_Suc [OF written(3)] written(4) r show ?thesis by (auto simp: users_view_def)
    next
      case (Some x)
      then have "row = Inr (f x)" using row found by (simp add: first_row_filter)
      with Some wf upd same_but_store_Suc [OF written(3)] written(4) r view' found scan show ?thesis
        by (auto simp: users_view_def [of "store w"])
    qed
  qed
qed

lemma pgx_users_contract:
  "user_repository (NewUserRepository L) users_view single_node (norm_email (unicode_lower L)) (pg_time L)"
proof (unfold_locales, goal_cases)
  case (1 d i u)
  then show ?case by (auto simp: users_view_Some)
next
  case (2 d i u j v)
  then obtain r s where "r \<in> set (users (primary d))" "s \<in> set (users (primary d))"
      "c_id r = i" "c_id s = j" "c_email r = c_email s"
    by (auto simp: users_view_Some)
  with wf_users(2) [OF 2(1)] show ?case by (auto simp: distinct_map dest: inj_onD)
next
  case (3 d)
  then have "dom (users_view d) \<subseteq> c_id ` set (users (primary d))"
    by (auto simp: dom_def users_view_Some)
  then show ?case by (rule finite_subset) simp
next
  case (4 w i r w')
  then show ?case by (auto simp: pgx_users_FindByID_run split: fault.splits option.splits)
next
  case (5 w email r w')
  show ?case
  proof (cases "find (\<lambda>r. c_email r = norm_email (unicode_lower L) email) (users (primary (store w)))")
    case None
    then have "users_view (store w) i = Some u \<Longrightarrow> uEmail u \<noteq> norm_email (unicode_lower L) email" for i u
      using 5(1) by (auto simp: users_view_Some find_None_set)
    with None 5 show ?thesis
      by (auto simp: pgx_users_FindByEmail_run split: fault.splits)
  next
    case (Some x)
    then have "x \<in> set (users (primary (store w)))" "c_email x = norm_email (unicode_lower L) email"
      by (auto simp: find_Some_iff)
    with Some 5 show ?thesis
      by (auto simp: pgx_users_FindByEmail_run users_view_Some split: fault.splits)
  qed
next
  case (6 w lp rl w')
  then have run: "run_state (pgx_users_List L lp) w = (rl, w')" by simp
  note L = pgx_users_List_run [OF 6(1) run]
  show ?case
  proof (cases rl)
    case (Inl e)
    with L 6(1) show ?thesis by simp
  next
    case (Inr x)
    obtain us n where x: "x = (us, n)" by (cases x)
    with Inr L obtain f rows where "us = map scanUser rows"
        "limit_offset (luParams lp) (sort_key (\<lambda>r. (- c_created_at r, tie_at L (Suc (ticks w)) (c_id r)))
           (filter f (users (primary (store w))))) = Inr rows"
      by blast
    then have us: "set us \<subseteq> scanUser ` set (users (primary (store w)))"
      using limit_offset_set by fastforce
    have "users_view (store w) (uID u) = Some u" if "u \<in> set us" for u
    proof -
      from that us obtain r where "r \<in> set (users (primary (store w)))" "u = scanUser r" by blast
      with 6(1) show ?thesis by (auto simp: users_view_Some)
    qed
    with L Inr x 6(1) show ?thesis by simp
  qed
next
  case (7 w rc w')
  then show ?case by (auto simp: pgx_users_Count_run split: fault.splits)
next
  case (8 w cp r w')
  then show ?case using pgx_users_Create_run by simp
next
  case (9 w i up r w')
  then show ?case using pgx_users_Update_run by simp
next
  case (10 w i h re w')
  then show ?case using pgx_users_UpdatePassword_run by simp
next
  case (11 w i re w')
  then show ?case using pgx_users_IncrFailedAttempts_run by simp
next
  case (12 w i until re w')
  then show ?case using pgx_users_LockUntil_run by simp
next
  case (13 w i re w')
  then show ?case using pgx_users_ClearLock_run by simp
next
  case (14 w i secret b re w')
  then show ?case using pgx_users_SetTOTP_run by simp
next
  case (15 w i re w')
  then show ?case using pgx_users_Deactivate_run by simp
qed

interpretation pg: user_repository "NewUserRepository L" users_view single_node
    "norm_email (unicode_lower L)" "pg_time L" for L
  by (rule pgx_users_contract)

section \<open>A connection without faults\<close>

abbreviation healthy :: "outside \<Rightarrow> outside" where
  "healthy L \<equiv> L\<lparr>sql_fault := (\<lambda>_. Healthy)\<rparr>"

lemma update_user_row_Inr: "update_user_row i f now uid t = Inr (rows_affected (\<lambda>r. c_id r = i) (users t), update_users (\<lambda>r. c_id r = i) f t)"
  by (simp add: update_user_row_def)

interpretation pgh: reliable_user_repository "NewUserRepository (healthy L)" users_view single_node
    "norm_email (unicode_lower L)" "pg_time L" for L
proof -
  have "user_repository (NewUserRepository (healthy L)) users_view single_node
      (norm_email (unicode_lower L)) (pg_time L)"
    using pgx_users_contract [of "healthy L"] by simp
  then show "reliable_user_repository (NewUserRepository (healthy L)) users_view single_node
      (norm_email (unicode_lower L)) (pg_time L)"
  proof (rule reliable_user_repository.intro)
    show "reliable_user_repository_axioms (NewUserRepository (healthy L)) users_view single_node
        (norm_email (unicode_lower L))"
    proof (unfold_locales, goal_cases)
      case (1 w i)
      then show ?case by (simp add: pgx_users_FindByID_run)
    next
      case (2 w i u email)
      then obtain x where x: "x \<in> set (users (primary (store w)))" "u = scanUser x"
          "c_email x = norm_email (unicode_lower L) email"
        by (auto simp: users_view_Some)
      then have "find (\<lambda>r. c_email r = norm_email (unicode_lower L) email) (users (primary (store w))) = Some x"
        using find_distinct [OF wf_users(2) [OF 2(1)]] by blast
      with 2(1) x(2) show ?case by (simp add: pgx_users_FindByEmail_run)
    next
      case (3 w email)
      then have "find (\<lambda>r. c_email r = norm_email (unicode_lower L) email) (users (primary (store w))) = None"
        unfolding find_None_set using users_view_Some [OF 3(1)] by (metis scanUser_sel(2))
      with 3(1) show ?case by (simp add: pgx_users_FindByEmail_run)
    next
      case (4 w i u)
      then obtain x where x: "x \<in> set (users (primary (store w)))" "c_id x = i" "u = scanUser x"
        by (auto simp: users_view_Some)
      have "r = x" if "r \<in> set (users (primary (store w)))" "c_id r = i" for r
        using wf_users(1) [OF 4(1)] that x(1,2) by (metis distinct_map inj_onD)
      then have "\<not> (\<exists>r \<in> set (users (primary (store w))). c_id r = i \<and> 2 ^ 31 \<le> c_failed_attempts r + 1)"
        using 4(3) x(3) by force
      then show ?case
        by (simp add: pgx_users_IncrFailedAttempts_def run_pg_write_healthy update_user_row_Inr)
    next
      case (5 w i until)
      then show ?case by (simp add: pgx_users_LockUntil_def run_pg_write_healthy update_user_row_Inr)
    next
      case (6 w i)
      then show ?case by (simp add: pgx_users_ClearLock_def run_pg_write_healthy update_user_row_Inr)
    next
      case (7 w i secret b)
      then show ?case by (simp add: pgx_users_SetTOTP_def run_pg_write_healthy update_user_row_Inr)
    next
      case (8 w i h)
      then show ?case
        by (simp add: pgx_users_UpdatePassword_def run_pg_write_healthy update_user_row_Inr
            rows_affected_find users_view_def)
    next
      case (9 w i)
      then show ?case
        by (simp add: pgx_users_Deactivate_def run_pg_write_healthy update_user_row_Inr
            rows_affected_find users_view_def)
    next
      case (10 w)
      then show ?case by (simp add: pgx_users_Count_run)
    qed
  qed
qed

text \<open>A list with a negative offset fails in its second query, if not before.\<close>

lemma List_negative_offset:
  assumes "sint (Offset (luParams lp)) < 0" "0 \<le> sint (PageSize (luParams lp))"
  shows "\<exists>e. fst (run_state (pgx_users_List L lp) w) = Inl e"
    and "luRole lp = None \<Longrightarrow> fst (run_state (pgx_users_List (healthy L) lp) w) =
      Inl (Wrapped ''list users'' (Plain ''OFFSET must not be negative''))"
proof -
  have fails: "limit_offset (luParams lp) xs = Inl (Plain ''OFFSET must not be negative'')" for xs :: "users_row list"
    using assms by (simp add: limit_offset_def)
  show "\<exists>e. fst (run_state (pgx_users_List L lp) w) = Inl e"
    by (auto simp: pgx_users_List_def pg_read_def fails split: sum.splits prod.splits fault.splits)
  show "luRole lp = None \<Longrightarrow> fst (run_state (pgx_users_List (healthy L) lp) w) =
      Inl (Wrapped ''list users'' (Plain ''OFFSET must not be negative''))"
    by (simp add: pgx_users_List_def pg_read_def fails users_where_def Let_def split: prod.split)
qed

section \<open>Properties\<close>

text \<open>C37: the offset of a parsed page is (page - 1) * page_size on 64 bits: it is that product when the product
  is below 2^63, and negative when the product is between 2^63 and 2^64. A page written with decimal digits
  whose value is 2^63 or more counts as 2^63 - 1, whose offset is minus twice the page size when the page size
  is even, and 2^63 minus twice the page size otherwise. Nothing stops a negative offset before the database:
  listing the users with it is an error, and on a database that answers (with no role filter) it is the error
  of the negative OFFSET.\<close>

theorem Offset_wraps:
  "let p = ParseParams q; k = (sint (Page p) - 1) * sint (PageSize p) in
     sint (Offset p) = (k + 2 ^ 63) mod 2 ^ 64 - 2 ^ 63 \<and>
     (sint (Offset p) = k \<longleftrightarrow> k < 2 ^ 63) \<and>
     (2 ^ 63 \<le> k \<and> k < 2 ^ 64 \<longrightarrow> sint (Offset p) = k - 2 ^ 64 \<and> sint (Offset p) < 0) \<and>
     (q ''page'' = Some s \<and> s \<noteq> [] \<and> list_all is_digit s \<and> 2 ^ 63 \<le> dec_value s \<longrightarrow>
        sint (Page p) = 2 ^ 63 - 1 \<and>
        sint (Offset p) = (if even (sint (PageSize p)) then - (2 * sint (PageSize p))
                           else 2 ^ 63 - 2 * sint (PageSize p))) \<and>
     (sint (Offset p) < 0 \<and> luParams lp = p \<longrightarrow>
        (\<exists>e. fst (run_state (pgx_users_List L lp) w) = Inl e) \<and>
        (luRole lp = None \<longrightarrow> fst (run_state (pgx_users_List (healthy L) lp) w) =
           Inl (Wrapped ''list users'' (Plain ''OFFSET must not be negative''))))"
proof -
  let ?p = "ParseParams q" and ?s = "sint (PageSize (ParseParams q))"
  let ?k = "(sint (Page ?p) - 1) * ?s"
  note page = Page_ParseParams [of q] and size = PageSize_ParseParams [of q]
  have pos: "0 \<le> ?k" using page size by simp
  have small: "sint (Offset ?p) = ?k \<longleftrightarrow> ?k < 2 ^ 63"
    using Offset_exact [OF page] size sint_int64_bounds(2) [of "Offset ?p"] by auto
  have wraps: "2 ^ 63 \<le> ?k \<Longrightarrow> ?k < 2 ^ 64 \<Longrightarrow> sint (Offset ?p) = ?k - 2 ^ 64"
    using Offset_negative [OF page] by blast
  have large: "sint (Page ?p) = 2 ^ 63 - 1"
    if "q ''page'' = Some s \<and> s \<noteq> [] \<and> list_all is_digit s \<and> 2 ^ 63 \<le> dec_value s"
    using that by (simp add: ParseParams_sel DefaultQuery_def Let_def Atoi_int_digits min_def)
  have list: "sint (Offset ?p) < 0 \<and> luParams lp = ?p \<Longrightarrow> sint (Offset (luParams lp)) < 0 \<and> 0 \<le> sint (PageSize (luParams lp))"
    using size by simp
  show ?thesis
    unfolding Let_def
  proof (intro conjI impI)
    show "sint (Offset ?p) = (?k + 2 ^ 63) mod 2 ^ 64 - 2 ^ 63" using sint_Offset [OF page] .
    show "sint (Offset ?p) = ?k \<longleftrightarrow> ?k < 2 ^ 63" by (rule small)
  qed (use wraps large Offset_largest_page [OF large size] list List_negative_offset [of lp] in \<open>blast | force\<close>)+
qed

theorem Offset_wraps_witness:
  "sint (Offset (ParseParams [''page'' \<mapsto> ''99999999999999999999''])) = - 40 \<and>
   (\<forall>(L :: outside) (w :: DB world). \<exists>e. fst (run_state (pgx_users_List L
      \<lparr>luRole = None, luSearch = None, luParams = ParseParams [''page'' \<mapsto> ''99999999999999999999'']\<rparr>) w) = Inl e)"
proof -
  let ?s = "''99999999999999999999''" and ?q = "[''page'' \<mapsto> ''99999999999999999999'']"
  have large: "list_all is_digit ?s" "2 ^ 63 \<le> dec_value ?s"
    by (simp_all add: is_digit_def dec_value_def digit_val_def)
  have size: "sint (PageSize (ParseParams ?q)) = 20"
    by (simp add: ParseParams_sel DefaultQuery_def Let_def Itoa_def dec_digits.simps digit_char_def Atoi_int_def
        is_digit_def digit_val_def)
  have "sint (Offset (ParseParams ?q)) = - 40"
    using Offset_wraps [of ?q ?s] large size by (simp add: Let_def)
  moreover from this have "\<exists>e. fst (run_state (pgx_users_List L
      \<lparr>luRole = None, luSearch = None, luParams = ParseParams ?q\<rparr>) w) = Inl e" for L w
    using Offset_wraps [of ?q ?s "\<lparr>luRole = None, luSearch = None, luParams = ParseParams ?q\<rparr>" L w]
    by (simp add: Let_def)
  ultimately show ?thesis by blast
qed

end
