(* ===== verification/ResetRepo.thy ===== *)
theory ResetRepo
  imports UserRepo
begin

text \<open>
  \<open>internal/repository/implementation/password_reset.go\<close>: the PostgreSQL password-reset repository,
  and the interpretation of the contracts \<open>reset_repository\<close> and \<open>auth_stores\<close> on it together with
  the user repository.
\<close>

section \<open>The methods\<close>

definition scanPasswordReset :: "resets_row \<Rightarrow> PasswordReset" where
  "scanPasswordReset r =
     \<lparr>prID = r_id r, prUserID = r_user_id r, prOTPHash = r_otp_hash r, prToken = r_token r,
      prExpiresAt = r_expires_at r, prUsedAt = r_used_at r, prCreatedAt = r_created_at r\<rparr>"

definition insert_reset :: "uuid \<Rightarrow> string \<Rightarrow> time \<Rightarrow> resets_row stmt" where
  "insert_reset user_id otp_hash expires_at now uid t =
     (if user_id \<notin> c_id ` set (users t)
      then Inl (Plain ''insert violates foreign key constraint password_resets_user_id_fkey'')
      else if uid \<in> r_id ` set (password_resets t)
      then Inl (Plain ''duplicate key value violates password_resets_pkey'')
      else
        let row = \<lparr>r_id = uid, r_user_id = user_id, r_otp_hash = otp_hash, r_token = None,
                   r_expires_at = expires_at, r_used_at = None, r_created_at = now\<rparr>
        in Inr (row, t\<lparr>password_resets := password_resets t @ [row]\<rparr>))"

definition delete_resets :: "(time \<Rightarrow> resets_row \<Rightarrow> bool) \<Rightarrow> nat stmt" where
  "delete_resets p now uid t =
     Inr (rows_affected (p now) (password_resets t),
          t\<lparr>password_resets := filter (\<lambda>r. \<not> p now r) (password_resets t)\<rparr>)"

definition update_resets :: "(resets_row \<Rightarrow> bool) \<Rightarrow> (resets_row \<Rightarrow> resets_row) \<Rightarrow> nat stmt" where
  "update_resets p f now uid t =
     Inr (rows_affected p (password_resets t),
          t\<lparr>password_resets := update_where p f (password_resets t)\<rparr>)"

definition pgx_resets_Create ::
    "outside \<Rightarrow> CreatePasswordResetParams \<Rightarrow> (DB world, goerr + PasswordReset) state" where
  "pgx_resets_Create L p = do {
     _ \<leftarrow> pg_write L (delete_resets (\<lambda>now r. r_user_id r = cpUserID p));
     row \<leftarrow> pg_write L (insert_reset (cpUserID p) (cpOTPHash p) (pg_time L (cpExpiresAt p)));
     ret (map_sum (\<lambda>e. e) scanPasswordReset row)
   }"

definition pending_resets :: "outside \<Rightarrow> nat \<Rightarrow> uuid \<Rightarrow> tables \<Rightarrow> resets_row list" where
  "pending_resets L n user_id t =
     take 1 (sort_key (\<lambda>r. (- r_created_at r, tie_at L n (r_id r)))
       (filter (\<lambda>r. r_user_id r = user_id \<and> r_used_at r = None) (password_resets t)))"

definition pgx_resets_FindByUserID :: "outside \<Rightarrow> uuid \<Rightarrow> (DB world, goerr + PasswordReset) state" where
  "pgx_resets_FindByUserID L user_id = do {
     r \<leftarrow> pg_read L (\<lambda>n t. first_row (pending_resets L n user_id t));
     ret (case map_sum (\<lambda>e. e) scanPasswordReset r of
            Inl err \<Rightarrow> if errors_Is err NoRows then Inl (Sentinel ErrNotFound)
                       else Inl (Wrapped ''find password reset by user'' err)
          | Inr pr \<Rightarrow> Inr pr)
   }"

definition pgx_resets_SetToken :: "outside \<Rightarrow> uuid \<Rightarrow> string \<Rightarrow> (DB world, goerr option) state" where
  "pgx_resets_SetToken L i token = do {
     r \<leftarrow> pg_write L (update_resets (\<lambda>r. r_id r = i) (\<lambda>r. r\<lparr>r_token := Some token\<rparr>));
     ret (checked_exec ''set reset token'' r)
   }"

definition pgx_resets_Consume :: "outside \<Rightarrow> uuid \<Rightarrow> (DB world, goerr option) state" where
  "pgx_resets_Consume L i = do {
     r \<leftarrow> pg_write L (\<lambda>now. update_resets (\<lambda>r. r_id r = i \<and> r_used_at r = None)
            (\<lambda>r. r\<lparr>r_used_at := Some now\<rparr>) now);
     ret (checked_exec ''consume password reset'' r)
   }"

definition pgx_resets_DeleteExpired :: "outside \<Rightarrow> (DB world, goerr option) state" where
  "pgx_resets_DeleteExpired L = do {
     r \<leftarrow> pg_write L (delete_resets (\<lambda>now r. r_expires_at r < now));
     ret (case r of Inl err \<Rightarrow> Some (Wrapped ''delete expired resets'' err) | Inr _ \<Rightarrow> None)
   }"

definition NewPasswordResetRepository :: "outside \<Rightarrow> DB IPasswordResetRepository" where
  "NewPasswordResetRepository L =
     \<lparr>resets_Create = pgx_resets_Create L,
      resets_FindByUserID = pgx_resets_FindByUserID L,
      resets_SetToken = pgx_resets_SetToken L,
      resets_Consume = pgx_resets_Consume L,
      resets_DeleteExpired = pgx_resets_DeleteExpired L\<rparr>"

lemma NewPasswordResetRepository_simps [simp]:
  "resets_Create (NewPasswordResetRepository L) = pgx_resets_Create L"
  "resets_FindByUserID (NewPasswordResetRepository L) = pgx_resets_FindByUserID L"
  "resets_SetToken (NewPasswordResetRepository L) = pgx_resets_SetToken L"
  "resets_Consume (NewPasswordResetRepository L) = pgx_resets_Consume L"
  "resets_DeleteExpired (NewPasswordResetRepository L) = pgx_resets_DeleteExpired L"
  by (simp_all add: NewPasswordResetRepository_def)

section \<open>The resets of a store\<close>

definition resets_view :: "DB \<Rightarrow> uuid \<rightharpoonup> PasswordReset" where
  "resets_view d i = map_option scanPasswordReset (find (\<lambda>r. r_id r = i) (password_resets (primary d)))"

lemma scanPasswordReset_sel [simp]:
  "prID (scanPasswordReset r) = r_id r" "prUserID (scanPasswordReset r) = r_user_id r"
  "prOTPHash (scanPasswordReset r) = r_otp_hash r" "prToken (scanPasswordReset r) = r_token r"
  "prExpiresAt (scanPasswordReset r) = r_expires_at r" "prUsedAt (scanPasswordReset r) = r_used_at r"
  "prCreatedAt (scanPasswordReset r) = r_created_at r"
  by (simp_all add: scanPasswordReset_def)

lemma wf_resets: "single_node d \<Longrightarrow> distinct (map r_id (password_resets (primary d)))"
  by (simp add: single_node_def wf_tables_def)

lemma resets_view_Some:
  "single_node d \<Longrightarrow> resets_view d i = Some p \<longleftrightarrow>
     (\<exists>r \<in> set (password_resets (primary d)). r_id r = i \<and> p = scanPasswordReset r)"
  by (auto simp: resets_view_def find_distinct [OF wf_resets])

lemma users_view_resets [simp]:
  "users_view (d\<lparr>primary := (primary d)\<lparr>password_resets := rs\<rparr>\<rparr>) = users_view d"
  by (simp add: users_view_def fun_eq_iff)

lemma wf_resets_filter: "wf_tables t \<Longrightarrow> wf_tables (t\<lparr>password_resets := filter P (password_resets t)\<rparr>)"
  by (auto simp: wf_tables_def distinct_map_filter)

lemma wf_resets_update:
  assumes "wf_tables t" "\<And>r. r_id (f r) = r_id r" "\<And>r. r_user_id (f r) = r_user_id r"
  shows "wf_tables (t\<lparr>password_resets := update_where P f (password_resets t)\<rparr>)"
proof -
  have ids: "map r_id (update_where P f (password_resets t)) = map r_id (password_resets t)"
    and us: "map r_user_id (update_where P f (password_resets t)) = map r_user_id (password_resets t)"
    by (rule map_update_where, simp add: assms(2,3))+
  from us have "r_user_id ` set (update_where P f (password_resets t)) = r_user_id ` set (password_resets t)"
    by (metis set_map)
  with ids assms(1) show ?thesis by (simp add: wf_tables_def)
qed

lemma resets_view_filter:
  assumes "single_node d"
  shows "resets_view (d\<lparr>primary := (primary d)\<lparr>password_resets := filter (\<lambda>r. P (scanPasswordReset r)) (password_resets (primary d))\<rparr>\<rparr>) =
    (\<lambda>i. case resets_view d i of None \<Rightarrow> None | Some p \<Rightarrow> if P p then Some p else None)"
proof
  fix i
  let ?d = "d\<lparr>primary := (primary d)\<lparr>password_resets := filter (\<lambda>r. P (scanPasswordReset r)) (password_resets (primary d))\<rparr>\<rparr>"
  have good: "single_node ?d"
    using assms by (simp add: single_node_def wf_resets_filter)
  have "resets_view ?d i = Some p \<longleftrightarrow> resets_view d i = Some p \<and> P p" for p
    by (auto simp: resets_view_Some [OF assms] resets_view_Some [OF good])
  then show "resets_view ?d i = (case resets_view d i of None \<Rightarrow> None | Some p \<Rightarrow> if P p then Some p else None)"
    by (intro option_eqI) (auto split: option.split)
qed

lemma resets_view_update:
  assumes "\<And>r. r_id (f r) = r_id r" and "\<And>r. scanPasswordReset (f r) = g (scanPasswordReset r)"
    and "single_node d"
  shows "resets_view (d\<lparr>primary := (primary d)\<lparr>password_resets :=
      update_where (\<lambda>r. r_id r = i \<and> P (scanPasswordReset r)) f (password_resets (primary d))\<rparr>\<rparr>) =
    (case resets_view d i of None \<Rightarrow> resets_view d
     | Some p \<Rightarrow> if P p then (resets_view d)(i \<mapsto> g p) else resets_view d)"
proof -
  let ?rs = "password_resets (primary d)"
  have u: "find (\<lambda>x. r_id x = j) (update_where (\<lambda>r. r_id r = i \<and> P (scanPasswordReset r)) f xs) =
      (case find (\<lambda>x. r_id x = j) xs of None \<Rightarrow> None
       | Some x \<Rightarrow> Some (if j = i \<and> P (scanPasswordReset x) then f x else x))" for j xs
    by (induction xs) (auto simp: assms(1))
  show ?thesis
    by (rule ext)
      (auto simp: resets_view_def u assms(2) split: option.splits)
qed


section \<open>Runs of the statements\<close>

text \<open>What every write to this table keeps: the constraints, the log, the users.\<close>

definition reset_frame :: "DB world \<Rightarrow> DB world \<Rightarrow> bool" where
  "reset_frame w w' \<longleftrightarrow>
     single_node (store w') \<and> same_but_store w w' \<and> users_view (store w') = users_view (store w)"

lemma reset_frame_trans: "reset_frame w w' \<Longrightarrow> reset_frame w' w'' \<Longrightarrow> reset_frame w w''"
  by (auto simp: reset_frame_def same_but_store_def)

lemma delete_resets_run:
  assumes good: "single_node (store w)"
    and run: "run_state (pg_write L (delete_resets (\<lambda>now r. Q now (scanPasswordReset r)))) w = (r, w')"
  shows "reset_frame w w' \<and>
    (((\<exists>e. r = Inl e) \<and> resets_view (store w') = resets_view (store w)) \<or>
     resets_view (store w') =
       (\<lambda>i. case resets_view (store w) i of None \<Rightarrow> None
        | Some p \<Rightarrow> if Q (pg_time L (now_at L (ticks w))) p then None else Some p))"
  using run
proof (cases rule: pg_write_cases)
  case (unchanged e)
  with good show ?thesis by (simp add: reset_frame_def)
next
  case (written a t)
  let ?now = "pg_time L (now_at L (ticks w))"
  have t: "t = (primary (store w))\<lparr>password_resets :=
      filter (\<lambda>r. \<not> Q ?now (scanPasswordReset r)) (password_resets (primary (store w)))\<rparr>"
    using written(1) by (simp add: delete_resets_def)
  have view: "resets_view (store w') =
      (\<lambda>i. case resets_view (store w) i of None \<Rightarrow> None | Some p \<Rightarrow> if \<not> Q ?now p then Some p else None)"
    unfolding written(2) t by (rule resets_view_filter [OF good])
  have "single_node (store w')"
    using good unfolding written(2) t by (simp add: single_node_def wf_resets_filter)
  moreover have "users_view (store w') = users_view (store w)"
    unfolding written(2) t by simp
  ultimately show ?thesis
    unfolding view using written(3) by (auto simp: reset_frame_def split: option.split)
qed

lemma update_resets_run:
  assumes good: "single_node (store w)"
    and run: "run_state (pg_write L (\<lambda>now. update_resets (\<lambda>r. r_id r = i \<and> P (scanPasswordReset r)) (f now) now)) w = (r, w')"
    and ids: "\<And>now r. r_id (f now r) = r_id r" "\<And>now r. r_user_id (f now r) = r_user_id r"
    and scan: "\<And>now r. scanPasswordReset (f now r) = g now (scanPasswordReset r)"
  shows "reset_frame w w' \<and>
    ((\<exists>e. r = Inl e \<and> \<not> errors_Is e (Sentinel ErrNotFound)) \<and> resets_view (store w') = resets_view (store w) \<or>
     r = Inr 0 \<and> resets_view (store w') = resets_view (store w) \<or>
     (\<exists>p. resets_view (store w) i = Some p \<and> P p \<and> r \<noteq> Inr 0 \<and>
        resets_view (store w') = (resets_view (store w))(i \<mapsto> g (pg_time L (now_at L (ticks w))) p)))"
  using run
proof (cases rule: pg_write_cases)
  case (unchanged e)
  with good show ?thesis by (auto simp: reset_frame_def update_resets_def)
next
  case (written n t)
  let ?now = "pg_time L (now_at L (ticks w))" and ?rs = "password_resets (primary (store w))"
  let ?p = "\<lambda>r. r_id r = i \<and> P (scanPasswordReset r)"
  have t: "t = (primary (store w))\<lparr>password_resets := update_where ?p (f ?now) ?rs\<rparr>"
    and n: "n = rows_affected ?p ?rs"
    using written(1) by (simp_all add: update_resets_def)
  have view: "resets_view (store w') = (case resets_view (store w) i of None \<Rightarrow> resets_view (store w)
     | Some p \<Rightarrow> if P p then (resets_view (store w))(i \<mapsto> g ?now p) else resets_view (store w))"
    unfolding written(2) t by (rule resets_view_update [OF ids(1) scan good])
  have frame: "reset_frame w w'"
    using good written(3) unfolding reset_frame_def written(2) t
    by (simp add: single_node_def wf_resets_update ids)
  have n0: "n = 0 \<longleftrightarrow> \<not> (\<exists>p. resets_view (store w) i = Some p \<and> P p)"
    unfolding n rows_affected_find find_None_set by (auto simp: resets_view_Some [OF good])
  show ?thesis
  proof (cases "n = 0")
    case True
    with n0 have "resets_view (store w') = resets_view (store w)"
      unfolding view by (auto split: option.split)
    with frame written(4) True show ?thesis by auto
  next
    case False
    with n0 obtain p where "resets_view (store w) i = Some p" "P p" by auto
    with frame written(4) False view show ?thesis by auto
  qed
qed

lemma insert_reset_run:
  assumes good: "single_node (store w)"
    and run: "run_state (pg_write L (insert_reset u h e)) w = (r, w')"
  shows "reset_frame w w' \<and>
    ((\<exists>e. r = Inl e) \<and> resets_view (store w') = resets_view (store w) \<or>
     (\<exists>row. r_user_id row = u \<and> r_otp_hash row = h \<and> r_token row = None \<and> r_expires_at row = e \<and>
        r_used_at row = None \<and> resets_view (store w) (r_id row) = None \<and>
        resets_view (store w') = (resets_view (store w))(r_id row \<mapsto> scanPasswordReset row) \<and>
        (\<forall>v. r = Inr v \<longrightarrow> v = row)))"
  using run
proof (cases rule: pg_write_cases)
  case (unchanged e)
  with good show ?thesis by (simp add: reset_frame_def)
next
  case (written row t)
  let ?t = "primary (store w)"
  have row: "t = ?t\<lparr>password_resets := password_resets ?t @ [row]\<rparr>" "u \<in> c_id ` set (users ?t)"
      "r_id row \<notin> r_id ` set (password_resets ?t)" "r_user_id row = u" "r_otp_hash row = h"
      "r_token row = None" "r_expires_at row = e" "r_used_at row = None"
    using written(1) by (auto simp: insert_reset_def Let_def split: if_splits)
  have none: "find (\<lambda>r. r_id r = r_id row) (password_resets ?t) = None"
    unfolding find_None_set using row(3) by (metis image_eqI)
  have "wf_tables t"
    using good row(2-4) unfolding row(1) by (auto simp: single_node_def wf_tables_def)
  then have frame: "reset_frame w w'"
    using good written(3) row(1) unfolding reset_frame_def written(2) by (simp add: single_node_def)
  have "resets_view (store w') = (resets_view (store w))(r_id row \<mapsto> scanPasswordReset row)"
    using none unfolding written(2) row(1)
    by (auto simp: resets_view_def find_append fun_eq_iff split: option.split)
  moreover have "resets_view (store w) (r_id row) = None"
    using none by (simp add: resets_view_def)
  ultimately show ?thesis
    using frame row(4-8) written(4) by blast
qed


section \<open>Runs of the methods\<close>

text \<open>\<open>Create\<close> whatever its two statements do.\<close>

lemma pgx_resets_Create_run:
  assumes good: "single_node (store w)" and run: "run_state (pgx_resets_Create L cp) w = (r, w')"
  shows "reset_frame w w' \<and>
    (\<exists>m. (m = resets_view (store w) \<and> sql_fault L (ticks w) \<noteq> Healthy \<or>
          m = drop_user (cpUserID cp) (resets_view (store w))) \<and>
       ((\<exists>e. r = Inl e) \<and> resets_view (store w') = m \<or>
        (\<exists>p. new_reset (pg_time L) cp p \<and> m (prID p) = None \<and> resets_view (store w') = m(prID p \<mapsto> p) \<and>
             (\<forall>v. r = Inr v \<longrightarrow> v = p))))"
proof -
  obtain d w1 r0 where d: "run_state (pg_write L (delete_resets (\<lambda>now r. r_user_id r = cpUserID cp))) w = (d, w1)"
    and i: "run_state (pg_write L (insert_reset (cpUserID cp) (cpOTPHash cp) (pg_time L (cpExpiresAt cp)))) w1 = (r0, w')"
    and r: "r = map_sum (\<lambda>e. e) scanPasswordReset r0"
    using run by (auto simp: pgx_resets_Create_def split: prod.splits)
  have "run_state (pg_write L (delete_resets (\<lambda>now r. prUserID (scanPasswordReset r) = cpUserID cp))) w = (d, w1)"
    using d by simp
  note del = delete_resets_run [OF good this]
  have drop: "drop_user (cpUserID cp) m =
      (\<lambda>i. case m i of None \<Rightarrow> None | Some p \<Rightarrow> if prUserID p = cpUserID cp then None else Some p)" for m
    by (simp add: drop_user_def)
  have healthy: "\<exists>n. d = Inr n" if "sql_fault L (ticks w) = Healthy"
    using d that by (auto simp: run_pg_write_healthy delete_resets_def)
  have m: "resets_view (store w1) = resets_view (store w) \<and> sql_fault L (ticks w) \<noteq> Healthy \<or>
      resets_view (store w1) = drop_user (cpUserID cp) (resets_view (store w))"
    using del healthy unfolding drop by auto
  have "single_node (store w1)" using del by (simp add: reset_frame_def)
  note ins = insert_reset_run [OF this i]
  have frame: "reset_frame w w'"
    using del ins reset_frame_trans by blast
  show ?thesis
  proof (cases "\<exists>row. r_user_id row = cpUserID cp \<and> r_otp_hash row = cpOTPHash cp \<and> r_token row = None \<and>
      r_expires_at row = pg_time L (cpExpiresAt cp) \<and> r_used_at row = None \<and>
      resets_view (store w1) (r_id row) = None \<and>
      resets_view (store w') = (resets_view (store w1))(r_id row \<mapsto> scanPasswordReset row) \<and>
      (\<forall>v. r0 = Inr v \<longrightarrow> v = row)")
    case True
    then obtain row where row: "r_user_id row = cpUserID cp" "r_otp_hash row = cpOTPHash cp"
      "r_token row = None" "r_expires_at row = pg_time L (cpExpiresAt cp)" "r_used_at row = None"
      "resets_view (store w1) (r_id row) = None"
      "resets_view (store w') = (resets_view (store w1))(r_id row \<mapsto> scanPasswordReset row)"
      "\<forall>v. r0 = Inr v \<longrightarrow> v = row"
      by blast
    have "new_reset (pg_time L) cp (scanPasswordReset row)"
      using row(1-5) by (simp add: new_reset_def)
    moreover have "\<forall>v. r = Inr v \<longrightarrow> v = scanPasswordReset row"
      using row(8) r by (cases r0) auto
    moreover have "prID (scanPasswordReset row) = r_id row" by simp
    ultimately show ?thesis
      using frame m row(6,7) by metis
  next
    case False
    with ins have "\<exists>e. r0 = Inl e" and same: "resets_view (store w') = resets_view (store w1)" by blast+
    then have "\<exists>e. r = Inl e" using r by auto
    with same frame m show ?thesis by metis
  qed
qed

lemma pgx_resets_FindByUserID_run:
  assumes good: "single_node (store w)" and run: "run_state (pgx_resets_FindByUserID L u) w = (r, w')"
  shows "w' = w\<lparr>ticks := Suc (ticks w)\<rparr> \<and>
    (case r of
       Inr p \<Rightarrow> resets_view (store w) (prID p) = Some p \<and> prUserID p = u \<and> prUsedAt p = None
     | Inl e \<Rightarrow> (errors_Is e (Sentinel ErrNotFound) \<or> sql_fault L (ticks w) = Healthy) \<longrightarrow>
         (\<forall>i p. resets_view (store w) i = Some p \<longrightarrow> prUserID p = u \<longrightarrow> prUsedAt p \<noteq> None))"
proof (cases "pending_resets L (ticks w) u (primary (store w))")
  case Nil
  then have "length (sort_key (\<lambda>r. (- r_created_at r, tie_at L (ticks w) (r_id r)))
      (filter (\<lambda>r. r_user_id r = u \<and> r_used_at r = None) (password_resets (primary (store w))))) = 0"
    by (simp add: pending_resets_def)
  then have "filter (\<lambda>r. r_user_id r = u \<and> r_used_at r = None) (password_resets (primary (store w))) = []"
    by (simp only: length_sort length_0_conv)
  then have "prUsedAt p \<noteq> None" if "resets_view (store w) i = Some p" "prUserID p = u" for i p
    using that by (auto simp: resets_view_Some [OF good] filter_empty_conv)
  with Nil run show ?thesis
    by (auto simp: pgx_resets_FindByUserID_def run_read_good [OF good] first_row_def split: fault.splits)
next
  case (Cons row rows)
  then have "row \<in> set (pending_resets L (ticks w) u (primary (store w)))" by simp
  then have row: "row \<in> set (password_resets (primary (store w)))" "r_user_id row = u" "r_used_at row = None"
    unfolding pending_resets_def by (auto dest: in_set_takeD)
  then have "resets_view (store w) (r_id row) = Some (scanPasswordReset row)"
    by (auto simp: resets_view_Some [OF good])
  with row Cons run show ?thesis
    by (auto simp: pgx_resets_FindByUserID_def run_read_good [OF good] first_row_def split: fault.splits)
qed

lemma pgx_resets_SetToken_run:
  assumes good: "single_node (store w)" and run: "run_state (pgx_resets_SetToken L i tok) w = (re, w')"
  shows "reset_frame w w' \<and>
    (re \<noteq> None \<and> resets_view (store w') = resets_view (store w) \<or>
     (\<exists>p. resets_view (store w) i = Some p \<and>
        resets_view (store w') = (resets_view (store w))(i \<mapsto> p\<lparr>prToken := Some tok\<rparr>)))"
proof -
  obtain r where r: "run_state (pg_write L (update_resets (\<lambda>r. r_id r = i) (\<lambda>r. r\<lparr>r_token := Some tok\<rparr>))) w = (r, w')"
    and re: "re = checked_exec ''set reset token'' r"
    using run unfolding pgx_resets_SetToken_def by (rule run_execE)
  have "run_state (pg_write L (\<lambda>now. update_resets (\<lambda>r. r_id r = i \<and> True) (\<lambda>r. r\<lparr>r_token := Some tok\<rparr>) now)) w = (r, w')"
    using r by simp
  from update_resets_run [OF good this, of "\<lambda>_ p. p\<lparr>prToken := Some tok\<rparr>"] re show ?thesis
    by (auto simp: scanPasswordReset_def checked_exec_def)
qed

lemma pgx_resets_Consume_run:
  assumes good: "single_node (store w)" and run: "run_state (pgx_resets_Consume L i) w = (re, w')"
  shows "reset_frame w w' \<and>
    (re \<noteq> None \<and> resets_view (store w') = resets_view (store w) \<or>
     (\<exists>p t. resets_view (store w) i = Some p \<and> prUsedAt p = None \<and>
        resets_view (store w') = (resets_view (store w))(i \<mapsto> p\<lparr>prUsedAt := Some t\<rparr>)))"
proof -
  obtain r where r: "run_state (pg_write L (\<lambda>now. update_resets (\<lambda>r. r_id r = i \<and> r_used_at r = None)
            (\<lambda>r. r\<lparr>r_used_at := Some now\<rparr>) now)) w = (r, w')"
    and re: "re = checked_exec ''consume password reset'' r"
    using run unfolding pgx_resets_Consume_def by (rule run_execE)
  have "run_state (pg_write L (\<lambda>now. update_resets (\<lambda>r. r_id r = i \<and> prUsedAt (scanPasswordReset r) = None)
            (\<lambda>r. r\<lparr>r_used_at := Some now\<rparr>) now)) w = (r, w')"
    using r by simp
  from update_resets_run [OF good this, of "\<lambda>now p. p\<lparr>prUsedAt := Some now\<rparr>"] re show ?thesis
    by (auto simp: scanPasswordReset_def checked_exec_def)
qed

lemma pgx_resets_DeleteExpired_run:
  assumes good: "single_node (store w)" and run: "run_state (pgx_resets_DeleteExpired L) w = (re, w')"
  shows "reset_frame w w' \<and>
    (re \<noteq> None \<and> resets_view (store w') = resets_view (store w) \<or>
     (\<exists>now. resets_view (store w') =
        (\<lambda>i. case resets_view (store w) i of None \<Rightarrow> None | Some p \<Rightarrow> if prExpiresAt p < now then None else Some p)))"
proof -
  obtain r where r: "run_state (pg_write L (delete_resets (\<lambda>now r. r_expires_at r < now))) w = (r, w')"
    and re: "re = (case r of Inl err \<Rightarrow> Some (Wrapped ''delete expired resets'' err) | Inr _ \<Rightarrow> None)"
    using run by (auto simp: pgx_resets_DeleteExpired_def split: prod.splits)
  have "run_state (pg_write L (delete_resets (\<lambda>now r. prExpiresAt (scanPasswordReset r) < now))) w = (r, w')"
    using r by simp
  note this = delete_resets_run [OF good this]
  with re show ?thesis by auto
qed

section \<open>The contracts hold\<close>

lemma pgx_resets_contract:
  "reset_repository (NewPasswordResetRepository L) resets_view single_node (pg_time L)"
proof (unfold_locales, goal_cases)
  case (1 d i p)
  then show ?case by (auto simp: resets_view_Some)
next
  case (2 w cp r w')
  then have "run_state (pgx_resets_Create L cp) w = (r, w')" by simp
  from pgx_resets_Create_run [OF 2(1) this] show ?case unfolding reset_frame_def by blast
next
  case (3 w u r w')
  then have "run_state (pgx_resets_FindByUserID L u) w = (r, w')" by simp
  from pgx_resets_FindByUserID_run [OF 3(1) this] 3(1) show ?case by (auto split: sum.splits)
next
  case (4 w i tok re w')
  then have "run_state (pgx_resets_SetToken L i tok) w = (re, w')" by simp
  from pgx_resets_SetToken_run [OF 4(1) this] show ?case unfolding reset_frame_def by blast
next
  case (5 w i re w')
  then have "run_state (pgx_resets_Consume L i) w = (re, w')" by simp
  from pgx_resets_Consume_run [OF 5(1) this] show ?case unfolding reset_frame_def by blast
next
  case (6 w re w')
  then have "run_state (pgx_resets_DeleteExpired L) w = (re, w')" by simp
  from pgx_resets_DeleteExpired_run [OF 6(1) this] show ?case unfolding reset_frame_def by blast
qed

interpretation pgr: reset_repository "NewPasswordResetRepository L" resets_view single_node "pg_time L" for L
  by (rule pgx_resets_contract)


interpretation pgrh: reliable_reset_repository "NewPasswordResetRepository (healthy L)" resets_view
    single_node "pg_time L" for L
proof -
  have "reset_repository (NewPasswordResetRepository (healthy L)) resets_view single_node (pg_time L)"
    using pgx_resets_contract [of "healthy L"] by simp
  then show "reliable_reset_repository (NewPasswordResetRepository (healthy L)) resets_view single_node (pg_time L)"
  proof (rule reliable_reset_repository.intro)
    show "reliable_reset_repository_axioms (NewPasswordResetRepository (healthy L)) resets_view single_node"
    proof (unfold_locales, goal_cases)
      case (1 w cp p w')
      then have "run_state (pgx_resets_Create (healthy L) cp) w = (Inr p, w')" by simp
      from pgx_resets_Create_run [OF 1(1) this] show ?case by auto
    next
      case (2 w i p u)
      obtain r w' where run: "run_state (pgx_resets_FindByUserID (healthy L) u) w = (r, w')"
        by fastforce
      from pgx_resets_FindByUserID_run [OF 2(1) this] have r: "case r of
           Inr q \<Rightarrow> resets_view (store w) (prID q) = Some q \<and> prUserID q = u \<and> prUsedAt q = None
         | Inl e \<Rightarrow> (\<forall>i p. resets_view (store w) i = Some p \<longrightarrow> prUserID p = u \<longrightarrow> prUsedAt p \<noteq> None)"
        by (auto split: sum.splits)
      with 2(2-5) have "r = Inr p" by (fastforce split: sum.splits)
      with run show ?case by simp
    next
      case (3 w i p)
      then have "find (\<lambda>r. r_id r = i \<and> r_used_at r = None) (password_resets (primary (store w))) \<noteq> None"
        unfolding find_None_set by (auto simp: resets_view_Some [OF 3(1)])
      then show ?case
        by (simp add: pgx_resets_Consume_def run_pg_write_healthy update_resets_def checked_exec_def
            rows_affected_find)
    qed
  qed
qed

text \<open>A statement on one table leaves the other's records alone.\<close>

lemma rel_read_view [rel_intros]:
  "(\<And>d d'. primary d' = primary d \<Longrightarrow> f d' = f d) \<Longrightarrow> state_io_rel (on_store (same_view f)) (pg_read L q)"
  unfolding state_io_rel_def on_store_def same_view_def
  by (metis pg_read_frame prod.collapse)

lemma rel_write_view:
  assumes "\<And>now uid t a t'. st now uid t = Inr (a, t') \<Longrightarrow> g t' = g t"
    and "\<And>d d'. g (primary d') = g (primary d) \<Longrightarrow> f d' = f d"
  shows "state_io_rel (on_store (same_view f)) (pg_write L st)"
proof -
  have "f (store w') = f (store w)" if "run_state (pg_write L st) w = (r, w')" for w r w'
    using that
  proof (cases rule: pg_write_cases)
    case (written a t)
    then show ?thesis using assms(1) [OF written(1)] assms(2) [of "store w'" "store w"] by simp
  qed simp
  then show ?thesis
    unfolding state_io_rel_def on_store_def same_view_def by (metis prod.collapse)
qed

lemma write_keeps_resets [rel_intros]:
  "(\<And>now uid t a t'. st now uid t = Inr (a, t') \<Longrightarrow> password_resets t' = password_resets t) \<Longrightarrow>
   state_io_rel (on_store (same_view resets_view)) (pg_write L st)"
  by (rule rel_write_view [where g = password_resets]) (auto simp: resets_view_def fun_eq_iff)

lemma write_keeps_users [rel_intros]:
  "(\<And>now uid t a t'. st now uid t = Inr (a, t') \<Longrightarrow> users t' = users t) \<Longrightarrow>
   state_io_rel (on_store (same_view users_view)) (pg_write L st)"
  by (rule rel_write_view [where g = users]) (auto simp: users_view_def fun_eq_iff)

lemma views_of_primary:
  "primary d' = primary d \<Longrightarrow> resets_view d' = resets_view d"
  "primary d' = primary d \<Longrightarrow> users_view d' = users_view d"
  by (simp_all add: resets_view_def users_view_def fun_eq_iff)

text \<open>Which tables each kind of statement leaves as they are.\<close>

lemma statement_frames:
  "insert_user e n h ro now uid t = Inr (a, t') \<Longrightarrow>
     password_resets t' = password_resets t \<and> audit_logs t' = audit_logs t"
  "update_user_row i f now uid t = Inr (b, t') \<Longrightarrow>
     password_resets t' = password_resets t \<and> audit_logs t' = audit_logs t"
  "insert_reset u h x now uid t = Inr (c, t') \<Longrightarrow> users t' = users t \<and> audit_logs t' = audit_logs t"
  "delete_resets q now uid t = Inr (b, t') \<Longrightarrow> users t' = users t \<and> audit_logs t' = audit_logs t"
  "update_resets p g now uid t = Inr (b, t') \<Longrightarrow> users t' = users t \<and> audit_logs t' = audit_logs t"
  by (auto simp: insert_user_def update_user_row_def update_users_def insert_reset_def delete_resets_def
      update_resets_def Let_def split: sum.splits if_splits)

lemmas pgx_users_defs =
  pgx_users_Create_def pgx_users_FindByID_def pgx_users_FindByEmail_def pgx_users_List_def
  pgx_users_Update_def pgx_users_UpdatePassword_def pgx_users_IncrFailedAttempts_def
  pgx_users_LockUntil_def pgx_users_ClearLock_def pgx_users_SetTOTP_def pgx_users_Deactivate_def
  pgx_users_CountSuperAdmins_def

lemmas pgx_resets_defs =
  pgx_resets_Create_def pgx_resets_FindByUserID_def pgx_resets_SetToken_def pgx_resets_Consume_def
  pgx_resets_DeleteExpired_def

lemma pgx_users_Update_keeps_resets:
  "state_io_rel (on_store (same_view resets_view)) (pgx_users_Update L i up)"
  unfolding pgx_users_Update_def pgx_users_FindByID_def
  by (intro rel_intros)
    (auto simp: update_users_def Let_def intro: views_of_primary split: sum.splits)

lemma pgx_users_keep_resets:
  "state_io_rel (on_store (same_view resets_view)) (pgx_users_Create L cp)"
  "state_io_rel (on_store (same_view resets_view)) (pgx_users_FindByID L i)"
  "state_io_rel (on_store (same_view resets_view)) (pgx_users_FindByEmail L email)"
  "state_io_rel (on_store (same_view resets_view)) (pgx_users_UpdatePassword L i h)"
  "state_io_rel (on_store (same_view resets_view)) (pgx_users_IncrFailedAttempts L i)"
  "state_io_rel (on_store (same_view resets_view)) (pgx_users_LockUntil L i until)"
  "state_io_rel (on_store (same_view resets_view)) (pgx_users_ClearLock L i)"
  "state_io_rel (on_store (same_view resets_view)) (pgx_users_SetTOTP L i secret b)"
  "state_io_rel (on_store (same_view resets_view)) (pgx_users_Deactivate L i)"
  unfolding pgx_users_defs
  by (intro rel_intros; auto intro: views_of_primary dest: statement_frames split: if_splits)+

lemma pgx_resets_keep_users:
  "state_io_rel (on_store (same_view users_view)) (pgx_resets_Create L rp)"
  "state_io_rel (on_store (same_view users_view)) (pgx_resets_FindByUserID L u)"
  "state_io_rel (on_store (same_view users_view)) (pgx_resets_SetToken L i tok)"
  "state_io_rel (on_store (same_view users_view)) (pgx_resets_Consume L i)"
  "state_io_rel (on_store (same_view users_view)) (pgx_resets_DeleteExpired L)"
  unfolding pgx_resets_defs
  by (intro rel_intros; auto intro: views_of_primary dest: statement_frames)+

lemma pgx_auth_stores:
  "auth_stores (NewUserRepository L) users_view single_node (norm_email (unicode_lower L)) (pg_time L)
     (NewPasswordResetRepository L) resets_view"
  by (rule auth_stores.intro [OF pgx_users_contract pgx_resets_contract], unfold_locales)
    (simp_all add: pgx_users_keep_resets pgx_users_Update_keeps_resets pgx_resets_keep_users)

interpretation pga: auth_stores "NewUserRepository L" users_view single_node
    "norm_email (unicode_lower L)" "pg_time L" "NewPasswordResetRepository L" resets_view for L
  by (rule pgx_auth_stores)

interpretation pgah: reliable_auth_stores "NewUserRepository (healthy L)" users_view single_node
    "norm_email (unicode_lower L)" "pg_time L" "NewPasswordResetRepository (healthy L)" resets_view for L
proof -
  have "auth_stores (NewUserRepository (healthy L)) users_view single_node (norm_email (unicode_lower L))
      (pg_time L) (NewPasswordResetRepository (healthy L)) resets_view"
    using pgx_auth_stores [of "healthy L"] by simp
  then show "reliable_auth_stores (NewUserRepository (healthy L)) users_view single_node
      (norm_email (unicode_lower L)) (pg_time L) (NewPasswordResetRepository (healthy L)) resets_view"
    by (intro reliable_auth_stores.intro pgh.reliable_user_repository_axioms
        pgrh.reliable_reset_repository_axioms)
qed

end
