(* ===== verification/AuditRepo.thy ===== *)
theory AuditRepo
  imports ResetRepo
begin

text \<open>
  \<open>internal/repository/implementation/audit.go\<close>: the PostgreSQL audit log, and the interpretation of
  the append-only contract on it.
\<close>

section \<open>The methods\<close>

definition scanAuditLog :: "audit_row \<Rightarrow> AuditLog" where
  "scanAuditLog r =
     \<lparr>alID = a_id r, alUserID = a_user_id r, alAction = a_action r, alResource = a_resource r,
      alResourceID = a_resource_id r, alIPAddress = a_ip_address r, alUserAgent = a_user_agent r,
      alMetadata = a_metadata r, alCreatedAt = a_created_at r\<rparr>"

definition insert_audit :: "CreateAuditParams \<Rightarrow> unit stmt" where
  "insert_audit p now uid t =
     (if \<exists>u. caUserID p = Some u \<and> u \<notin> c_id ` set (users t)
      then Inl (Plain ''insert violates foreign key constraint audit_logs_user_id_fkey'')
      else if uid \<in> a_id ` set (audit_logs t)
      then Inl (Plain ''duplicate key value violates audit_logs_pkey'')
      else Inr ((), t\<lparr>audit_logs := audit_logs t @
        [\<lparr>a_id = uid, a_user_id = caUserID p, a_action = caAction p, a_resource = caResource p,
          a_resource_id = caResourceID p, a_ip_address = caIPAddress p,
          a_user_agent = caUserAgent p, a_metadata = caMetadata p, a_created_at = now\<rparr>]\<rparr>))"

definition pgx_audit_Create :: "outside \<Rightarrow> CreateAuditParams \<Rightarrow> (DB world, goerr option) state" where
  "pgx_audit_Create L p = do {
     r \<leftarrow> pg_write L (insert_audit p);
     ret (case r of Inl err \<Rightarrow> Some (Wrapped ''create audit log'' err) | Inr _ \<Rightarrow> None)
   }"

definition audit_where :: "ListAuditParams \<Rightarrow> audit_row \<Rightarrow> bool" where
  "audit_where p r \<longleftrightarrow>
     (case laUserID p of None \<Rightarrow> True | Some u \<Rightarrow> a_user_id r = Some u) \<and>
     (case laResource p of None \<Rightarrow> True | Some s \<Rightarrow> if s \<noteq> '''' then a_resource r = s else True)"

definition pgx_audit_List :: "outside \<Rightarrow> ListAuditParams \<Rightarrow> (DB world, goerr + AuditLog list \<times> int) state" where
  "pgx_audit_List L p = do {
     c \<leftarrow> pg_read L (\<lambda>_ t. Inr (int (length (filter (audit_where p) (audit_logs t)))));
     case c of
       Inl err \<Rightarrow> ret (Inl (Wrapped ''count audit logs'' err))
     | Inr n_rows \<Rightarrow> do {
         rows \<leftarrow> pg_read L (\<lambda>n t. limit_offset (laParams p)
              (sort_key (\<lambda>r. (- a_created_at r, tie_at L n (a_id r))) (filter (audit_where p) (audit_logs t))));
         case rows of
           Inl err \<Rightarrow> ret (Inl (Wrapped ''list audit logs'' err))
         | Inr rs \<Rightarrow> ret (Inr (map scanAuditLog rs, n_rows))
       }
   }"

definition NewAuditRepository :: "outside \<Rightarrow> DB IAuditRepository" where
  "NewAuditRepository L = \<lparr>audit_Create = pgx_audit_Create L, audit_List = pgx_audit_List L\<rparr>"

lemma NewAuditRepository_simps [simp]:
  "audit_Create (NewAuditRepository L) = pgx_audit_Create L"
  "audit_List (NewAuditRepository L) = pgx_audit_List L"
  by (simp_all add: NewAuditRepository_def)

section \<open>The contract holds\<close>

text \<open>The log of a store is the table on the primary.\<close>

definition audit_view :: "DB \<Rightarrow> AuditLog list" where
  "audit_view d = map scanAuditLog (audit_logs (primary d))"

lemma insert_audit_Inr:
  assumes "insert_audit p now uid t = Inr (u, t')"
  obtains row where "t' = t\<lparr>audit_logs := audit_logs t @ [row]\<rparr>" "a_id row \<notin> a_id ` set (audit_logs t)"
    "\<And>u. a_user_id row = Some u \<Longrightarrow> u \<in> c_id ` set (users t)" "audit_entry p (scanAuditLog row)"
proof -
  let ?row = "\<lparr>a_id = uid, a_user_id = caUserID p, a_action = caAction p, a_resource = caResource p,
      a_resource_id = caResourceID p, a_ip_address = caIPAddress p,
      a_user_agent = caUserAgent p, a_metadata = caMetadata p, a_created_at = now\<rparr>"
  show thesis
    using assms that [of ?row]
    by (auto simp: insert_audit_def audit_entry_def scanAuditLog_def split: if_splits)
qed

lemma pgx_audit_Create_run:
  assumes good: "single_node (store w)" and run: "run_state (pgx_audit_Create L p) w = (re, w')"
  shows "single_node (store w') \<and> same_but_store w w' \<and>
    ((\<exists>a. audit_entry p a \<and> audit_view (store w') = audit_view (store w) @ [a]) \<or>
     re \<noteq> None \<and> audit_view (store w') = audit_view (store w))"
proof -
  obtain r where r: "run_state (pg_write L (insert_audit p)) w = (r, w')"
    and re: "re = (case r of Inl err \<Rightarrow> Some (Wrapped ''create audit log'' err) | Inr _ \<Rightarrow> None)"
    using run unfolding pgx_audit_Create_def by (rule run_execE)
  from r show ?thesis
  proof (cases rule: pg_write_cases)
    case (unchanged e)
    with good re show ?thesis by simp
  next
    case (written a t)
    from insert_audit_Inr [OF written(1)] obtain row where
      row: "t = (primary (store w))\<lparr>audit_logs := audit_logs (primary (store w)) @ [row]\<rparr>"
        "a_id row \<notin> a_id ` set (audit_logs (primary (store w)))"
        "\<And>u. a_user_id row = Some u \<Longrightarrow> u \<in> c_id ` set (users (primary (store w)))"
        "audit_entry p (scanAuditLog row)"
      by metis
    have "wf_tables t"
      using good row(2,3) unfolding row(1) by (auto simp: single_node_def wf_tables_def)
    then show ?thesis
      using good row(4) written(3) unfolding written(2) row(1)
      by (auto simp: single_node_def audit_view_def)
  qed
qed

lemma pgx_audit_Create_total:
  assumes "single_node (store w)" and "sql_fault L (ticks w) = Healthy"
    and "\<And>u. caUserID p = Some u \<Longrightarrow> users_view (store w) u \<noteq> None"
    and "uuid_at L (ticks w) \<notin> alID ` set (audit_view (store w))"
    and "run_state (pgx_audit_Create L p) w = (re, w')"
  shows "re = None"
proof -
  have "u \<in> c_id ` set (users (primary (store w)))" if "caUserID p = Some u" for u
    using assms(3) [OF that] unfolding users_view_None by auto
  moreover have "uuid_at L (ticks w) \<notin> a_id ` set (audit_logs (primary (store w)))"
    using assms(4) by (force simp: audit_view_def scanAuditLog_def)
  ultimately have "\<exists>t. insert_audit p now (uuid_at L (ticks w)) (primary (store w)) = Inr ((), t)" for now
    by (auto simp: insert_audit_def)
  then obtain t where "insert_audit p (pg_time L (now_at L (ticks w))) (uuid_at L (ticks w)) (primary (store w)) = Inr ((), t)"
    by blast
  then show ?thesis using assms(2,5) by (auto simp: pgx_audit_Create_def run_pg_write_healthy)
qed

lemma pgx_audit_List_run:
  assumes good: "single_node (store w)" and run: "run_state (pgx_audit_List L p) w = (r, w')"
  shows "store w' = store w \<and> same_but_store w w' \<and>
    (\<forall>as n. r = Inr (as, n) \<longrightarrow>
       (\<exists>rows. as = map scanAuditLog rows \<and>
          n = int (length (filter (audit_where p) (audit_logs (primary (store w))))) \<and>
          limit_offset (laParams p)
            (sort_key (\<lambda>r. (- a_created_at r, tie_at L (Suc (ticks w)) (a_id r)))
              (filter (audit_where p) (audit_logs (primary (store w))))) = Inr rows))"
  using run good
  by (auto simp: pgx_audit_List_def run_read_good same_but_store_def split: fault.splits sum.splits)

lemma pgx_audit_contract: "audit_repository (NewAuditRepository L) audit_view single_node"
proof (unfold_locales, goal_cases)
  case (1 w p re w')
  then show ?case using pgx_audit_Create_run [of w L p re w'] by simp
next
  case (2 w q ra w')
  then have run: "run_state (pgx_audit_List L q) w = (ra, w')" by simp
  note L = pgx_audit_List_run [OF 2(1) run]
  show ?case
  proof (cases ra)
    case (Inr x)
    obtain as n where x: "x = (as, n)" by (cases x)
    with Inr L obtain rows where "as = map scanAuditLog rows"
        "limit_offset (laParams q)
            (sort_key (\<lambda>r. (- a_created_at r, tie_at L (Suc (ticks w)) (a_id r)))
              (filter (audit_where q) (audit_logs (primary (store w))))) = Inr rows"
      by blast
    then have "set as \<subseteq> set (audit_view (store w))"
      using limit_offset_set by (fastforce simp: audit_view_def)
    with L Inr x 2(1) show ?thesis by simp
  qed (use L 2(1) in simp)
qed

interpretation pgaud: audit_repository "NewAuditRepository L" audit_view single_node for L
  by (rule pgx_audit_contract)

end
