(* ===== verification/GoUrl.thy ===== *)
theory GoUrl
  imports GoStd "HOL-Library.Sublist"
begin

text \<open>
  The part of Go's \<open>net/url\<close> that the configuration uses: whether a string parses, and its scheme and
  host. The definitions follow the standard library's \<open>Parse\<close>, \<open>getScheme\<close>, \<open>parseAuthority\<close>,
  \<open>parseHost\<close> and \<open>unescape\<close>.
\<close>

section \<open>Characters\<close>

definition byte :: "char \<Rightarrow> nat" where "byte c = of_char c"

definition alphanumeric :: "char \<Rightarrow> bool" where
  "alphanumeric c \<longleftrightarrow> 97 \<le> byte c \<and> byte c \<le> 122 \<or> 65 \<le> byte c \<and> byte c \<le> 90 \<or> is_digit c"

definition is_hex :: "char \<Rightarrow> bool" where
  "is_hex c \<longleftrightarrow> is_digit c \<or> 97 \<le> byte c \<and> byte c \<le> 102 \<or> 65 \<le> byte c \<and> byte c \<le> 70"

definition unhex :: "char \<Rightarrow> nat" where
  "unhex c = (if is_digit c then byte c - 48 else if 97 \<le> byte c then byte c - 87 else byte c - 55)"

definition CTLByte :: "char \<Rightarrow> bool" where
  "CTLByte c \<longleftrightarrow> byte c < 32 \<or> byte c = 127"

section \<open>Cutting strings\<close>

text \<open>\<open>strings.Cut\<close> at a one-byte separator, and a cut at the last one (\<open>LastIndex\<close>).\<close>

definition cut_at :: "char \<Rightarrow> string \<Rightarrow> string \<times> string" where
  "cut_at sep s = (takeWhile (\<lambda>c. c \<noteq> sep) s, drop 1 (dropWhile (\<lambda>c. c \<noteq> sep) s))"

definition last_cut :: "char \<Rightarrow> string \<Rightarrow> (string \<times> string) option" where
  "last_cut sep s =
     (if sep \<notin> set s then None
      else let n = length (takeWhile (\<lambda>c. c \<noteq> sep) (rev s))
           in Some (take (length s - n - 1) s, drop (length s - n) s))"

section \<open>Escapes\<close>

datatype encoding = encodePath | encodeHost | encodeZone | encodeUserPassword | encodeFragment

text \<open>Which bytes must be escaped in a host or a zone; the other modes do not ask.\<close>

definition shouldEscapeHost :: "char \<Rightarrow> bool" where
  "shouldEscapeHost c \<longleftrightarrow>
     \<not> alphanumeric c \<and>
     c \<notin> set ''!$&()*+,;=:[]<>'' \<and> c \<noteq> CHR 0x27 \<and> c \<noteq> CHR 0x22 \<and> c \<notin> set ''-_.~''"

fun unescape :: "encoding \<Rightarrow> string \<Rightarrow> string option" where
  "unescape mode [] = Some []"
| "unescape mode (c # s) =
     (if c = CHR ''%'' then
        (case s of
           a # b # rest \<Rightarrow>
             if \<not> is_hex a \<or> \<not> is_hex b then None
             else if mode = encodeHost \<and> unhex a < 8 \<and> \<not> (a = CHR ''2'' \<and> b = CHR ''5'') then None
             else if mode = encodeZone \<and> \<not> (a = CHR ''2'' \<and> b = CHR ''5'') \<and>
                  char_of (16 * unhex a + unhex b) \<noteq> CHR '' '' \<and> shouldEscapeHost (char_of (16 * unhex a + unhex b))
             then None
             else map_option (\<lambda>t. char_of (16 * unhex a + unhex b) # t) (unescape mode rest)
         | _ \<Rightarrow> None)
      else if mode \<in> {encodeHost, encodeZone} \<and> byte c < 128 \<and> shouldEscapeHost c then None
      else map_option (\<lambda>t. c # t) (unescape mode s))"

section \<open>Hosts\<close>

definition validOptionalPort :: "string \<Rightarrow> bool" where
  "validOptionalPort port = (case port of [] \<Rightarrow> True | c # ds \<Rightarrow> c = CHR '':'' \<and> list_all is_digit ds)"

definition validUserinfo :: "string \<Rightarrow> bool" where
  "validUserinfo s \<longleftrightarrow>
     list_all (\<lambda>c. alphanumeric c \<or> c \<in> set ''-._:~!$&()*+,;=%@'' \<or> c = CHR 0x27) s"

text \<open>\<open>strings.Index(s, "%25")\<close> as a split of \<open>s\<close>.\<close>

fun split_zone :: "string \<Rightarrow> (string \<times> string) option" where
  "split_zone [] = None"
| "split_zone (c # s) =
     (if prefix ''%25'' (c # s) then Some ([], c # s)
      else map_option (\<lambda>(a, b). (c # a, b)) (split_zone s))"

definition parseHost :: "string \<Rightarrow> string option" where
  "parseHost host =
     (if prefix ''['' host then
        (case last_cut (CHR '']'') host of
           None \<Rightarrow> None
         | Some (inside, colonPort) \<Rightarrow>
             if \<not> validOptionalPort colonPort then None
             else case split_zone inside of
                 Some (host1, zone) \<Rightarrow>
                   (case (unescape encodeHost host1, unescape encodeZone zone,
                          unescape encodeHost (CHR '']'' # colonPort)) of
                      (Some a, Some b, Some c) \<Rightarrow> Some (a @ b @ c)
                    | _ \<Rightarrow> None)
               | None \<Rightarrow> unescape encodeHost host)
      else case last_cut (CHR '':'') host of
          Some (_, port) \<Rightarrow>
            if \<not> validOptionalPort (CHR '':'' # port) then None else unescape encodeHost host
        | None \<Rightarrow> unescape encodeHost host)"

definition parseAuthority :: "string \<Rightarrow> string option" where
  "parseAuthority authority =
     (case last_cut (CHR ''@'') authority of
        None \<Rightarrow> parseHost authority
      | Some (userinfo, h) \<Rightarrow>
          (case parseHost h of
             None \<Rightarrow> None
           | Some host \<Rightarrow>
               if \<not> validUserinfo userinfo then None
               else
                 let (username, password) = cut_at (CHR '':'') userinfo
                 in if unescape encodeUserPassword username = None \<or> unescape encodeUserPassword password = None
                    then None else Some host))"

section \<open>Parse\<close>

text \<open>\<open>getScheme\<close>: \<open>None\<close> for a missing scheme before a colon, else the scheme and the rest.\<close>

fun scheme_from :: "string \<Rightarrow> string \<Rightarrow> string \<Rightarrow> (string \<times> string) option" where
  "scheme_from raw seen [] = Some ([], raw)"
| "scheme_from raw seen (c # s) =
     (if alphanumeric c \<and> \<not> is_digit c then scheme_from raw (seen @ [c]) s
      else if is_digit c \<or> c \<in> set ''+-.'' then
        (if seen = [] then Some ([], raw) else scheme_from raw (seen @ [c]) s)
      else if c = CHR '':'' then (if seen = [] then None else Some (seen, s))
      else Some ([], raw))"

definition getScheme :: "string \<Rightarrow> (string \<times> string) option" where
  "getScheme raw = scheme_from raw [] raw"

record URL =
  Scheme :: string
  Host :: string

definition drop_query :: "string \<Rightarrow> string" where
  "drop_query rest = fst (cut_at (CHR ''?'') rest)"

definition parse_url :: "string \<Rightarrow> URL option" where
  "parse_url raw =
     (if list_ex CTLByte raw then None
      else if raw = ''*'' then Some \<lparr>Scheme = '''', Host = ''''\<rparr>
      else case getScheme raw of
        None \<Rightarrow> None
      | Some (sch, rest0) \<Rightarrow>
          let scheme = map lower_byte sch; rest = drop_query rest0
          in if \<not> prefix ''/'' rest \<and> scheme \<noteq> '''' then Some \<lparr>Scheme = scheme, Host = ''''\<rparr>
             else if \<not> prefix ''/'' rest \<and> CHR '':'' \<in> set (fst (cut_at (CHR ''/'') rest)) then None
             else if (scheme \<noteq> '''' \<or> \<not> prefix ''///'' rest) \<and> prefix ''//'' rest then
               (let authority = takeWhile (\<lambda>c. c \<noteq> CHR ''/'') (drop 2 rest);
                    path = dropWhile (\<lambda>c. c \<noteq> CHR ''/'') (drop 2 rest)
                in case parseAuthority authority of
                     None \<Rightarrow> None
                   | Some host \<Rightarrow>
                       if unescape encodePath path = None then None
                       else Some \<lparr>Scheme = scheme, Host = host\<rparr>)
             else if unescape encodePath rest = None then None
             else Some \<lparr>Scheme = scheme, Host = ''''\<rparr>)"

definition url_Parse :: "string \<Rightarrow> URL option" where
  "url_Parse raw =
     (let (u, frag) = cut_at (CHR ''#'') raw
      in case parse_url u of
           None \<Rightarrow> None
         | Some url \<Rightarrow> if unescape encodeFragment frag = None then None else Some url)"

end
