(* ===== verification/Config.thy ===== *)
theory Config
  imports Runtime GoUrl
begin

text \<open>
  \<open>internal/config/config.go\<close>: the configuration record, its accessors and its validation. Reading
  the environment is the library \<open>caarlos0/env\<close>, whose result is an argument; a Go \<open>int\<close> field is a 64-bit word.
\<close>

record Config =
  HTTPPort :: string
  AppEnv :: string
  DatabaseWriteURL :: string
  DatabaseReadURLs :: "string list"
  RedisURL :: string
  EventStream :: string
  AppSecret :: string
  JWTExpiryHours :: int64
  MFAExpiryMinutes :: int64
  TOTPSetupExpiryMinutes :: int64
  PasswordResetOTPMinutes :: int64
  PasswordResetJWTMinutes :: int64
  MaxFailedAttempts :: int64
  InviteTTLHours :: int64
  BootstrapAdminEmail :: string
  BootstrapAdminPassword :: string
  BootstrapAdminName :: string
  SMTPHost :: string
  SMTPPort :: int64
  SMTPUser :: string
  SMTPPassword :: string
  SMTPFrom :: string

definition IsDevelopment :: "Config \<Rightarrow> bool" where
  "IsDevelopment c \<longleftrightarrow> AppEnv c \<noteq> ''production''"

definition ReadDSNs :: "Config \<Rightarrow> string list" where
  "ReadDSNs c = filter (\<lambda>d. d \<noteq> '''') (map TrimSpace (DatabaseReadURLs c))"

text \<open>The values of the \<open>envDefault\<close> tags, with the required fields as arguments.\<close>

definition default_config :: "string \<Rightarrow> string \<Rightarrow> string \<Rightarrow> Config" where
  "default_config write_url redis_url secret =
     \<lparr>HTTPPort = ''8080'', AppEnv = ''development'', DatabaseWriteURL = write_url,
      DatabaseReadURLs = [], RedisURL = redis_url, EventStream = ''app:events'', AppSecret = secret,
      JWTExpiryHours = 24, MFAExpiryMinutes = 10, TOTPSetupExpiryMinutes = 60,
      PasswordResetOTPMinutes = 15, PasswordResetJWTMinutes = 30, MaxFailedAttempts = 5,
      InviteTTLHours = 168, BootstrapAdminEmail = '''', BootstrapAdminPassword = '''',
      BootstrapAdminName = ''Super Admin'', SMTPHost = '''', SMTPPort = 587, SMTPUser = '''',
      SMTPPassword = '''', SMTPFrom = ''''\<rparr>"

section \<open>Validation\<close>

text \<open>The rendering of \<open>%q\<close> depends on Unicode tables and is an argument.\<close>

definition requireURL :: "(string \<Rightarrow> string) \<Rightarrow> string \<Rightarrow> string \<Rightarrow> goerr option" where
  "requireURL quote name value =
     (let raw = TrimSpace value;
          invalid = Some (Plain (name @ '' must be a valid URL/DSN (got '' @ quote raw @ '')''))
      in if raw = '''' then Some (Plain (name @ '' must not be empty''))
         else case url_Parse raw of
                None \<Rightarrow> invalid
              | Some parsed \<Rightarrow> if Scheme parsed = '''' \<or> Host parsed = '''' then invalid else None)"

fun require_read_urls :: "(string \<Rightarrow> string) \<Rightarrow> nat \<Rightarrow> string list \<Rightarrow> goerr option" where
  "require_read_urls quote i [] = None"
| "require_read_urls quote i (dsn # dsns) =
     (case requireURL quote (''DATABASE_READ_URLS['' @ Itoa (int i) @ '']'') dsn of
        Some err \<Rightarrow> Some err
      | None \<Rightarrow> require_read_urls quote (Suc i) dsns)"

definition Validate :: "(string \<Rightarrow> string) \<Rightarrow> Config \<Rightarrow> goerr option" where
  "Validate quote c =
     (case requireURL quote ''DATABASE_WRITE_URL'' (DatabaseWriteURL c) of
        Some err \<Rightarrow> Some err
      | None \<Rightarrow>
        (case require_read_urls quote 0 (ReadDSNs c) of
           Some err \<Rightarrow> Some err
         | None \<Rightarrow>
           (case requireURL quote ''REDIS_URL'' (RedisURL c) of
              Some err \<Rightarrow> Some err
            | None \<Rightarrow>
                if length (TrimSpace (AppSecret c)) < 32
                then Some (Plain ''APP_SECRET must be at least 32 characters'')
                else if TrimSpace (EventStream c) = ''''
                then Some (Plain ''EVENT_STREAM must not be empty'')
                else None)))"

text \<open>\<open>env.Parse\<close> gives the configuration that the environment holds, or an error.\<close>

definition Load :: "(string \<Rightarrow> string) \<Rightarrow> goerr + Config \<Rightarrow> goerr + Config" where
  "Load quote parsed =
     (case parsed of
        Inl err \<Rightarrow> Inl (Wrapped ''parse config'' err)
      | Inr cfg \<Rightarrow>
          (case Validate quote cfg of
             Some err \<Rightarrow> Inl (Wrapped ''validate config'' err)
           | None \<Rightarrow> Inr cfg))"

text \<open>What a configuration that loads promises to the rest of the program.\<close>

definition usable_url :: "string \<Rightarrow> bool" where
  "usable_url s \<longleftrightarrow> (\<exists>u. url_Parse (TrimSpace s) = Some u \<and> Scheme u \<noteq> '''' \<and> Host u \<noteq> '''')"

lemma usable_url_ne: "usable_url s \<Longrightarrow> TrimSpace s \<noteq> []"
  by (auto simp: usable_url_def url_Parse_def parse_url_def cut_at_def getScheme_def drop_query_def
      Let_def split: if_splits)

lemma requireURL_None: "requireURL quote name value = None \<longleftrightarrow> usable_url value"
  using usable_url_ne [of "value"] by (auto simp: requireURL_def usable_url_def Let_def split: option.splits)

lemma require_read_urls_None: "require_read_urls quote i ds = None \<longleftrightarrow> (\<forall>d \<in> set ds. usable_url d)"
  by (induction ds arbitrary: i) (simp_all add: option.case_eq_if requireURL_None)

lemma Validate_None:
  "Validate quote c = None \<longleftrightarrow>
     usable_url (DatabaseWriteURL c) \<and> (\<forall>d \<in> set (ReadDSNs c). usable_url d) \<and> usable_url (RedisURL c) \<and>
     32 \<le> length (TrimSpace (AppSecret c)) \<and> TrimSpace (EventStream c) \<noteq> []"
  unfolding Validate_def option.case_eq_if requireURL_None require_read_urls_None if_bool_eq_disj
  by auto

end
