(* ===== verification/AuthService.thy ===== *)
theory AuthService
  imports AuditRepo Config
begin

text \<open>
  \<open>internal/services/auth_service.go\<close>: login with lockout, the two-factor flows, the password reset,
  the invite and the first administrator. Every method runs on the repositories of the service, so
  its lemmas hold for every implementation of the contracts; the properties state them for the
  PostgreSQL repositories. Log lines are not modelled, but for the notifier, whose log line is its
  effect.
\<close>

section \<open>The service\<close>

definition zero_time :: time where "zero_time = - 62135596800000000000"

record LoginResult =
  lrAccessToken :: string
  lrExpiresAt :: time
  lrMFARequired :: bool
  lrMFAToken :: string
  lrTOTPSetupRequired :: bool
  lrSetupToken :: string

definition no_result :: LoginResult where
  "no_result = \<lparr>lrAccessToken = '''', lrExpiresAt = zero_time, lrMFARequired = False, lrMFAToken = '''',
     lrTOTPSetupRequired = False, lrSetupToken = ''''\<rparr>"

type_synonym 'd notifier = "string \<Rightarrow> string \<Rightarrow> ('d world, goerr option) state"

record 'd AuthService =
  as_cfg :: Config
  as_users :: "'d IUserRepository"
  as_resets :: "'d IPasswordResetRepository"
  as_notify :: "'d notifier"

definition logNotifier :: "'d notifier" where
  "logNotifier email otp = do {
     w \<leftarrow> State_Monad.get;
     _ \<leftarrow> State_Monad.set (w\<lparr>outbox := outbox w @ [(email, otp)]\<rparr>);
     ret None
   }"

definition NewAuthService ::
    "Config \<Rightarrow> 'd IUserRepository \<Rightarrow> 'd IPasswordResetRepository \<Rightarrow> 'd notifier option \<Rightarrow> 'd AuthService" where
  "NewAuthService cfg us rs notify =
     \<lparr>as_cfg = cfg, as_users = us, as_resets = rs,
      as_notify = (case notify of None \<Rightarrow> logNotifier | Some n \<Rightarrow> n)\<rparr>"

section \<open>Clock reads of the tokens and codes\<close>

definition auth_Parse :: "outside \<Rightarrow> string \<Rightarrow> string \<Rightarrow> ('d world, goerr + Claims) state" where
  "auth_Parse L tok secret = do { now \<leftarrow> time_Now L; ret (Parse (jwt L) now tok secret) }"

text \<open>\<open>claims, err := auth.Parse(...)\<close> followed by \<open>err != nil || claims.Purpose != purpose\<close>.\<close>

definition parse_purpose :: "outside \<Rightarrow> Config \<Rightarrow> string \<Rightarrow> string \<Rightarrow> ('d world, Claims option) state" where
  "parse_purpose L cfg tok purpose = do {
     r \<leftarrow> auth_Parse L tok (AppSecret cfg);
     ret (case r of Inl _ \<Rightarrow> None | Inr claims \<Rightarrow> if cPurpose claims \<noteq> purpose then None else Some claims)
   }"

definition auth_IssuePurposeToken ::
    "outside \<Rightarrow> string \<Rightarrow> uuid \<Rightarrow> string \<Rightarrow> string \<Rightarrow> int64 \<Rightarrow> ('d world, goerr + string) state" where
  "auth_IssuePurposeToken L secret u email purpose ttl = do {
     now \<leftarrow> time_Now L;
     ret (IssuePurposeToken (jwt L) now secret u email purpose ttl)
   }"

definition totp_check :: "outside \<Rightarrow> string \<Rightarrow> string \<Rightarrow> ('d world, bool) state" where
  "totp_check L code secret = do { now \<leftarrow> time_Now L; ret (totp_Validate L now code secret) }"

definition issueSession :: "outside \<Rightarrow> 'd AuthService \<Rightarrow> User \<Rightarrow> ('d world, goerr + LoginResult) state" where
  "issueSession L s u = do {
     now \<leftarrow> time_Now L;
     let perms = RolePermissions (uRole u);
     let ttl = JWTExpiryHours (as_cfg s) * time_Hour;
     ret (case IssueSessionToken (jwt L) now (AppSecret (as_cfg s)) (uID u) (uEmail u) (uRole u) perms ttl of
            (Inl err, _) \<Rightarrow> Inl (Wrapped ''issue session token'' err)
          | (Inr tok, expires) \<Rightarrow> Inr (no_result\<lparr>lrAccessToken := tok, lrExpiresAt := expires\<rparr>))
   }"

section \<open>Login\<close>

definition Login_failed :: "outside \<Rightarrow> 'd AuthService \<Rightarrow> User \<Rightarrow> ('d world, goerr + LoginResult) state" where
  "Login_failed L s u = do {
     _ \<leftarrow> users_IncrFailedAttempts (as_users s) (uID u);
     r2 \<leftarrow> users_FindByID (as_users s) (uID u);
     case r2 of
       Inl _ \<Rightarrow> ret (Inl (Sentinel ErrUnauthorized))
     | Inr u2 \<Rightarrow>
         if uFailedAttempts u2 \<ge> sint (MaxFailedAttempts (as_cfg s)) then do {
           now \<leftarrow> time_Now L;
           let lockUntil = time_Add now (30 * time_Minute);
           _ \<leftarrow> users_LockUntil (as_users s) (uID u) lockUntil;
           ret (Inl (Sentinel ErrUnauthorized))
         } else ret (Inl (Sentinel ErrUnauthorized))
   }"

definition totp_enrolled :: "User \<Rightarrow> bool" where
  "totp_enrolled u \<longleftrightarrow> uTOTPEnabled u \<and> (case uTOTPSecret u of None \<Rightarrow> False | Some x \<Rightarrow> x \<noteq> '''')"

definition Login_passed :: "outside \<Rightarrow> 'd AuthService \<Rightarrow> User \<Rightarrow> ('d world, goerr + LoginResult) state" where
  "Login_passed L s u = do {
     _ \<leftarrow> users_ClearLock (as_users s) (uID u);
     if totp_enrolled u then do {
       let ttl = MFAExpiryMinutes (as_cfg s) * time_Minute;
       now \<leftarrow> time_Now L;
       ret (case IssueMFAToken (jwt L) now (AppSecret (as_cfg s)) (uID u) ttl of
              Inl err \<Rightarrow> Inl (Wrapped ''issue mfa token'' err)
            | Inr tok \<Rightarrow> Inr (no_result\<lparr>lrMFARequired := True, lrMFAToken := tok\<rparr>))
     } else do {
       let ttl = TOTPSetupExpiryMinutes (as_cfg s) * time_Minute;
       let setupTTL = (if sint ttl \<le> 0 then time_Hour else ttl);
       r \<leftarrow> auth_IssuePurposeToken L (AppSecret (as_cfg s)) (uID u) (uEmail u) PurposeTOTPSetup setupTTL;
       ret (case r of
              Inl err \<Rightarrow> Inl (Wrapped ''issue totp setup token'' err)
            | Inr tok \<Rightarrow> Inr (no_result\<lparr>lrTOTPSetupRequired := True, lrSetupToken := tok\<rparr>))
     }
   }"

definition account_locked :: goerr where
  "account_locked = BadRequest ''account is locked due to too many failed attempts''"

definition Auth_Login :: "outside \<Rightarrow> 'd AuthService \<Rightarrow> string \<Rightarrow> string \<Rightarrow> ('d world, goerr + LoginResult) state" where
  "Auth_Login L s email password = do {
     r \<leftarrow> users_FindByEmail (as_users s) (TrimSpace email);
     case r of
       Inl err \<Rightarrow>
         ret (if errors_Is err (Sentinel ErrNotFound) then Inl (Sentinel ErrUnauthorized) else Inl err)
     | Inr u \<Rightarrow>
         if \<not> uIsActive u then ret (Inl (Sentinel ErrUnauthorized))
         else do {
           now \<leftarrow> time_Now L;
           if IsLocked now u then ret (Inl account_locked)
           else if \<not> bcrypt_Compare L (uPasswordHash u) password then Login_failed L s u
           else Login_passed L s u
         }
   }"

section \<open>Two-factor authentication\<close>

definition Auth_VerifyTOTP :: "outside \<Rightarrow> 'd AuthService \<Rightarrow> string \<Rightarrow> string \<Rightarrow> ('d world, goerr + LoginResult) state" where
  "Auth_VerifyTOTP L s mfaToken code = do {
     p \<leftarrow> parse_purpose L (as_cfg s) mfaToken PurposeMFA;
     case p of
       None \<Rightarrow> ret (Inl (Sentinel ErrUnauthorized))
     | Some claims \<Rightarrow> do {
         r \<leftarrow> users_FindByID (as_users s) (cUserID claims);
         case r of
           Inl _ \<Rightarrow> ret (Inl (Sentinel ErrUnauthorized))
         | Inr u \<Rightarrow>
             if \<not> uIsActive u then ret (Inl (Sentinel ErrUnauthorized))
             else (case uTOTPSecret u of
                 None \<Rightarrow> ret (Inl (Unauthorized ''invalid authenticator code''))
               | Some secret \<Rightarrow> do {
                   valid \<leftarrow> totp_check L (TrimSpace code) secret;
                   if \<not> valid then ret (Inl (Unauthorized ''invalid authenticator code''))
                   else issueSession L s u
                 })
       }
   }"

definition Auth_SetupTOTP :: "outside \<Rightarrow> 'd AuthService \<Rightarrow> string \<Rightarrow> ('d world, goerr + string \<times> string) state" where
  "Auth_SetupTOTP L s setupToken = do {
     p \<leftarrow> parse_purpose L (as_cfg s) setupToken PurposeTOTPSetup;
     case p of
       None \<Rightarrow> ret (Inl (Sentinel ErrUnauthorized))
     | Some claims \<Rightarrow> do {
         r \<leftarrow> users_FindByID (as_users s) (cUserID claims);
         case r of
           Inl _ \<Rightarrow> ret (Inl (Sentinel ErrUnauthorized))
         | Inr u \<Rightarrow> do {
             n \<leftarrow> tick;
             ret (case totp_Generate L n ''go-with-me'' (uEmail u) of
                    Inl err \<Rightarrow> Inl (Wrapped ''generate totp key'' err)
                  | Inr (secret, url) \<Rightarrow> Inr (secret, url))
           }
       }
   }"

definition Auth_ConfirmTOTP ::
    "outside \<Rightarrow> 'd AuthService \<Rightarrow> string \<Rightarrow> string \<Rightarrow> string \<Rightarrow> ('d world, goerr + LoginResult) state" where
  "Auth_ConfirmTOTP L s setupToken secret code = do {
     p \<leftarrow> parse_purpose L (as_cfg s) setupToken PurposeTOTPSetup;
     case p of
       None \<Rightarrow> ret (Inl (Sentinel ErrUnauthorized))
     | Some claims \<Rightarrow> do {
         r \<leftarrow> users_FindByID (as_users s) (cUserID claims);
         case r of
           Inl _ \<Rightarrow> ret (Inl (Sentinel ErrUnauthorized))
         | Inr u \<Rightarrow>
             if \<not> uIsActive u then ret (Inl (Sentinel ErrUnauthorized))
             else do {
               valid \<leftarrow> totp_check L (TrimSpace code) secret;
               if \<not> valid then ret (Inl (BadRequest ''invalid authenticator code''))
               else do {
                 e \<leftarrow> users_SetTOTP (as_users s) (uID u) secret True;
                 case e of
                   Some err \<Rightarrow> ret (Inl (Wrapped ''persist totp secret'' err))
                 | None \<Rightarrow> do {
                     r2 \<leftarrow> users_FindByID (as_users s) (uID u);
                     case r2 of
                       Inl err \<Rightarrow> ret (Inl err)
                     | Inr u2 \<Rightarrow> issueSession L s u2
                   }
               }
             }
       }
   }"

section \<open>Password reset\<close>

definition randomOTP6 :: "outside \<Rightarrow> ('d world, goerr + string) state" where
  "randomOTP6 L = do {
     n \<leftarrow> crypto_rand_Int L 1000000;
     ret (case n of Inl err \<Rightarrow> Inl err | Inr k \<Rightarrow> Inr (Sprintf_06d k))
   }"

definition otp_hash :: "outside \<Rightarrow> string \<Rightarrow> string" where
  "otp_hash L otp = hex_EncodeToString (sha256_Sum256 L otp)"

definition Auth_ForgotPassword :: "outside \<Rightarrow> 'd AuthService \<Rightarrow> string \<Rightarrow> ('d world, goerr option) state" where
  "Auth_ForgotPassword L s email = do {
     r \<leftarrow> users_FindByEmail (as_users s) (norm_email (unicode_lower L) email);
     case r of
       Inl _ \<Rightarrow> ret None
     | Inr u \<Rightarrow>
         if \<not> uIsActive u then ret None
         else do {
           o6 \<leftarrow> randomOTP6 L;
           case o6 of
             Inl err \<Rightarrow> ret (Some (Wrapped ''generate otp'' err))
           | Inr otp \<Rightarrow> do {
               now \<leftarrow> time_Now L;
               let expires = time_Add now (PasswordResetOTPMinutes (as_cfg s) * time_Minute);
               c \<leftarrow> resets_Create (as_resets s)
                     \<lparr>cpUserID = uID u, cpOTPHash = otp_hash L otp, cpExpiresAt = expires\<rparr>;
               case c of
                 Inl err \<Rightarrow> ret (Some (Wrapped ''store reset record'' err))
               | Inr _ \<Rightarrow> as_notify s (uEmail u) otp
             }
         }
   }"

definition Auth_VerifyResetEmail ::
    "outside \<Rightarrow> 'd AuthService \<Rightarrow> string \<Rightarrow> string \<Rightarrow> ('d world, goerr + string) state" where
  "Auth_VerifyResetEmail L s email code = (
     let otp = TrimSpace code
     in if length otp \<noteq> 6 then ret (Inl (BadRequest ''invalid OTP code''))
     else do {
       r \<leftarrow> users_FindByEmail (as_users s) (norm_email (unicode_lower L) email);
       case r of
         Inl _ \<Rightarrow> ret (Inl (Sentinel ErrUnauthorized))
       | Inr u \<Rightarrow> do {
           q \<leftarrow> resets_FindByUserID (as_resets s) (uID u);
           case q of
             Inl _ \<Rightarrow> ret (Inl (Sentinel ErrUnauthorized))
           | Inr reset \<Rightarrow> do {
               now \<leftarrow> time_Now L;
               if IsExpired now reset \<or> IsConsumed reset
               then ret (Inl (Unauthorized ''OTP has expired or already been used''))
               else if otp_hash L otp \<noteq> prOTPHash reset then ret (Inl (Sentinel ErrUnauthorized))
               else do {
                 e \<leftarrow> resets_Consume (as_resets s) (prID reset);
                 case e of
                   Some err \<Rightarrow> ret (Inl (Wrapped ''consume reset record'' err))
                 | None \<Rightarrow>
                     let ttl = PasswordResetJWTMinutes (as_cfg s) * time_Minute;
                         ttl = (if sint ttl \<le> 0 then 30 * time_Minute else ttl)
                     in auth_IssuePurposeToken L (AppSecret (as_cfg s)) (uID u) (uEmail u)
                          PurposePasswordReset ttl
               }
             }
         }
     })"

definition bcrypt_hash :: "outside \<Rightarrow> string \<Rightarrow> ('d world, goerr + string) state" where
  "bcrypt_hash L password = do {
     n \<leftarrow> tick;
     ret (bcrypt_Generate L n password (bcrypt_DefaultCost L))
   }"

definition Auth_CompletePasswordReset ::
    "outside \<Rightarrow> 'd AuthService \<Rightarrow> string \<Rightarrow> string \<Rightarrow> string \<Rightarrow> ('d world, goerr option) state" where
  "Auth_CompletePasswordReset L s resetToken newPassword totpCode = do {
     p \<leftarrow> parse_purpose L (as_cfg s) resetToken PurposePasswordReset;
     case p of
       None \<Rightarrow> ret (Some (Sentinel ErrUnauthorized))
     | Some claims \<Rightarrow> do {
         r \<leftarrow> users_FindByID (as_users s) (cUserID claims);
         case r of
           Inl _ \<Rightarrow> ret (Some (Sentinel ErrUnauthorized))
         | Inr u \<Rightarrow> do {
             ok \<leftarrow> (case uTOTPSecret u of
                      Some secret \<Rightarrow> if uTOTPEnabled u then totp_check L (TrimSpace totpCode) secret else ret True
                    | None \<Rightarrow> ret True);
             if \<not> ok then ret (Some (Sentinel ErrUnauthorized))
             else if length newPassword < 10
             then ret (Some (BadRequest ''password must be at least 10 characters''))
             else do {
               h \<leftarrow> bcrypt_hash L newPassword;
               case h of
                 Inl err \<Rightarrow> ret (Some (Wrapped ''hash password'' err))
               | Inr hash \<Rightarrow> users_UpdatePassword (as_users s) (uID u) hash
             }
           }
       }
   }"

section \<open>Invites\<close>

definition Auth_AcceptInvite ::
    "outside \<Rightarrow> 'd AuthService \<Rightarrow> string \<Rightarrow> string \<Rightarrow> string \<Rightarrow> ('d world, goerr + LoginResult) state" where
  "Auth_AcceptInvite L s inviteToken name password = do {
     p \<leftarrow> parse_purpose L (as_cfg s) inviteToken PurposeInvite;
     case p of
       None \<Rightarrow> ret (Inl (BadRequest ''invalid or expired invite token''))
     | Some claims \<Rightarrow>
         if length password < 10 then ret (Inl (BadRequest ''password must be at least 10 characters''))
         else do {
           r \<leftarrow> users_FindByID (as_users s) (cUserID claims);
           case r of
             Inl _ \<Rightarrow> ret (Inl (BadRequest ''invite is no longer valid''))
           | Inr u \<Rightarrow>
               if uIsActive u then ret (Inl (Conflict ''account is already active''))
               else do {
                 h \<leftarrow> bcrypt_hash L password;
                 case h of
                   Inl err \<Rightarrow> ret (Inl (Wrapped ''hash password'' err))
                 | Inr hash \<Rightarrow> do {
                     upd \<leftarrow> users_Update (as_users s) (uID u) \<lparr>uuName = Some (TrimSpace name), uuRole = None\<rparr>;
                     case upd of
                       Inl err \<Rightarrow> ret (Inl err)
                     | Inr _ \<Rightarrow> do {
                         e \<leftarrow> users_UpdatePassword (as_users s) (uID u) hash;
                         case e of
                           Some err \<Rightarrow> ret (Inl err)
                         | None \<Rightarrow> do {
                             e2 \<leftarrow> users_ClearLock (as_users s) (uID u);
                             case e2 of
                               Some err \<Rightarrow> ret (Inl err)
                             | None \<Rightarrow> do {
                                 let setupTTL = TOTPSetupExpiryMinutes (as_cfg s) * time_Minute;
                                 t \<leftarrow> auth_IssuePurposeToken L (AppSecret (as_cfg s)) (uID u) (uEmail u)
                                       PurposeTOTPSetup setupTTL;
                                 ret (case t of
                                        Inl err \<Rightarrow> Inl err
                                      | Inr tok \<Rightarrow> Inr (no_result\<lparr>lrTOTPSetupRequired := True, lrSetupToken := tok\<rparr>))
                               }
                           }
                       }
                   }
               }
         }
   }"

section \<open>Profile, logout, first administrator\<close>

definition Auth_Me :: "'d AuthService \<Rightarrow> uuid \<Rightarrow> ('d world, goerr + User) state" where
  "Auth_Me s i = users_FindByID (as_users s) i"

definition Auth_Logout :: "'d AuthService \<Rightarrow> uuid \<Rightarrow> ('d world, goerr option) state" where
  "Auth_Logout s i = ret None"

definition EnsureBootstrapAdmin :: "outside \<Rightarrow> Config \<Rightarrow> 'd IUserRepository \<Rightarrow> ('d world, goerr option) state" where
  "EnsureBootstrapAdmin L cfg us =
     (if BootstrapAdminEmail cfg = '''' \<or> BootstrapAdminPassword cfg = '''' then ret None
      else do {
        c \<leftarrow> users_CountSuperAdmins us;
        case c of
          Inl err \<Rightarrow> ret (Some (Wrapped ''count super admins'' err))
        | Inr n \<Rightarrow>
            if n > 0 then ret None
            else do {
              h \<leftarrow> bcrypt_hash L (BootstrapAdminPassword cfg);
              case h of
                Inl err \<Rightarrow> ret (Some (Wrapped ''hash bootstrap password'' err))
              | Inr hash \<Rightarrow> do {
                  r \<leftarrow> users_Create us \<lparr>cuEmail = BootstrapAdminEmail cfg, cuName = BootstrapAdminName cfg,
                         cuPasswordHash = hash, cuRole = RoleSuperAdmin\<rparr>;
                  ret (case r of Inl err \<Rightarrow> Some (Wrapped ''create bootstrap admin'' err) | Inr _ \<Rightarrow> None)
                }
            }
      })"


section \<open>The calls of the service\<close>

datatype auth_request =
    Call_Login string string
  | Call_VerifyTOTP string string
  | Call_SetupTOTP string
  | Call_ConfirmTOTP string string string
  | Call_ForgotPassword string
  | Call_VerifyResetEmail string string
  | Call_CompletePasswordReset string string string
  | Call_AcceptInvite string string string
  | Call_Me uuid
  | Call_Logout uuid

fun auth_call :: "outside \<Rightarrow> 'd AuthService \<Rightarrow> auth_request \<Rightarrow> ('d world, unit) state" where
  "auth_call L s (Call_Login email pw) = ignore (Auth_Login L s email pw)"
| "auth_call L s (Call_VerifyTOTP tok code) = ignore (Auth_VerifyTOTP L s tok code)"
| "auth_call L s (Call_SetupTOTP tok) = ignore (Auth_SetupTOTP L s tok)"
| "auth_call L s (Call_ConfirmTOTP tok secret code) = ignore (Auth_ConfirmTOTP L s tok secret code)"
| "auth_call L s (Call_ForgotPassword email) = ignore (Auth_ForgotPassword L s email)"
| "auth_call L s (Call_VerifyResetEmail email code) = ignore (Auth_VerifyResetEmail L s email code)"
| "auth_call L s (Call_CompletePasswordReset tok new code) =
     ignore (Auth_CompletePasswordReset L s tok new code)"
| "auth_call L s (Call_AcceptInvite tok name pw) = ignore (Auth_AcceptInvite L s tok name pw)"
| "auth_call L s (Call_Me i) = ignore (Auth_Me s i)"
| "auth_call L s (Call_Logout i) = ignore (Auth_Logout s i)"

section \<open>Wiring\<close>

text \<open>\<open>NewServices\<close> and \<open>NewRepositories\<close>: the auth service on the PostgreSQL repositories, with the
  logging notifier.\<close>

definition NewServices_Auth :: "outside \<Rightarrow> Config \<Rightarrow> DB AuthService" where
  "NewServices_Auth L cfg =
     NewAuthService cfg (NewUserRepository L) (NewPasswordResetRepository L) None"

lemma NewServices_Auth_simps [simp]:
  "as_cfg (NewServices_Auth L cfg) = cfg"
  "as_users (NewServices_Auth L cfg) = NewUserRepository L"
  "as_resets (NewServices_Auth L cfg) = NewPasswordResetRepository L"
  "as_notify (NewServices_Auth L cfg) = logNotifier"
  by (simp_all add: NewServices_Auth_def NewAuthService_def)

lemma run_logNotifier [simp]:
  "run_state (logNotifier email otp) w = (None, w\<lparr>outbox := outbox w @ [(email, otp)]\<rparr>)"
  by (simp add: logNotifier_def)

end
