(* ===== verification/Examples.thy ===== *)
theory Examples
  imports AuthService
begin

text \<open>
  One concrete outside, configuration and store, on which the theories below evaluate the program:
  the clock counts the calls, nothing fails, and the third-party functions are simple stand-ins that
  satisfy what the model assumes of them.
\<close>

definition example_outside :: outside where
  "example_outside =
     \<lparr>now_at = int, sql_fault = (\<lambda>_. Healthy), redis_fault = (\<lambda>_. Healthy),
      uuid_at = (\<lambda>n. word_of_nat (n + 100)), rand_Int = (\<lambda>n. Inr (123456 + n)),
      rand_Read = (\<lambda>_. Inr (replicate 32 (CHR ''r''))), tie_at = (\<lambda>_ _. 0),
      unicode_lower = (\<lambda>s. s), sha256_Sum256 = (\<lambda>s. s), pg_time = (\<lambda>t. t),
      pg_ilike = (\<lambda>s p. True),
      bcrypt_Compare = (\<lambda>h p. h = ''h:'' @ p), bcrypt_Generate = (\<lambda>_ p _. Inr (''h:'' @ p)),
      bcrypt_DefaultCost = 10,
      totp_Validate = (\<lambda>_ code secret. code = secret),
      totp_Generate = (\<lambda>_ iss acc. Inr (''SECRET'', ''otpauth'')),
      redis_counter = (\<lambda>log k. word_of_nat (length (filter (\<lambda>(t, c). c = Redis_Incr k) log))),
      redis_seconds = whole_seconds,
      jwt = example_jwt\<rparr>"

lemma healthy_example [simp]: "healthy example_outside = example_outside"
  by (simp add: example_outside_def)

lemma example_outside_simps [simp]:
  "now_at example_outside n = int n" "sql_fault example_outside n = Healthy"
  "redis_fault example_outside n = Healthy"
  "uuid_at example_outside n = word_of_nat (n + 100)" "rand_Int example_outside n = Inr (123456 + n)"
  "rand_Read example_outside n = Inr (replicate 32 (CHR ''r''))"
  "unicode_lower example_outside s = s" "sha256_Sum256 example_outside s = s"
  "pg_time example_outside t = t" "bcrypt_Compare example_outside h p \<longleftrightarrow> h = ''h:'' @ p"
  "bcrypt_Generate example_outside n p c = Inr (''h:'' @ p)"
  "totp_Validate example_outside t code secret \<longleftrightarrow> code = secret"
  "tie_at example_outside n i = 0" "jwt example_outside = example_jwt"
  by (simp_all add: example_outside_def)

definition example_config :: Config where
  "example_config = default_config ''postgres://db/app'' ''redis://cache/0'' ''0123456789abcdef0123456789abcdef''"

definition example_row :: "nat \<Rightarrow> string \<Rightarrow> user_role \<Rightarrow> bool \<Rightarrow> users_row" where
  "example_row n email role active =
     \<lparr>c_id = word_of_nat n, c_email = email, c_name = ''n'', c_password_hash = ''h:secret'', c_role = role,
      c_totp_secret = None, c_totp_enabled = False, c_failed_attempts = 0, c_locked_until = None,
      c_is_active = active, c_created_at = 0, c_updated_at = 0\<rparr>"

definition example_tables :: tables where
  "example_tables =
     \<lparr>users = [example_row 1 ''root@x'' SuperAdmin True, example_row 2 ''ann@x'' Member True,
               example_row 3 ''new@x'' Member False],
      password_resets = [], audit_logs = []\<rparr>"

definition example_world :: "DB world" where
  "example_world = \<lparr>store = \<lparr>primary = example_tables, replicas = [], rr = 0\<rparr>, ticks = 0,
     redis_log = [], outbox = []\<rparr>"

lemmas example_defs = example_world_def example_tables_def example_row_def

lemma example_good [simp]: "single_node (store example_world)"
  by (simp add: single_node_def wf_tables_def example_defs)

lemma example_users [simp]:
  "users_view (store example_world) 1 = Some (scanUser (example_row 1 ''root@x'' SuperAdmin True))"
  "users_view (store example_world) 2 = Some (scanUser (example_row 2 ''ann@x'' Member True))"
  "users_view (store example_world) 3 = Some (scanUser (example_row 3 ''new@x'' Member False))"
  by (simp_all add: users_view_def example_defs)

lemma example_email [simp]: "norm_email u ''ann@x'' = ''ann@x''" "norm_email u ''new@x'' = ''new@x''"
  by code_simp+


text \<open>The definitions that evaluate a call on these repositories.\<close>

lemmas run_defs =
  pgx_users_defs pgx_resets_defs pgx_audit_Create_def pg_read_def pg_write_def Read_def first_row_def
  update_user_row_def update_users_def rows_affected_def insert_user_def role_arg_def enum_in_def
  insert_reset_def delete_resets_def update_resets_def pending_resets_def insert_audit_def
  no_rows_to_not_found_def plain_exec_def checked_exec_def scanUser_def scanPasswordReset_def Let_def

lemmas token_run_defs =
  auth_Parse_def parse_purpose_def auth_IssuePurposeToken_def totp_check_def issueSession_def
  crypto_rand_Int_def bcrypt_hash_def issuer_defs Sign_def

end
