(* ===== verification/AuthFacts.thy ===== *)
theory AuthFacts
  imports Examples
begin

text \<open>
  What every operation of the auth service may change, proved over the contracts of its
  collaborators and instantiated on the PostgreSQL repositories.
\<close>

section \<open>The service on its collaborators\<close>

locale auth_service = auth_stores R tbl good norm stamp P rtbl
  for R :: "'d IUserRepository" and tbl and good and norm and stamp
    and P :: "'d IPasswordResetRepository" and rtbl +
  fixes s :: "'d AuthService"
  assumes wired [simp]: "as_users s = R" "as_resets s = P"
    and notify_keeps: "run_state (as_notify s email otp) w = (re, w') \<Longrightarrow> store w' = store w"

locale reliable_auth_service =
  auth_service R tbl good norm stamp P rtbl s + reliable_auth_stores R tbl good norm stamp P rtbl
  for R :: "'d IUserRepository" and tbl and good and norm and stamp
    and P :: "'d IPasswordResetRepository" and rtbl and s :: "'d AuthService"

section \<open>Which fields an operation may change\<close>

definition same_identity :: "User \<Rightarrow> User \<Rightarrow> bool" where
  "same_identity u v \<longleftrightarrow>
     uID v = uID u \<and> uEmail v = uEmail u \<and> uCreatedAt v = uCreatedAt u \<and> (uIsActive v \<longrightarrow> uIsActive u)"

definition same_account :: "User \<Rightarrow> User \<Rightarrow> bool" where
  "same_account u v \<longleftrightarrow>
     uID v = uID u \<and> uEmail v = uEmail u \<and> uRole v = uRole u \<and> uCreatedAt v = uCreatedAt u \<and>
     uIsActive v = uIsActive u"

definition same_but_lock :: "User \<Rightarrow> User \<Rightarrow> bool" where
  "same_but_lock u v \<longleftrightarrow>
     v\<lparr>uFailedAttempts := 0, uLockedUntil := None, uUpdatedAt := 0\<rparr> =
     u\<lparr>uFailedAttempts := 0, uLockedUntil := None, uUpdatedAt := 0\<rparr>"

definition same_but_totp :: "User \<Rightarrow> User \<Rightarrow> bool" where
  "same_but_totp u v \<longleftrightarrow>
     v\<lparr>uTOTPSecret := None, uTOTPEnabled := False, uUpdatedAt := 0\<rparr> =
     u\<lparr>uTOTPSecret := None, uTOTPEnabled := False, uUpdatedAt := 0\<rparr>"

definition same_but_hash :: "User \<Rightarrow> User \<Rightarrow> bool" where
  "same_but_hash u v \<longleftrightarrow>
     v\<lparr>uPasswordHash := [], uUpdatedAt := 0\<rparr> = u\<lparr>uPasswordHash := [], uUpdatedAt := 0\<rparr>"

lemma same_account_order [simp, intro]: "reflp same_account" "transp same_account"
  by (auto simp: reflp_def transp_def same_account_def)

lemma same_identity_order [simp, intro]: "reflp same_identity" "transp same_identity"
  by (auto simp: reflp_def transp_def same_identity_def)

lemma same_but_order [simp, intro]:
  "reflp same_but_lock" "transp same_but_lock" "reflp same_but_totp" "transp same_but_totp"
  "reflp same_but_hash" "transp same_but_hash"
  by (auto simp: reflp_def transp_def same_but_lock_def same_but_totp_def same_but_hash_def)

text \<open>What each call may change in an account.\<close>

fun call_may_change :: "auth_request \<Rightarrow> User \<Rightarrow> User \<Rightarrow> bool" where
  "call_may_change (Call_Login _ _) = same_but_lock"
| "call_may_change (Call_ConfirmTOTP _ _ _) = same_but_totp"
| "call_may_change (Call_CompletePasswordReset _ _ _) = same_but_hash"
| "call_may_change (Call_AcceptInvite _ _ _) = same_account"
| "call_may_change _ = (=)"

lemma call_may_change_account: "call_may_change c u v \<Longrightarrow> same_account u v"
  by (cases c; cases u; cases v)
    (auto simp: same_but_lock_def same_but_totp_def same_but_hash_def same_account_def)

lemmas same_defs =
  same_identity_def same_account_def same_but_lock_def same_but_totp_def same_but_hash_def

lemma eq_order [simp]: "reflp (=)" "transp (=)"
  by (simp_all add: reflp_def transp_def)

section \<open>Operations over the contracts\<close>

context auth_stores
begin

lemmas evolve_order = users_evolve_order rel_option_order grown_order

lemma evolve_same_users:
  assumes "reflp Q" and "\<And>w r w'. good (store w) \<Longrightarrow> run_state m w = (r, w') \<Longrightarrow> good (store w')"
    and "state_io_rel (on_store (same_view tbl)) m"
  shows "state_io_rel (users_evolve Q) m"
proof (rule evolve_runI)
  fix w r w'
  assume "good (store w)" "run_state m w = (r, w')"
  moreover from this(2) have "tbl (store w') = tbl (store w)"
    using assms(3) unfolding state_io_rel_def on_store_def same_view_def by (metis snd_conv)
  ultimately show "good (store w') \<and> (\<forall>i. Q (tbl (store w) i) (tbl (store w') i))"
    using assms(1,2) by (simp add: reflp_def)
qed

lemma evolve_resets [rel_intros]:
  assumes "reflp Q"
  shows "state_io_rel (users_evolve Q) (resets_Create P rp)"
    "state_io_rel (users_evolve Q) (resets_FindByUserID P u)"
    "state_io_rel (users_evolve Q) (resets_SetToken P i tok)"
    "state_io_rel (users_evolve Q) (resets_Consume P i)"
    "state_io_rel (users_evolve Q) (resets_DeleteExpired P)"
proof -
  note same = evolve_same_users [OF assms _ resets_keep_users(1)]
    evolve_same_users [OF assms _ resets_keep_users(2)] evolve_same_users [OF assms _ resets_keep_users(3)]
    evolve_same_users [OF assms _ resets_keep_users(4)] evolve_same_users [OF assms _ resets_keep_users(5)]
  show "state_io_rel (users_evolve Q) (resets_Create P rp)"
    by (rule same) (use resets_Create_run in blast)
  show "state_io_rel (users_evolve Q) (resets_FindByUserID P u)"
    by (rule same) (use resets_FindByUserID_run in blast)
  show "state_io_rel (users_evolve Q) (resets_SetToken P i tok)"
    by (rule same) (use resets_SetToken_run in blast)
  show "state_io_rel (users_evolve Q) (resets_Consume P i)"
    by (rule same) (use resets_Consume_run in blast)
  show "state_io_rel (users_evolve Q) (resets_DeleteExpired P)"
    by (rule same) (use resets_DeleteExpired_run in blast)
qed

lemma evolve_helpers [rel_intros]:
  assumes "reflp Q" "transp Q"
  shows "state_io_rel (users_evolve Q) (parse_purpose L cfg tok purpose)"
    "state_io_rel (users_evolve Q) (auth_IssuePurposeToken L secret u email purpose ttl)"
    "state_io_rel (users_evolve Q) (totp_check L code secret)"
    "state_io_rel (users_evolve Q) (issueSession L s v)"
    "state_io_rel (users_evolve Q) (randomOTP6 L)"
    "state_io_rel (users_evolve Q) (bcrypt_hash L password)"
  unfolding parse_purpose_def auth_Parse_def auth_IssuePurposeToken_def totp_check_def issueSession_def
    randomOTP6_def crypto_rand_Int_def bcrypt_hash_def Let_def
  by (intro rel_intros users_evolve_order assms)+

end

context auth_service
begin

lemma evolve_notify [rel_intros]: "reflp Q \<Longrightarrow> state_io_rel (users_evolve Q) (as_notify s email otp)"
  by (intro evolve_runI) (auto simp: reflp_def dest: notify_keeps)

lemma Login_failed_evolves [rel_intros]:
  "state_io_rel (users_evolve (rel_option same_but_lock)) (Login_failed L s u)"
  unfolding Login_failed_def Let_def wired by (intro rel_intros evolve_order; auto simp: same_but_lock_def)

lemma Login_passed_evolves [rel_intros]:
  "state_io_rel (users_evolve (rel_option same_but_lock)) (Login_passed L s u)"
  unfolding Login_passed_def Let_def wired by (intro rel_intros evolve_order; auto simp: same_but_lock_def)

lemma Login_evolves:
  "state_io_rel (users_evolve (rel_option same_but_lock)) (Auth_Login L s email password)"
  unfolding Auth_Login_def wired by (intro rel_intros evolve_order; auto)

lemma VerifyTOTP_evolves: "state_io_rel (users_evolve (=)) (Auth_VerifyTOTP L s tok code)"
  unfolding Auth_VerifyTOTP_def wired by (intro rel_intros evolve_order; auto)

lemma SetupTOTP_evolves: "state_io_rel (users_evolve (=)) (Auth_SetupTOTP L s tok)"
  unfolding Auth_SetupTOTP_def wired by (intro rel_intros evolve_order; auto)

lemma ConfirmTOTP_evolves:
  "state_io_rel (users_evolve (rel_option same_but_totp)) (Auth_ConfirmTOTP L s tok secret code)"
  unfolding Auth_ConfirmTOTP_def wired by (intro rel_intros evolve_order; auto simp: same_but_totp_def)

lemma ForgotPassword_evolves: "state_io_rel (users_evolve (=)) (Auth_ForgotPassword L s email)"
  unfolding Auth_ForgotPassword_def Let_def wired by (intro rel_intros evolve_order; auto)

lemma VerifyResetEmail_evolves: "state_io_rel (users_evolve (=)) (Auth_VerifyResetEmail L s email otp)"
  unfolding Auth_VerifyResetEmail_def Let_def wired by (intro conjI impI rel_intros evolve_order; auto)

lemma CompletePasswordReset_evolves:
  "state_io_rel (users_evolve (rel_option same_but_hash)) (Auth_CompletePasswordReset L s tok new code)"
  unfolding Auth_CompletePasswordReset_def wired by (intro rel_intros evolve_order; auto simp: same_but_hash_def)

lemma AcceptInvite_evolves:
  "state_io_rel (users_evolve (rel_option same_account)) (Auth_AcceptInvite L s tok name password)"
  unfolding Auth_AcceptInvite_def Let_def wired by (intro rel_intros evolve_order; auto simp: same_account_def apply_update_def)

lemma call_evolves: "state_io_rel (users_evolve (rel_option (call_may_change c))) (auth_call L s c)"
  by (cases c)
    (simp_all add: Login_evolves VerifyTOTP_evolves SetupTOTP_evolves ConfirmTOTP_evolves
      ForgotPassword_evolves VerifyResetEmail_evolves CompletePasswordReset_evolves AcceptInvite_evolves
      option.rel_eq Auth_Me_def Auth_Logout_def evolve_quiet rel_ret evolve_order)

lemma EnsureBootstrapAdmin_evolves:
  "state_io_rel (users_evolve (grown (=))) (EnsureBootstrapAdmin L cfg R)"
  unfolding EnsureBootstrapAdmin_def by (intro rel_intros evolve_order; auto)

end

section \<open>On the PostgreSQL repositories\<close>

lemma pgx_auth_service:
  "auth_service (NewUserRepository L) users_view single_node (norm_email (unicode_lower L)) (pg_time L)
     (NewPasswordResetRepository L) resets_view (NewServices_Auth L cfg)"
  by (rule auth_service.intro [OF pgx_auth_stores], rule auth_service_axioms.intro) auto

interpretation pgs: auth_service "NewUserRepository L" users_view single_node
    "norm_email (unicode_lower L)" "pg_time L" "NewPasswordResetRepository L" resets_view
    "NewServices_Auth L cfg" for L cfg
  by (rule pgx_auth_service)

interpretation pgsh: reliable_auth_service "NewUserRepository (healthy L)" users_view single_node
    "norm_email (unicode_lower L)" "pg_time L" "NewPasswordResetRepository (healthy L)" resets_view
    "NewServices_Auth (healthy L) cfg" for L cfg
proof -
  have "auth_service (NewUserRepository (healthy L)) users_view single_node (norm_email (unicode_lower L))
      (pg_time L) (NewPasswordResetRepository (healthy L)) resets_view (NewServices_Auth (healthy L) cfg)"
    using pgx_auth_service [of "healthy L"] by simp
  then show "reliable_auth_service (NewUserRepository (healthy L)) users_view single_node
      (norm_email (unicode_lower L)) (pg_time L) (NewPasswordResetRepository (healthy L)) resets_view
      (NewServices_Auth (healthy L) cfg)"
    by (intro reliable_auth_service.intro pgah.reliable_auth_stores_axioms)
qed


section \<open>Properties\<close>

text \<open>C30: what the calls of the auth service can change in any account, whatever faults the database has:
  a login only the failure counter and the lock, \<open>ConfirmTOTP\<close> only the second factor, a password reset
  only the hash, \<open>AcceptInvite\<close> neither identity, email, role nor activity, and the other calls nothing;
  none of them adds or removes an account, and the constraints of the tables hold afterwards.\<close>

theorem auth_frames:
  assumes "single_node (store w)"
    and "run_state (auth_call L (NewServices_Auth L cfg) c) w = (r, w')"
  shows "single_node (store w') \<and>
    rel_option (call_may_change c) (users_view (store w) i) (users_view (store w') i)"
  using pg.users_evolveD [OF pgs.call_evolves assms] .

theorem auth_frames_witness:
  "\<exists>w'. run_state (auth_call example_outside (NewServices_Auth example_outside example_config)
      (Call_Login ''ann@x'' ''wrong'')) example_world = ((), w') \<and>
     rel_option same_but_lock (users_view (store example_world) 2) (users_view (store w') 2)"
proof -
  obtain w' where run: "run_state (auth_call example_outside (NewServices_Auth example_outside example_config)
      (Call_Login ''ann@x'' ''wrong'')) example_world = ((), w')" by simp
  from auth_frames [OF example_good this, of 2] run show ?thesis by auto
qed

end
