(* ===== verification/LoginFacts.thy ===== *)
theory LoginFacts
  imports AuthFacts
begin

text \<open>
  What \<open>Auth_Login\<close> decides: the outcome for every state of an account, the counting of failures and
  the lock.
\<close>

section \<open>Repeated attempts\<close>

primrec Login_attempts ::
    "outside \<Rightarrow> 'd AuthService \<Rightarrow> string \<Rightarrow> string list \<Rightarrow> ('d world, (goerr + LoginResult) list) state" where
  "Login_attempts L s email [] = ret []"
| "Login_attempts L s email (p # ps) = do {
     r \<leftarrow> Auth_Login L s email p;
     rs \<leftarrow> Login_attempts L s email ps;
     ret (r # rs)
   }"

lemma Login_failed_result: "fst (run_state (Login_failed L s u) w) = Inl (Sentinel ErrUnauthorized)"
  by (auto simp: Login_failed_def Let_def split: sum.split prod.split)

text \<open>What a login that has passed its checks answers at a clock reading: the token of the next step, or the
  error of its signing.\<close>

definition login_answer :: "outside \<Rightarrow> Config \<Rightarrow> User \<Rightarrow> time \<Rightarrow> goerr + LoginResult" where
  "login_answer L cfg u now =
     (let ttl = TOTPSetupExpiryMinutes cfg * time_Minute
      in if totp_enrolled u
      then map_sum (Wrapped ''issue mfa token'') (\<lambda>tok. no_result\<lparr>lrMFARequired := True, lrMFAToken := tok\<rparr>)
             (IssueMFAToken (jwt L) now (AppSecret cfg) (uID u) (MFAExpiryMinutes cfg * time_Minute))
      else map_sum (Wrapped ''issue totp setup token'') (\<lambda>tok. no_result\<lparr>lrTOTPSetupRequired := True, lrSetupToken := tok\<rparr>)
             (IssuePurposeToken (jwt L) now (AppSecret cfg) (uID u) (uEmail u) PurposeTOTPSetup
                (if sint ttl \<le> 0 then time_Hour else ttl)))"

lemma Login_passed_result:
  "fst (run_state (Login_passed L s u) w) =
     login_answer L (as_cfg s) u (now_at L (ticks (snd (run_state (users_ClearLock (as_users s) (uID u)) w))))"
  by (auto simp: Login_passed_def auth_IssuePurposeToken_def login_answer_def Let_def split: sum.split prod.split)

section \<open>Over the contracts\<close>

context auth_service
begin

text \<open>What a successful login has checked, and the token it returns.\<close>

lemma Login_success:
  assumes good: "good (store w)" and run: "run_state (Auth_Login L s email pw) w = (Inr lr, w')"
  obtains u w1 t where "run_state (users_FindByEmail R (TrimSpace email)) w = (Inr u, w1)"
    "tbl (store w) (uID u) = Some u" "uEmail u = norm (TrimSpace email)" "uIsActive u"
    "\<not> IsLocked (now_at L (ticks w1)) u" "bcrypt_Compare L (uPasswordHash u) pw"
    "if totp_enrolled u
     then \<exists>tok. lr = no_result\<lparr>lrMFARequired := True, lrMFAToken := tok\<rparr> \<and>
            IssueMFAToken (jwt L) t (AppSecret (as_cfg s)) (uID u) (MFAExpiryMinutes (as_cfg s) * time_Minute) = Inr tok
     else \<exists>tok ttl. lr = no_result\<lparr>lrTOTPSetupRequired := True, lrSetupToken := tok\<rparr> \<and>
            IssuePurposeToken (jwt L) t (AppSecret (as_cfg s)) (uID u) (uEmail u) PurposeTOTPSetup ttl = Inr tok"
proof -
  obtain r w1 where find: "run_state (users_FindByEmail R (TrimSpace email)) w = (r, w1)" by fastforce
  obtain u where r: "r = Inr u"
    using run find by (cases r) (auto simp: Auth_Login_def split: if_splits)
  have u: "tbl (store w) (uID u) = Some u" "uEmail u = norm (TrimSpace email)"
    using FindByEmail_run [OF good find] r by auto
  note failed = Login_failed_result [of L s u]
  have checks: "uIsActive u" "\<not> IsLocked (now_at L (ticks w1)) u" "bcrypt_Compare L (uPasswordHash u) pw"
    and passed: "run_state (Login_passed L s u) (w1\<lparr>ticks := Suc (ticks w1)\<rparr>) = (Inr lr, w')"
    using run find r failed [of "w1\<lparr>ticks := Suc (ticks w1)\<rparr>"]
    by (auto simp: Auth_Login_def split: if_splits)
  obtain c w2 where clear: "run_state (users_ClearLock R (uID u)) (w1\<lparr>ticks := Suc (ticks w1)\<rparr>) = (c, w2)"
    by fastforce
  show thesis
  proof (rule that [of u w1 "now_at L (ticks w2)", OF find [unfolded r] u checks])
    show "if totp_enrolled u
     then \<exists>tok. lr = no_result\<lparr>lrMFARequired := True, lrMFAToken := tok\<rparr> \<and>
            IssueMFAToken (jwt L) (now_at L (ticks w2)) (AppSecret (as_cfg s)) (uID u) (MFAExpiryMinutes (as_cfg s) * time_Minute) = Inr tok
     else \<exists>tok ttl. lr = no_result\<lparr>lrTOTPSetupRequired := True, lrSetupToken := tok\<rparr> \<and>
            IssuePurposeToken (jwt L) (now_at L (ticks w2)) (AppSecret (as_cfg s)) (uID u) (uEmail u) PurposeTOTPSetup ttl = Inr tok"
      using passed clear
      by (auto simp: Login_passed_def auth_IssuePurposeToken_def Let_def split: if_splits sum.splits)
  qed
qed

end

context reliable_auth_service
begin

text \<open>The refusals, and the state each leaves.\<close>

lemma Login_refused:
  assumes good: "good (store w)" and u: "tbl (store w) i = Some u" "uEmail u = norm (TrimSpace email)"
  obtains w1 where "tbl (store w1) = tbl (store w)" "good (store w1)" "same_but_store w w1"
    "run_state (users_FindByEmail R (TrimSpace email)) w = (Inr u, w1)"
    "\<not> uIsActive u \<Longrightarrow> run_state (Auth_Login L s email pw) w = (Inl (Sentinel ErrUnauthorized), w1)"
    "uIsActive u \<Longrightarrow> IsLocked (now_at L (ticks w1)) u \<Longrightarrow>
       run_state (Auth_Login L s email pw) w = (Inl account_locked, w1\<lparr>ticks := Suc (ticks w1)\<rparr>)"
    "uIsActive u \<Longrightarrow> \<not> IsLocked (now_at L (ticks w1)) u \<Longrightarrow>
       run_state (Auth_Login L s email pw) w =
         run_state (if bcrypt_Compare L (uPasswordHash u) pw then Login_passed L s u else Login_failed L s u)
           (w1\<lparr>ticks := Suc (ticks w1)\<rparr>)"
proof -
  obtain w1 where w1: "run_state (users_FindByEmail R (TrimSpace email)) w = (Inr u, w1)" "good (store w1)"
      "tbl (store w1) = tbl (store w)" "same_but_store w w1"
    by (rule find_email [OF good u])
  show thesis
    by (rule that [of w1]) (use w1 in \<open>auto simp: Auth_Login_def\<close>)
qed

text \<open>A run that ends with the statement that locks an account, right after the clock was read.\<close>

definition locked_at :: "outside \<Rightarrow> uuid \<Rightarrow> nat \<Rightarrow> 'd world \<Rightarrow> bool" where
  "locked_at L i n w' \<longleftrightarrow>
     (\<exists>x. ticks x = Suc n \<and> good (store x) \<and>
        run_state (users_LockUntil R i (time_Add (now_at L n) (30 * time_Minute))) x = (None, w'))"

text \<open>A wrong password counts one failure and locks the account when the limit is reached.\<close>

definition after_failure :: "outside \<Rightarrow> 'd world \<Rightarrow> User \<Rightarrow> User \<Rightarrow> bool" where
  "after_failure L w' u v \<longleftrightarrow>
     (\<exists>t lock. v = u\<lparr>uFailedAttempts := uFailedAttempts u + 1, uLockedUntil := lock, uUpdatedAt := t\<rparr> \<and>
        (if sint (MaxFailedAttempts (as_cfg s)) \<le> uFailedAttempts u + 1
         then \<exists>n. lock = Some (stamp (time_Add (now_at L n) (30 * time_Minute))) \<and> locked_at L (uID u) n w'
         else lock = uLockedUntil u))"

lemma Login_failed_run:
  assumes good: "good (store w)" and u: "tbl (store w) (uID u) = Some u"
    and range: "uFailedAttempts u + 1 < 2 ^ 31"
  obtains w' v where "run_state (Login_failed L s u) w = (Inl (Sentinel ErrUnauthorized), w')"
    "good (store w')" "tbl (store w') = (tbl (store w))(uID u \<mapsto> v)" "after_failure L w' u v"
    "same_but_store w w'"
proof -
  obtain w1 t where w1: "run_state (users_IncrFailedAttempts R (uID u)) w = (None, w1)" "good (store w1)"
      "tbl (store w1) = (tbl (store w))(uID u \<mapsto> u\<lparr>uFailedAttempts := uFailedAttempts u + 1, uUpdatedAt := t\<rparr>)"
      "same_but_store w w1"
    by (rule incr_attempts [OF good u range])
  let ?u2 = "u\<lparr>uFailedAttempts := uFailedAttempts u + 1, uUpdatedAt := t\<rparr>"
  have u2: "tbl (store w1) (uID u) = Some ?u2" by (simp add: w1)
  obtain w2 where w2: "run_state (users_FindByID R (uID u)) w1 = (Inr ?u2, w2)" "good (store w2)"
      "tbl (store w2) = tbl (store w1)" "same_but_store w1 w2"
    by (rule find_id [OF w1(2) u2])
  note frame = same_but_store_trans [OF w1(4) w2(4)]
  show thesis
  proof (cases "sint (MaxFailedAttempts (as_cfg s)) \<le> uFailedAttempts u + 1")
    case False
    show thesis
    proof (rule that [of w2 ?u2])
      show "run_state (Login_failed L s u) w = (Inl (Sentinel ErrUnauthorized), w2)"
        using False w1(1) w2(1) by (simp add: Login_failed_def)
      show "after_failure L w2 u ?u2"
        using False unfolding after_failure_def by (intro exI [of _ t] exI [of _ "uLockedUntil u"]) simp
    qed (use w1 w2 frame in auto)
  next
    case True
    let ?w2 = "w2\<lparr>ticks := Suc (ticks w2)\<rparr>" and ?until = "time_Add (now_at L (ticks w2)) (30 * time_Minute)"
    have g2: "good (store ?w2)" "tbl (store ?w2) (uID u) = Some ?u2" using w2 u2 by simp_all
    obtain w3 t' where w3: "run_state (users_LockUntil R (uID u) ?until) ?w2 = (None, w3)" "good (store w3)"
        "tbl (store w3) = (tbl (store ?w2))(uID u \<mapsto> ?u2\<lparr>uLockedUntil := Some (stamp ?until), uUpdatedAt := t'\<rparr>)"
        "same_but_store ?w2 w3"
      by (rule lock_until [OF g2])
    show thesis
    proof (rule that [of w3 "?u2\<lparr>uLockedUntil := Some (stamp ?until), uUpdatedAt := t'\<rparr>"])
      show "run_state (Login_failed L s u) w = (Inl (Sentinel ErrUnauthorized), w3)"
        using True w1(1) w2(1) w3(1) by (simp add: Login_failed_def Let_def)
      show "after_failure L w3 u (?u2\<lparr>uLockedUntil := Some (stamp ?until), uUpdatedAt := t'\<rparr>)"
      proof -
        have "locked_at L (uID u) (ticks w2) w3"
          unfolding locked_at_def using w3(1) g2(1) by (intro exI [of _ "w2\<lparr>ticks := Suc (ticks w2)\<rparr>"]) simp
        then show ?thesis
          using True unfolding after_failure_def
          by (intro exI [of _ t'] exI [of _ "Some (stamp ?until)"]) auto
      qed
      show "same_but_store w w3"
        using same_but_store_trans [OF frame same_but_store_Suc [OF w3(4)]] .
    qed (use w1 w2 w3 in auto)
  qed
qed

lemma Login_wrong_password:
  assumes good: "good (store w)" and u: "tbl (store w) i = Some u" "uEmail u = norm (TrimSpace email)"
    and refuse: "uIsActive u" "\<forall>n \<ge> ticks w. \<not> IsLocked (now_at L n) u" "\<not> bcrypt_Compare L (uPasswordHash u) pw"
    and range: "uFailedAttempts u + 1 < 2 ^ 31"
  obtains w' v where "run_state (Auth_Login L s email pw) w = (Inl (Sentinel ErrUnauthorized), w')"
    "good (store w')" "tbl (store w') = (tbl (store w))(i \<mapsto> v)" "after_failure L w' u v"
    "same_but_store w w'"
proof -
  have i: "uID u = i" using key_id [OF good u(1)] .
  obtain w1 where w1: "tbl (store w1) = tbl (store w)" "good (store w1)" "same_but_store w w1"
    "uIsActive u \<Longrightarrow> \<not> IsLocked (now_at L (ticks w1)) u \<Longrightarrow>
       run_state (Auth_Login L s email pw) w =
         run_state (if bcrypt_Compare L (uPasswordHash u) pw then Login_passed L s u else Login_failed L s u)
           (w1\<lparr>ticks := Suc (ticks w1)\<rparr>)"
    by (rule Login_refused [OF good u]) blast
  have "\<not> IsLocked (now_at L (ticks w1)) u" using refuse(2) w1(3) by (simp add: same_but_store_def)
  then have run: "run_state (Auth_Login L s email pw) w = run_state (Login_failed L s u) (w1\<lparr>ticks := Suc (ticks w1)\<rparr>)"
    using w1(4) refuse by simp
  have "good (store (w1\<lparr>ticks := Suc (ticks w1)\<rparr>))" "tbl (store (w1\<lparr>ticks := Suc (ticks w1)\<rparr>)) (uID u) = Some u"
    using w1 u i by simp_all
  then obtain w' v where w': "run_state (Login_failed L s u) (w1\<lparr>ticks := Suc (ticks w1)\<rparr>) = (Inl (Sentinel ErrUnauthorized), w')"
    "good (store w')" "tbl (store w') = (tbl (store (w1\<lparr>ticks := Suc (ticks w1)\<rparr>)))(uID u \<mapsto> v)"
    "after_failure L w' u v" "same_but_store (w1\<lparr>ticks := Suc (ticks w1)\<rparr>) w'"
    by (rule Login_failed_run [OF _ _ range, where L = L])
  have frame: "same_but_store w w'"
    using same_but_store_trans [OF w1(3) same_but_store_Suc [OF w'(5)]] .
  with run that w' w1(1) i frame show thesis by simp
qed

text \<open>Failures in a row, up to the limit.\<close>

lemma Login_lock:
  assumes "good (store w)" "tbl (store w) i = Some u" "uEmail u = norm (TrimSpace email)"
    "uIsActive u" "\<forall>n \<ge> ticks w. \<not> IsLocked (now_at L n) u"
    "\<forall>p \<in> set ps. \<not> bcrypt_Compare L (uPasswordHash u) p" "ps \<noteq> []"
    "uFailedAttempts u + int (length ps) = sint (MaxFailedAttempts (as_cfg s))"
    "sint (MaxFailedAttempts (as_cfg s)) < 2 ^ 31"
  shows "\<exists>w' v n. run_state (Login_attempts L s email ps) w =
        (replicate (length ps) (Inl (Sentinel ErrUnauthorized)), w') \<and>
      good (store w') \<and> tbl (store w') = (tbl (store w))(i \<mapsto> v) \<and> same_account u v \<and>
      uFailedAttempts v = sint (MaxFailedAttempts (as_cfg s)) \<and> locked_at L i n w' \<and>
      uLockedUntil v = Some (stamp (time_Add (now_at L n) (30 * time_Minute)))"
  using assms
proof (induction ps arbitrary: w u)
  case (Cons p ps)
  let ?max = "sint (MaxFailedAttempts (as_cfg s))"
  have wrong: "\<not> bcrypt_Compare L (uPasswordHash u) p" and range: "uFailedAttempts u + 1 < 2 ^ 31"
    using Cons.prems by auto
  have id: "uID u = i" using key_id [OF Cons.prems(1,2)] .
  obtain w1 v where w1: "run_state (Auth_Login L s email p) w = (Inl (Sentinel ErrUnauthorized), w1)"
    "good (store w1)" "tbl (store w1) = (tbl (store w))(i \<mapsto> v)" "after_failure L w1 u v" "same_but_store w w1"
    by (rule Login_wrong_password [OF Cons.prems(1-5) wrong range])
  obtain t lock where v: "v = u\<lparr>uFailedAttempts := uFailedAttempts u + 1, uLockedUntil := lock, uUpdatedAt := t\<rparr>"
    and lock: "if ?max \<le> uFailedAttempts u + 1
         then \<exists>n. lock = Some (stamp (time_Add (now_at L n) (30 * time_Minute))) \<and> locked_at L i n w1
         else lock = uLockedUntil u"
    using w1(4) id unfolding after_failure_def by blast
  show ?case
  proof (cases "ps = []")
    case True
    with Cons.prems(8) have max: "?max = uFailedAttempts u + 1" by simp
    with lock obtain n where n: "locked_at L i n w1"
        "lock = Some (stamp (time_Add (now_at L n) (30 * time_Minute)))" by auto
    show ?thesis
    proof (intro exI [of _ w1] exI [of _ v] exI [of _ n] conjI)
      show "run_state (Login_attempts L s email (p # ps)) w =
        (replicate (length (p # ps)) (Inl (Sentinel ErrUnauthorized)), w1)"
        using True w1(1) by simp
    qed (use w1 v n max in \<open>auto simp: same_account_def\<close>)
  next
    case False
    then have pos: "0 < int (length ps)" by simp
    have len: "int (length (p # ps)) = 1 + int (length ps)" by simp
    from Cons.prems(8) len pos have "\<not> ?max \<le> uFailedAttempts u + 1" by linarith
    with lock have same: "lock = uLockedUntil u" by simp
    have t: "ticks w \<le> ticks w1" using w1(5) by (simp add: same_but_store_def)
    have "\<forall>n \<ge> ticks w1. \<not> IsLocked (now_at L n) v"
      using Cons.prems(5) t unfolding v same by (simp add: IsLocked_def)
    then have "\<exists>w' v' n. run_state (Login_attempts L s email ps) w1 =
        (replicate (length ps) (Inl (Sentinel ErrUnauthorized)), w') \<and>
      good (store w') \<and> tbl (store w') = (tbl (store w1))(i \<mapsto> v') \<and> same_account v v' \<and>
      uFailedAttempts v' = ?max \<and> locked_at L i n w' \<and>
      uLockedUntil v' = Some (stamp (time_Add (now_at L n) (30 * time_Minute)))"
      using Cons.prems False by (intro Cons.IH) (use w1 v in auto)
    then obtain w' v' n where IH: "run_state (Login_attempts L s email ps) w1 =
        (replicate (length ps) (Inl (Sentinel ErrUnauthorized)), w')"
      "good (store w')" "tbl (store w') = (tbl (store w1))(i \<mapsto> v')" "same_account v v'"
      "uFailedAttempts v' = ?max" "locked_at L i n w'"
      "uLockedUntil v' = Some (stamp (time_Add (now_at L n) (30 * time_Minute)))"
      by blast
    have "same_account u v'" using IH(4) v by (simp add: same_account_def)
    then show ?thesis
      using IH w1 by (intro exI [of _ w'] exI [of _ v'] exI [of _ n]) auto
  qed
qed simp

end


section \<open>Properties\<close>

text \<open>C10: a login that succeeds has found an active, unlocked account under the normalised email and
  checked its password; it never returns a session. What it returns is an MFA token when the account
  has a second factor and a setup token otherwise, and whenever that token parses it is for that
  account and for that purpose only. This holds whatever faults the database has.\<close>

theorem Login_never_session:
  assumes "single_node (store w)" and "jwt_laws (jwt L)"
    and "run_state (Auth_Login L (NewServices_Auth L cfg) email pw) w = (Inr lr, w')"
  shows "\<exists>u. users_view (store w) (uID u) = Some u \<and> uEmail u = norm_email (unicode_lower L) email \<and>
    uIsActive u \<and> \<not> IsLocked (now_at L (Suc (ticks w))) u \<and> bcrypt_Compare L (uPasswordHash u) pw \<and>
    lrAccessToken lr = '''' \<and> lrMFARequired lr = totp_enrolled u \<and> lrTOTPSetupRequired lr = (\<not> totp_enrolled u) \<and>
    (\<forall>now c. Parse (jwt L) now (if totp_enrolled u then lrMFAToken lr else lrSetupToken lr) (AppSecret cfg) = Inr c \<longrightarrow>
       cUserID c = uID u \<and> cPurpose c = (if totp_enrolled u then PurposeMFA else PurposeTOTPSetup))"
proof -
  obtain u w1 t where u: "run_state (users_FindByEmail (NewUserRepository L) (TrimSpace email)) w = (Inr u, w1)"
    "users_view (store w) (uID u) = Some u" "uEmail u = norm_email (unicode_lower L) (TrimSpace email)" "uIsActive u"
    "\<not> IsLocked (now_at L (ticks w1)) u" "bcrypt_Compare L (uPasswordHash u) pw"
    and lr: "if totp_enrolled u
     then \<exists>tok. lr = no_result\<lparr>lrMFARequired := True, lrMFAToken := tok\<rparr> \<and>
            IssueMFAToken (jwt L) t (AppSecret (as_cfg (NewServices_Auth L cfg))) (uID u)
              (MFAExpiryMinutes (as_cfg (NewServices_Auth L cfg)) * time_Minute) = Inr tok
     else \<exists>tok ttl. lr = no_result\<lparr>lrTOTPSetupRequired := True, lrSetupToken := tok\<rparr> \<and>
            IssuePurposeToken (jwt L) t (AppSecret (as_cfg (NewServices_Auth L cfg))) (uID u) (uEmail u) PurposeTOTPSetup ttl = Inr tok"
    by (rule pgs.Login_success [OF assms(1,3)])
  have "ticks w1 = Suc (ticks w)"
    using u(1) by (auto simp: pgx_users_FindByEmail_run [OF assms(1)])
  moreover have "\<forall>now c. Parse (jwt L) now (if totp_enrolled u then lrMFAToken lr else lrSetupToken lr) (AppSecret cfg) = Inr c \<longrightarrow>
       cUserID c = uID u \<and> cPurpose c = (if totp_enrolled u then PurposeMFA else PurposeTOTPSetup)"
    using lr issued_purpose [OF assms(2)] issued_mfa [OF assms(2)] by (auto split: if_splits)
  ultimately show ?thesis
    using u(2-6) lr by (intro exI [of _ u]) (auto simp: no_result_def split: if_splits)
qed

theorem Login_never_session_witness:
  "\<exists>lr w'. run_state (Auth_Login example_outside (NewServices_Auth example_outside example_config) ''ann@x'' ''secret'')
       example_world = (Inr lr, w') \<and> lrAccessToken lr = ''''"
proof -
  let ?run = "run_state (Auth_Login example_outside (NewServices_Auth example_outside example_config) ''ann@x'' ''secret'') example_world"
  have "\<exists>lr w'. ?run = (Inr lr, w')"
    by (simp add: Auth_Login_def Login_passed_def totp_enrolled_def IsLocked_def run_defs token_run_defs
        example_defs example_jwt_def)
  then obtain lr w' where run: "?run = (Inr lr, w')" by blast
  from Login_never_session [OF example_good _ run] show ?thesis using run by auto
qed


text \<open>C13: on a healthy database the outcome of a login is settled by the account: an email that no
  account has, an inactive account and a wrong password give the same 401; a locked account gives a
  400 whatever the password; and an active, unlocked account with the right password gets exactly what the
  signing of its token at a clock reading of the call gives, the MFA token when it has a second factor and
  the setup token otherwise, or that signing's error.\<close>

theorem Login_outcome:
  assumes good: "single_node (store w)"
  shows "(\<forall>i u. users_view (store w) i = Some u \<longrightarrow> uEmail u = norm_email (unicode_lower L) email \<longrightarrow>
      (let now = now_at L (Suc (ticks w));
           r = fst (run_state (Auth_Login (healthy L) (NewServices_Auth (healthy L) cfg) email pw) w)
       in if \<not> uIsActive u then r = Inl (Sentinel ErrUnauthorized)
          else if IsLocked now u then r = Inl account_locked
          else if \<not> bcrypt_Compare L (uPasswordHash u) pw then r = Inl (Sentinel ErrUnauthorized)
          else \<exists>n \<ge> ticks w. r = login_answer L cfg u (now_at L n))) \<and>
    ((\<forall>i u. users_view (store w) i = Some u \<longrightarrow> uEmail u \<noteq> norm_email (unicode_lower L) email) \<longrightarrow>
      fst (run_state (Auth_Login (healthy L) (NewServices_Auth (healthy L) cfg) email pw) w) =
        Inl (Sentinel ErrUnauthorized))"
proof (intro conjI allI impI)
  fix i u
  assume u: "users_view (store w) i = Some u" "uEmail u = norm_email (unicode_lower L) email"
  then have u': "uEmail u = norm_email (unicode_lower L) (TrimSpace email)" by simp
  let ?s = "NewServices_Auth (healthy L) cfg"
  obtain w1 where find: "run_state (users_FindByEmail (NewUserRepository (healthy L)) (TrimSpace email)) w = (Inr u, w1)"
    and step: "\<not> uIsActive u \<Longrightarrow> run_state (Auth_Login (healthy L) ?s email pw) w = (Inl (Sentinel ErrUnauthorized), w1)"
    "uIsActive u \<Longrightarrow> IsLocked (now_at (healthy L) (ticks w1)) u \<Longrightarrow>
       run_state (Auth_Login (healthy L) ?s email pw) w = (Inl account_locked, w1\<lparr>ticks := Suc (ticks w1)\<rparr>)"
    "uIsActive u \<Longrightarrow> \<not> IsLocked (now_at (healthy L) (ticks w1)) u \<Longrightarrow>
       run_state (Auth_Login (healthy L) ?s email pw) w =
         run_state (if bcrypt_Compare (healthy L) (uPasswordHash u) pw then Login_passed (healthy L) ?s u else Login_failed (healthy L) ?s u)
           (w1\<lparr>ticks := Suc (ticks w1)\<rparr>)"
    using pgsh.Login_refused [OF good u(1) u', of "healthy L" cfg pw] by metis
  have ticks: "ticks w1 = Suc (ticks w)"
    using find by (auto simp: pgx_users_FindByEmail_run [OF good] split: option.splits)
  let ?w2 = "w1\<lparr>ticks := Suc (ticks w1)\<rparr>"
  obtain e w3 where clear: "run_state (users_ClearLock (NewUserRepository (healthy L)) (uID u)) ?w2 = (e, w3)" by fastforce
  have "single_node (store ?w2)" using pg.FindByEmail_run [OF good find] by simp
  with pg.ClearLock_run [OF _ clear] ticks have "ticks w \<le> ticks w3" by (simp add: same_but_store_def)
  then have passed: "\<exists>n \<ge> ticks w. fst (run_state (Login_passed (healthy L) ?s u) ?w2) = login_answer L cfg u (now_at L n)"
    using clear by (intro exI [of _ "ticks w3"]) (cases "totp_enrolled u"; simp add: Login_passed_result login_answer_def)
  show "let now = now_at L (Suc (ticks w));
           r = fst (run_state (Auth_Login (healthy L) ?s email pw) w)
       in if \<not> uIsActive u then r = Inl (Sentinel ErrUnauthorized)
          else if IsLocked now u then r = Inl account_locked
          else if \<not> bcrypt_Compare L (uPasswordHash u) pw then r = Inl (Sentinel ErrUnauthorized)
          else \<exists>n \<ge> ticks w. r = login_answer L cfg u (now_at L n)"
    using step ticks passed Login_failed_result [of "healthy L" ?s u]
    by (simp add: Let_def)
next
  assume "\<forall>i u. users_view (store w) i = Some u \<longrightarrow> uEmail u \<noteq> norm_email (unicode_lower L) email"
  then have "fst (run_state (users_FindByEmail (NewUserRepository (healthy L)) (TrimSpace email)) w) = Inl (Sentinel ErrNotFound)"
    using pgh.FindByEmail_absent [OF good, of L "TrimSpace email"] by simp
  then show "fst (run_state (Auth_Login (healthy L) (NewServices_Auth (healthy L) cfg) email pw) w) = Inl (Sentinel ErrUnauthorized)"
    by (auto simp: Auth_Login_def split: prod.split)
qed

theorem Login_outcome_witness:
  "fst (run_state (Auth_Login example_outside (NewServices_Auth example_outside example_config) '' ann@x'' ''wrong'')
     example_world) = Inl (Sentinel ErrUnauthorized)"
proof -
  have email: "norm_email f '' ann@x'' = ''ann@x''" for f by code_simp
  have u: "users_view (store example_world) 2 = Some (scanUser (example_row 2 ''ann@x'' Member True))" by simp
  have "uEmail (scanUser (example_row 2 ''ann@x'' Member True)) = norm_email (unicode_lower example_outside) '' ann@x''"
    unfolding email by (simp add: example_row_def)
  from Login_outcome [OF example_good, of example_outside "'' ann@x''" example_config "''wrong''",
      THEN conjunct1, rule_format, OF u this]
  show ?thesis by (simp add: example_row_def IsLocked_def Let_def)
qed

text \<open>C2: on a database that answers, as many wrong passwords in a row as the configured limit (below 2^31) still allows lock
  an account that is active and not locked (an earlier lock may have run out): each is refused with the same
  401, and the account is then locked until thirty minutes after the clock reading of the last of them, the
  one right before the statement that locks. In every later state in which the account is still active and has
  that lock, whatever happened in between, a login is refused without looking at the password, the right one
  too, and changes no account, as long as the clock has not reached that instant.\<close>

theorem Login_lockout:
  assumes "single_node (store w)" and "users_view (store w) i = Some u"
    and "uEmail u = norm_email (unicode_lower L) email" and "uIsActive u"
    and "\<forall>n \<ge> ticks w. \<not> IsLocked (now_at L n) u"
    and "\<forall>p \<in> set ps. \<not> bcrypt_Compare L (uPasswordHash u) p" and "ps \<noteq> []"
    and "uFailedAttempts u + int (length ps) = sint (MaxFailedAttempts cfg)"
    and "sint (MaxFailedAttempts cfg) < 2 ^ 31"
  shows "\<exists>w' v n. run_state (Login_attempts (healthy L) (NewServices_Auth (healthy L) cfg) email ps) w =
        (replicate (length ps) (Inl (Sentinel ErrUnauthorized)), w') \<and>
      single_node (store w') \<and> users_view (store w') = (users_view (store w))(i \<mapsto> v) \<and> same_account u v \<and>
      ticks w' = n + 2 \<and>
      uLockedUntil v = Some (pg_time L (time_Add (now_at L n) (30 * time_Minute))) \<and>
      (\<forall>w2 v2 pw. single_node (store w2) \<longrightarrow> users_view (store w2) i = Some v2 \<longrightarrow>
         uEmail v2 = uEmail v \<longrightarrow> uIsActive v2 \<longrightarrow> uLockedUntil v2 = uLockedUntil v \<longrightarrow>
         now_at L (Suc (ticks w2)) < pg_time L (time_Add (now_at L n) (30 * time_Minute)) \<longrightarrow>
         (\<exists>w3. run_state (Auth_Login (healthy L) (NewServices_Auth (healthy L) cfg) email pw) w2 =
             (Inl account_locked, w3) \<and> single_node (store w3) \<and> users_view (store w3) = users_view (store w2)))"
proof -
  have u: "uEmail u = norm_email (unicode_lower L) (TrimSpace email)"
    and free: "\<forall>n \<ge> ticks w. \<not> IsLocked (now_at (healthy L) n) u"
    and wrong: "\<forall>p \<in> set ps. \<not> bcrypt_Compare (healthy L) (uPasswordHash u) p"
    and max: "uFailedAttempts u + int (length ps) = sint (MaxFailedAttempts (as_cfg (NewServices_Auth (healthy L) cfg)))"
      "sint (MaxFailedAttempts (as_cfg (NewServices_Auth (healthy L) cfg))) < 2 ^ 31"
    using assms by simp_all
  obtain w' v n where w': "run_state (Login_attempts (healthy L) (NewServices_Auth (healthy L) cfg) email ps) w =
        (replicate (length ps) (Inl (Sentinel ErrUnauthorized)), w')"
      "single_node (store w')" "users_view (store w') = (users_view (store w))(i \<mapsto> v)" "same_account u v"
      "pgsh.locked_at L (healthy L) i n w'"
      "uLockedUntil v = Some (pg_time L (time_Add (now_at L n) (30 * time_Minute)))"
    using pgsh.Login_lock [OF assms(1,2) u assms(4) free wrong assms(7) max] by auto
  have "ticks (snd (run_state (pgx_users_LockUntil (healthy L) i t) x)) = Suc (ticks x)" for t x
    by (auto simp: pgx_users_LockUntil_def pg_write_def split: fault.split sum.split prod.split)
  then have ticks: "ticks w' = n + 2"
    using w'(5) unfolding pgsh.locked_at_def by auto (metis snd_conv)
  have "\<exists>w3. run_state (Auth_Login (healthy L) (NewServices_Auth (healthy L) cfg) email pw) w2 =
      (Inl account_locked, w3) \<and> single_node (store w3) \<and> users_view (store w3) = users_view (store w2)"
    if w2: "single_node (store w2)" "users_view (store w2) i = Some v2" "uEmail v2 = uEmail v" "uIsActive v2"
      "uLockedUntil v2 = uLockedUntil v" "now_at L (Suc (ticks w2)) < pg_time L (time_Add (now_at L n) (30 * time_Minute))"
    for w2 v2 pw
  proof -
    have email: "uEmail v2 = norm_email (unicode_lower L) (TrimSpace email)"
      using w2(3) w'(4) u by (simp add: same_account_def)
    obtain w1 where w1: "users_view (store w1) = users_view (store w2)" "single_node (store w1)"
      "run_state (users_FindByEmail (NewUserRepository (healthy L)) (TrimSpace email)) w2 = (Inr v2, w1)"
      "uIsActive v2 \<Longrightarrow> IsLocked (now_at (healthy L) (ticks w1)) v2 \<Longrightarrow>
       run_state (Auth_Login (healthy L) (NewServices_Auth (healthy L) cfg) email pw) w2 = (Inl account_locked, w1\<lparr>ticks := Suc (ticks w1)\<rparr>)"
      using pgsh.Login_refused [OF w2(1,2) email, of "healthy L" cfg pw] by metis
    have "ticks w1 = Suc (ticks w2)"
      using w1(3) by (auto simp: pgx_users_FindByEmail_run [OF w2(1)] split: option.splits)
    then have "IsLocked (now_at (healthy L) (ticks w1)) v2"
      using w2(5,6) w'(6) by (simp add: IsLocked_def time_Before_def)
    from w1(4) [OF w2(4) this] w1(1,2) show ?thesis by simp
  qed
  with w' ticks show ?thesis by (intro exI [of _ w'] exI [of _ v] exI [of _ n]) blast
qed

theorem Login_lockout_witness:
  "\<exists>w'. fst (run_state (Auth_Login example_outside
     (NewServices_Auth example_outside (example_config\<lparr>MaxFailedAttempts := 2\<rparr>)) ''ann@x'' ''secret'') w') = Inl account_locked"
proof -
  let ?u = "scanUser (example_row 2 ''ann@x'' Member True)" and ?cfg = "example_config\<lparr>MaxFailedAttempts := 2\<rparr>"
  have max: "sint (MaxFailedAttempts ?cfg) = 2" by simp
  then have max31: "sint (MaxFailedAttempts ?cfg) < 2 ^ 31" by simp
  have u: "uEmail ?u = norm_email (unicode_lower example_outside) ''ann@x''" "uIsActive ?u"
      "\<forall>n \<ge> ticks example_world. \<not> IsLocked (now_at example_outside n) ?u"
      "\<forall>p \<in> set [''x'', ''y'']. \<not> bcrypt_Compare example_outside (uPasswordHash ?u) p"
      "uFailedAttempts ?u + int (length [''x'', ''y'']) = sint (MaxFailedAttempts ?cfg)"
    using max by (simp_all add: example_row_def IsLocked_def)
  obtain w' :: "DB world" and v n where w': "single_node (store w')" "users_view (store w') = (users_view (store example_world))(2 \<mapsto> v)"
      "same_account ?u v" "ticks w' = n + 2"
    and later: "\<forall>(w2 :: DB world) v2 pw. single_node (store w2) \<longrightarrow> users_view (store w2) 2 = Some v2 \<longrightarrow>
         uEmail v2 = uEmail v \<longrightarrow> uIsActive v2 \<longrightarrow> uLockedUntil v2 = uLockedUntil v \<longrightarrow>
         now_at example_outside (Suc (ticks w2)) < pg_time example_outside (time_Add (now_at example_outside n) (30 * time_Minute)) \<longrightarrow>
         (\<exists>w3. run_state (Auth_Login (healthy example_outside) (NewServices_Auth (healthy example_outside) ?cfg) ''ann@x'' pw) w2 =
             (Inl account_locked, w3) \<and> single_node (store w3) \<and> users_view (store w3) = users_view (store w2))"
    using Login_lockout [OF example_good example_users(2) u(1-4) list.distinct(2) u(5) max31] by blast
  have "uIsActive v" using w'(3) u(2) by (simp add: same_account_def)
  moreover have "now_at example_outside (Suc (ticks w')) < pg_time example_outside (time_Add (now_at example_outside n) (30 * time_Minute))"
    using w'(4) by (simp add: time_Add_def time_Minute_def)
  ultimately show ?thesis
    using later [rule_format, of w' v "''secret''"] w'(1,2) by (intro exI [of _ w']) auto
qed

end
