(* ===== verification/AuthFlows.thy ===== *)
theory AuthFlows
  imports LoginFacts
begin

text \<open>
  The second factor, the password reset and the invite: what each call has checked when it succeeds,
  what it leaves behind, and how the calls of a flow fit together.
\<close>

section \<open>Runs of the helpers\<close>

lemma run_helpers [simp]:
  "run_state (parse_purpose L cfg tok p) w =
     (case Parse (jwt L) (now_at L (ticks w)) tok (AppSecret cfg) of
        Inl _ \<Rightarrow> None | Inr c \<Rightarrow> if cPurpose c \<noteq> p then None else Some c, w\<lparr>ticks := Suc (ticks w)\<rparr>)"
  "run_state (totp_check L code secret) w =
     (totp_Validate L (now_at L (ticks w)) code secret, w\<lparr>ticks := Suc (ticks w)\<rparr>)"
  "run_state (bcrypt_hash L pw) w =
     (bcrypt_Generate L (ticks w) pw (bcrypt_DefaultCost L), w\<lparr>ticks := Suc (ticks w)\<rparr>)"
  "run_state (auth_IssuePurposeToken L secret u email purpose ttl) w =
     (IssuePurposeToken (jwt L) (now_at L (ticks w)) secret u email purpose ttl, w\<lparr>ticks := Suc (ticks w)\<rparr>)"
  by (simp_all add: parse_purpose_def auth_Parse_def totp_check_def bcrypt_hash_def
      auth_IssuePurposeToken_def split: sum.split)

text \<open>A session token for the stored role and nothing else.\<close>

definition session_for :: "outside \<Rightarrow> Config \<Rightarrow> User \<Rightarrow> LoginResult \<Rightarrow> bool" where
  "session_for L cfg u lr \<longleftrightarrow>
     lrMFARequired lr = False \<and> lrTOTPSetupRequired lr = False \<and>
     (\<forall>now c. Parse (jwt L) now (lrAccessToken lr) (AppSecret cfg) = Inr c \<longrightarrow>
        cUserID c = uID u \<and> cEmail c = uEmail u \<and> cRole c = uRole u \<and>
        cPermissions c = RolePermissions (uRole u) \<and> cPurpose c = PurposeSession \<and> now < lrExpiresAt lr)"

lemma issueSession_run:
  assumes "run_state (issueSession L s u) w = (Inr lr, w')" "jwt_laws (jwt L)"
  shows "session_for L (as_cfg s) u lr \<and> w' = w\<lparr>ticks := Suc (ticks w)\<rparr>"
proof -
  obtain tok expires where tok: "IssueSessionToken (jwt L) (now_at L (ticks w)) (AppSecret (as_cfg s)) (uID u)
      (uEmail u) (uRole u) (RolePermissions (uRole u)) (JWTExpiryHours (as_cfg s) * time_Hour) = (Inr tok, expires)"
    and lr: "lr = no_result\<lparr>lrAccessToken := tok, lrExpiresAt := expires\<rparr>" and w': "w' = w\<lparr>ticks := Suc (ticks w)\<rparr>"
    using assms(1) by (auto simp: issueSession_def Let_def split: prod.splits sum.splits)
  have "now < expires" if "now < NewNumericDate (jwt L) expires" for now
    using that numeric_date_bounds(1) [OF assms(2), of expires] by simp
  with issued_session [OF assms(2) tok] lr w' show ?thesis
    by (auto simp: session_for_def no_result_def)
qed

section \<open>Over the contracts\<close>

context auth_service
begin

lemma VerifyTOTP_success:
  assumes good: "good (store w)" and laws: "jwt_laws (jwt L)"
    and run: "run_state (Auth_VerifyTOTP L s tok code) w = (Inr lr, w')"
  obtains c u x n where "Parse (jwt L) (now_at L (ticks w)) tok (AppSecret (as_cfg s)) = Inr c"
    "cPurpose c = PurposeMFA" "tbl (store w) (cUserID c) = Some u" "uIsActive u" "uTOTPSecret u = Some x"
    "totp_Validate L (now_at L n) (TrimSpace code) x" "ticks w \<le> n" "n < ticks w'"
    "session_for L (as_cfg s) u lr"
proof -
  let ?w = "w\<lparr>ticks := Suc (ticks w)\<rparr>"
  obtain c where c: "Parse (jwt L) (now_at L (ticks w)) tok (AppSecret (as_cfg s)) = Inr c" "cPurpose c = PurposeMFA"
    using run by (auto simp: Auth_VerifyTOTP_def split: sum.splits if_splits)
  obtain r w1 where find: "run_state (users_FindByID R (cUserID c)) ?w = (r, w1)" by fastforce
  have g: "good (store ?w)" using good by simp
  note F = FindByID_run [OF g find]
  obtain u where r: "r = Inr u"
    using run c find by (cases r) (auto simp: Auth_VerifyTOTP_def)
  with F have u: "tbl (store w) (cUserID c) = Some u" and ticks: "ticks w \<le> ticks w1"
    by (auto simp: same_but_store_def)
  obtain x where x: "uIsActive u" "uTOTPSecret u = Some x" "totp_Validate L (now_at L (ticks w1)) (TrimSpace code) x"
    and session: "run_state (issueSession L s u) (w1\<lparr>ticks := Suc (ticks w1)\<rparr>) = (Inr lr, w')"
    using run c find r by (auto simp: Auth_VerifyTOTP_def split: if_splits option.splits)
  from issueSession_run [OF session laws] show thesis
    by (intro that [OF c u x(1-3) ticks]) auto
qed

lemma ConfirmTOTP_success:
  assumes good: "good (store w)" and laws: "jwt_laws (jwt L)"
    and run: "run_state (Auth_ConfirmTOTP L s tok secret code) w = (Inr lr, w')"
  obtains c u v n where "Parse (jwt L) (now_at L (ticks w)) tok (AppSecret (as_cfg s)) = Inr c"
    "cPurpose c = PurposeTOTPSetup" "tbl (store w) (cUserID c) = Some u" "uIsActive u"
    "totp_Validate L (now_at L n) (TrimSpace code) secret" "ticks w \<le> n" "n < ticks w'"
    "tbl (store w') = (tbl (store w))(cUserID c \<mapsto> v)" "same_but_totp u v"
    "uTOTPSecret v = Some secret" "uTOTPEnabled v" "session_for L (as_cfg s) v lr"
proof -
  let ?w = "w\<lparr>ticks := Suc (ticks w)\<rparr>"
  obtain c where c: "Parse (jwt L) (now_at L (ticks w)) tok (AppSecret (as_cfg s)) = Inr c" "cPurpose c = PurposeTOTPSetup"
    using run by (auto simp: Auth_ConfirmTOTP_def split: sum.splits if_splits)
  obtain r w1 where find: "run_state (users_FindByID R (cUserID c)) ?w = (r, w1)" by fastforce
  have g: "good (store ?w)" using good by simp
  note F = FindByID_run [OF g find]
  obtain u where r: "r = Inr u"
    using run c find by (cases r) (auto simp: Auth_ConfirmTOTP_def)
  with F have u: "tbl (store w) (cUserID c) = Some u" and t1: "tbl (store w1) = tbl (store w)" "good (store w1)"
    and ticks: "ticks w \<le> ticks w1"
    by (auto simp: same_but_store_def)
  have id: "uID u = cUserID c" using key_id [OF good u] .
  let ?w1 = "w1\<lparr>ticks := Suc (ticks w1)\<rparr>"
  have x: "uIsActive u" "totp_Validate L (now_at L (ticks w1)) (TrimSpace code) secret"
    using run c find r by (auto simp: Auth_ConfirmTOTP_def split: if_splits)
  obtain e w2 where set: "run_state (users_SetTOTP R (cUserID c) secret True) ?w1 = (e, w2)" by fastforce
  have "e = None" using run c find r x set id by (cases e) (auto simp: Auth_ConfirmTOTP_def)
  have g1: "good (store ?w1)" using t1 by simp
  from SetTOTP_run [OF g1 set] \<open>e = None\<close> obtain t where
    t2: "good (store w2)" "tbl (store w2) = (tbl (store w))(cUserID c \<mapsto>
        u\<lparr>uTOTPSecret := Some secret, uTOTPEnabled := True, uUpdatedAt := t\<rparr>)"
    and ticks2: "ticks w1 < ticks w2"
    using t1 u by (auto simp: upd_user_def same_but_store_def)
  let ?v = "u\<lparr>uTOTPSecret := Some secret, uTOTPEnabled := True, uUpdatedAt := t\<rparr>"
  obtain r2 w3 where find2: "run_state (users_FindByID R (cUserID c)) w2 = (r2, w3)" by fastforce
  note F2 = FindByID_run [OF t2(1) find2]
  obtain v where r2: "r2 = Inr v" and session: "run_state (issueSession L s v) w3 = (Inr lr, w')"
    using run c find r x set id \<open>e = None\<close> find2 by (cases r2) (auto simp: Auth_ConfirmTOTP_def)
  from F2 r2 t2(2) have v: "v = ?v" and t3: "tbl (store w3) = tbl (store w2)" and ticks3: "ticks w2 \<le> ticks w3"
    by (auto simp: same_but_store_def)
  from issueSession_run [OF session laws] have S: "session_for L (as_cfg s) v lr" "w' = w3\<lparr>ticks := Suc (ticks w3)\<rparr>"
    by auto
  show thesis
    by (rule that [OF c u x(1,2) ticks, of v])
      (use S ticks2 ticks3 t2(2) t3 v in \<open>auto simp: same_but_totp_def\<close>)
qed

text \<open>Two calls of one service: what a later one sees of the other's tables.\<close>

lemma FindByEmail_resets:
  "run_state (users_FindByEmail R e) w = (r, w') \<Longrightarrow> rtbl (store w') = rtbl (store w)"
  by (rule same_viewD [OF users_keep_resets(3)])

lemma FindByUserID_users:
  "run_state (resets_FindByUserID P u) w = (q, w') \<Longrightarrow> tbl (store w') = tbl (store w)"
  by (rule same_viewD [OF resets_keep_users(2)])

lemma VerifyResetEmail_success:
  assumes good: "good (store w)"
    and run: "run_state (Auth_VerifyResetEmail L s email code) w = (Inr tok, w')"
  obtains u p t n k ttl where "tbl (store w) (uID u) = Some u" "uEmail u = norm (norm_email (unicode_lower L) email)"
    "length (TrimSpace code) = 6" "rtbl (store w) (prID p) = Some p" "prUserID p = uID u" "prUsedAt p = None"
    "\<not> IsExpired (now_at L n) p" "ticks w \<le> n" "n < ticks w'" "prOTPHash p = otp_hash L (TrimSpace code)"
    "rtbl (store w') = (rtbl (store w))(prID p \<mapsto> p\<lparr>prUsedAt := Some t\<rparr>)" "good (store w')"
    "IssuePurposeToken (jwt L) (now_at L k) (AppSecret (as_cfg s)) (uID u) (uEmail u) PurposePasswordReset ttl = Inr tok"
proof -
  let ?ttl = "PasswordResetJWTMinutes (as_cfg s) * time_Minute"
  define ttl where "ttl = (if sint ?ttl \<le> 0 then 30 * time_Minute else ?ttl)"
  have len: "length (TrimSpace code) = 6"
    using run by (auto simp: Auth_VerifyResetEmail_def Let_def split: if_splits)
  obtain r w1 where find: "run_state (users_FindByEmail R (norm_email (unicode_lower L) email)) w = (r, w1)" by fastforce
  obtain u where r: "r = Inr u"
    using run len find by (cases r) (auto simp: Auth_VerifyResetEmail_def Let_def)
  from FindByEmail_run [OF good find] r have u: "tbl (store w) (uID u) = Some u"
      "uEmail u = norm (norm_email (unicode_lower L) email)"
    and g1: "good (store w1)" and t1: "ticks w \<le> ticks w1"
    by (auto simp: same_but_store_def)
  obtain q w2 where find2: "run_state (resets_FindByUserID P (uID u)) w1 = (q, w2)" by fastforce
  obtain p where q: "q = Inr p"
    using run len find r find2 by (cases q) (auto simp: Auth_VerifyResetEmail_def Let_def)
  have rt1: "rtbl (store w1) = rtbl (store w)" by (rule FindByEmail_resets [OF find])
  from resets_FindByUserID_run [OF g1 find2] q have p: "rtbl (store w) (prID p) = Some p" "prUserID p = uID u"
      "prUsedAt p = None" and g2: "good (store w2)" and rt2: "rtbl (store w2) = rtbl (store w)"
    and t2: "ticks w1 \<le> ticks w2"
    using rt1 by (auto simp: same_but_store_def)
  let ?w2 = "w2\<lparr>ticks := Suc (ticks w2)\<rparr>"
  have fresh: "\<not> IsExpired (now_at L (ticks w2)) p" "prOTPHash p = otp_hash L (TrimSpace code)"
    using run len find r find2 q by (auto simp: Auth_VerifyResetEmail_def Let_def split: if_splits)
  obtain e w3 where cons: "run_state (resets_Consume P (prID p)) ?w2 = (e, w3)" by fastforce
  have e: "e = None" and issue: "run_state (auth_IssuePurposeToken L (AppSecret (as_cfg s)) (uID u) (uEmail u)
      PurposePasswordReset ttl) w3 = (Inr tok, w')"
    using run len find r find2 q fresh p(3) cons unfolding ttl_def
    by (cases e; auto simp: Auth_VerifyResetEmail_def Let_def IsConsumed_def)+
  have g2': "good (store ?w2)" using g2 by simp
  from resets_Consume_run [OF g2' cons] e rt2 p obtain t where g3: "good (store w3)"
    and rt3: "rtbl (store w3) = (rtbl (store w))(prID p \<mapsto> p\<lparr>prUsedAt := Some t\<rparr>)" and t3: "ticks w2 < ticks w3"
    by (auto simp: same_but_store_def)
  have w': "w' = w3\<lparr>ticks := Suc (ticks w3)\<rparr>"
    and tok: "IssuePurposeToken (jwt L) (now_at L (ticks w3)) (AppSecret (as_cfg s)) (uID u) (uEmail u)
      PurposePasswordReset ttl = Inr tok"
    using issue by auto
  show thesis
    by (rule that [OF u len p fresh(1) _ _ fresh(2) _ _ tok]) (use t1 t2 t3 rt3 g3 w' in auto)
qed

lemma CompletePasswordReset_success:
  assumes good: "good (store w)"
    and run: "run_state (Auth_CompletePasswordReset L s tok new code) w = (re, w')"
    and acts: "re = None \<or> tbl (store w') \<noteq> tbl (store w)"
  obtains c u hash m t where "Parse (jwt L) (now_at L (ticks w)) tok (AppSecret (as_cfg s)) = Inr c"
    "cPurpose c = PurposePasswordReset" "tbl (store w) (cUserID c) = Some u"
    "\<And>x. uTOTPEnabled u \<Longrightarrow> uTOTPSecret u = Some x \<Longrightarrow>
       \<exists>n. ticks w \<le> n \<and> n < ticks w' \<and> totp_Validate L (now_at L n) (TrimSpace code) x"
    "10 \<le> length new" "bcrypt_Generate L m new (bcrypt_DefaultCost L) = Inr hash" "good (store w')"
    "tbl (store w') = (tbl (store w))(cUserID c \<mapsto> u\<lparr>uPasswordHash := hash, uUpdatedAt := t\<rparr>)"
proof -
  let ?w = "w\<lparr>ticks := Suc (ticks w)\<rparr>"
  obtain c where c: "Parse (jwt L) (now_at L (ticks w)) tok (AppSecret (as_cfg s)) = Inr c"
      "cPurpose c = PurposePasswordReset"
    using run acts by (auto simp: Auth_CompletePasswordReset_def split: sum.splits if_splits)
  obtain r w1 where find: "run_state (users_FindByID R (cUserID c)) ?w = (r, w1)" by fastforce
  have g: "good (store ?w)" using good by simp
  from FindByID_run [OF g find]
  have t1: "tbl (store w1) = tbl (store w)" "good (store w1)" "ticks w \<le> ticks w1"
    by (simp_all add: same_but_store_def)
  obtain u where r: "r = Inr u"
    using run acts c find t1(1) by (cases r) (auto simp: Auth_CompletePasswordReset_def)
  with FindByID_run [OF g find] have u: "tbl (store w) (cUserID c) = Some u" by auto
  have id: "uID u = cUserID c" using key_id [OF good u] .
  define enrolled where "enrolled = (uTOTPEnabled u \<and> uTOTPSecret u \<noteq> None)"
  define w2 where "w2 = (if enrolled then w1\<lparr>ticks := Suc (ticks w1)\<rparr> else w1)"
  have totp: "totp_Validate L (now_at L (ticks w1)) (TrimSpace code) x" if "uTOTPEnabled u" "uTOTPSecret u = Some x" for x
    using run acts c find r t1(1) that by (auto simp: Auth_CompletePasswordReset_def split: if_splits)
  have len: "10 \<le> length new"
    using run acts c find r t1(1) by (auto simp: Auth_CompletePasswordReset_def split: if_splits option.splits)
  obtain hash where hash: "bcrypt_Generate L (ticks w2) new (bcrypt_DefaultCost L) = Inr hash"
    and upd: "run_state (users_UpdatePassword R (cUserID c) hash) (w2\<lparr>ticks := Suc (ticks w2)\<rparr>) = (re, w')"
    using run acts c find r totp len id t1(1) unfolding w2_def enrolled_def
    by (auto simp: Auth_CompletePasswordReset_def split: if_splits option.splits sum.splits)
  have g2: "good (store (w2\<lparr>ticks := Suc (ticks w2)\<rparr>))" and tb2: "tbl (store w2) = tbl (store w)"
    using t1 by (simp_all add: w2_def)
  from UpdatePassword_run [OF g2 upd] tb2 u acts obtain t where
    "tbl (store w') = (tbl (store w))(cUserID c \<mapsto> u\<lparr>uPasswordHash := hash, uUpdatedAt := t\<rparr>)" "good (store w')"
    and t2: "ticks w2 < ticks w'"
    by (auto simp: upd_user_def same_but_store_def)
  moreover have "ticks w1 \<le> ticks w2" by (simp add: w2_def)
  moreover have "\<exists>n. ticks w \<le> n \<and> n < ticks w' \<and> totp_Validate L (now_at L n) (TrimSpace code) x"
    if "uTOTPEnabled u" "uTOTPSecret u = Some x" for x
    using totp [OF that] t1(3) t2 \<open>ticks w1 \<le> ticks w2\<close> by (intro exI [of _ "ticks w1"]) simp
  ultimately show thesis
    using that [OF c u _ len hash] by blast
qed

text \<open>\<open>AcceptInvite\<close> sets the name and the password and clears the lock; nothing sets \<open>is_active\<close>.\<close>

lemma AcceptInvite_success:
  assumes good: "good (store w)"
    and run: "run_state (Auth_AcceptInvite L s tok name pw) w = (Inr lr, w')"
  obtains c u v hash m k ttl where "Parse (jwt L) (now_at L (ticks w)) tok (AppSecret (as_cfg s)) = Inr c"
    "cPurpose c = PurposeInvite" "10 \<le> length pw" "tbl (store w) (cUserID c) = Some u" "\<not> uIsActive u"
    "bcrypt_Generate L m pw (bcrypt_DefaultCost L) = Inr hash" "good (store w')"
    "tbl (store w') = (tbl (store w))(cUserID c \<mapsto> v)" "same_account u v" "uName v = TrimSpace name"
    "uPasswordHash v = hash" "uFailedAttempts v = 0" "uLockedUntil v = None" "uTOTPSecret v = uTOTPSecret u"
    "lrTOTPSetupRequired lr" "lrAccessToken lr = ''''"
    "IssuePurposeToken (jwt L) (now_at L k) (AppSecret (as_cfg s)) (cUserID c) (uEmail u) PurposeTOTPSetup ttl = Inr (lrSetupToken lr)"
proof -
  let ?w = "w\<lparr>ticks := Suc (ticks w)\<rparr>"
  let ?up = "\<lparr>uuName = Some (TrimSpace name), uuRole = None\<rparr>"
  obtain c where c: "Parse (jwt L) (now_at L (ticks w)) tok (AppSecret (as_cfg s)) = Inr c" "cPurpose c = PurposeInvite"
    and len: "10 \<le> length pw"
    using run by (auto simp: Auth_AcceptInvite_def split: sum.splits if_splits)
  obtain r w1 where find: "run_state (users_FindByID R (cUserID c)) ?w = (r, w1)" by fastforce
  have g: "good (store ?w)" using good by simp
  obtain u where r: "r = Inr u"
    using run c len find by (cases r) (auto simp: Auth_AcceptInvite_def)
  with FindByID_run [OF g find] have u: "tbl (store w) (cUserID c) = Some u"
    and t1: "tbl (store w1) = tbl (store w)" "good (store w1)" by auto
  have id: "uID u = cUserID c" using key_id [OF good u] .
  let ?w1 = "w1\<lparr>ticks := Suc (ticks w1)\<rparr>"
  obtain hash where inactive: "\<not> uIsActive u" and hash: "bcrypt_Generate L (ticks w1) pw (bcrypt_DefaultCost L) = Inr hash"
    using run c len find r by (auto simp: Auth_AcceptInvite_def split: if_splits sum.splits)
  obtain a w2 where a: "run_state (users_Update R (cUserID c) ?up) ?w1 = (a, w2)" by fastforce
  obtain b w3 where b: "run_state (users_UpdatePassword R (cUserID c) hash) w2 = (b, w3)" by fastforce
  obtain d w4 where d: "run_state (users_ClearLock R (cUserID c)) w3 = (d, w4)" by fastforce
  obtain x where a': "a = Inr x"
    using run c len find r inactive hash a id by (cases a) (auto simp: Auth_AcceptInvite_def)
  have b': "b = None"
    using run c len find r inactive hash a a' b id by (cases b) (auto simp: Auth_AcceptInvite_def)
  have d': "d = None"
    using run c len find r inactive hash a a' b b' d id by (cases d) (auto simp: Auth_AcceptInvite_def)
  define ttl where "ttl = TOTPSetupExpiryMinutes (as_cfg s) * time_Minute"
  obtain st where st: "IssuePurposeToken (jwt L) (now_at L (ticks w4)) (AppSecret (as_cfg s)) (cUserID c) (uEmail u)
      PurposeTOTPSetup ttl = Inr st"
    and lr: "lr = no_result\<lparr>lrTOTPSetupRequired := True, lrSetupToken := st\<rparr>" and w': "w' = w4\<lparr>ticks := Suc (ticks w4)\<rparr>"
    using run c len find r inactive hash a a' b b' d d' id unfolding ttl_def
    by (auto simp: Auth_AcceptInvite_def Let_def split: sum.splits)
  have g1: "good (store ?w1)" using t1 by simp
  from Update_run [OF g1 a] a' t1 u have u2: "good (store w2)" "tbl (store w2) (cUserID c) = Some x"
      "x\<lparr>uUpdatedAt := 0\<rparr> = (apply_update ?up u)\<lparr>uUpdatedAt := 0\<rparr>"
      "upd_user (cUserID c) (apply_update ?up) (tbl (store w)) (tbl (store w2)) \<or> tbl (store w2) = tbl (store w)"
    by auto
  then have x: "tbl (store w2) = (tbl (store w))(cUserID c \<mapsto> x)"
    using u by (auto simp: upd_user_def fun_upd_idem)
  from UpdatePassword_run [OF u2(1) b] b' x obtain u3 t3 where u3: "good (store w3)"
      "tbl (store w3) = (tbl (store w))(cUserID c \<mapsto> u3)" "u3 = x\<lparr>uPasswordHash := hash, uUpdatedAt := t3\<rparr>"
    by (auto simp: upd_user_def)
  from ClearLock_run [OF u3(1) d] d' u3(2) obtain u4 t4 where u4: "good (store w4)"
      "tbl (store w4) = (tbl (store w))(cUserID c \<mapsto> u4)"
      "u4 = u3\<lparr>uFailedAttempts := 0, uLockedUntil := None, uUpdatedAt := t4\<rparr>"
    by (auto simp: upd_user_def)
  have v: "same_account u u4" "uName u4 = TrimSpace name" "uTOTPSecret u4 = uTOTPSecret u"
      "uPasswordHash u4 = hash" "uFailedAttempts u4 = 0" "uLockedUntil u4 = None"
    using u2(3) unfolding u4(3) u3(3)
    by (cases x; cases u; simp add: same_account_def apply_update_def)+
  have lr': "lrTOTPSetupRequired lr" "lrAccessToken lr = ''''" "lrSetupToken lr = st"
    unfolding lr by (simp_all add: no_result_def)
  have w4: "good (store w')" "tbl (store w') = (tbl (store w))(cUserID c \<mapsto> u4)"
    using u4 w' by simp_all
  show thesis
    by (rule that [OF c len u inactive hash w4 v(1,2,4,5,6,3) lr'(1,2) st [folded lr'(3)]])
qed

text \<open>A code is sent only for an active account, and its hash is what the new record holds.\<close>

lemma ForgotPassword_sent:
  assumes good: "good (store w)" and notify: "as_notify s = logNotifier"
    and run: "run_state (Auth_ForgotPassword L s email) w = (re, w')" and sent: "outbox w' \<noteq> outbox w"
  obtains u k p n v v' where "tbl (store w) (uID u) = Some u" "uEmail u = norm (norm_email (unicode_lower L) email)"
    "uIsActive u" "k < 1000000" "outbox w' = outbox w @ [(uEmail u, Sprintf_06d k)]" "re = None"
    "good (store v)" "tbl (store v) = tbl (store w)" "store w' = store v'" "ticks w \<le> n" "n < ticks w'"
    "run_state (resets_Create P \<lparr>cpUserID = uID u, cpOTPHash = otp_hash L (Sprintf_06d k),
       cpExpiresAt = time_Add (now_at L n) (PasswordResetOTPMinutes (as_cfg s) * time_Minute)\<rparr>) v = (Inr p, v')"
proof -
  obtain r w1 where find: "run_state (users_FindByEmail R (norm_email (unicode_lower L) email)) w = (r, w1)" by fastforce
  note F = FindByEmail_run [OF good find]
  then have out1: "outbox w1 = outbox w" and t1: "ticks w \<le> ticks w1" and g1: "good (store w1)"
      and tb1: "tbl (store w1) = tbl (store w)"
    by (simp_all add: same_but_store_def)
  obtain u where r: "r = Inr u" and active: "uIsActive u"
    using run find sent out1 by (auto simp: Auth_ForgotPassword_def split: sum.splits if_splits)
  with F have u: "tbl (store w) (uID u) = Some u" "uEmail u = norm (norm_email (unicode_lower L) email)" by auto
  obtain k where k: "rand_Int L (ticks w1) = Inr k"
    using run find r active sent out1
    by (cases "rand_Int L (ticks w1)") (auto simp: Auth_ForgotPassword_def randomOTP6_def crypto_rand_Int_def)
  let ?v = "w1\<lparr>ticks := Suc (Suc (ticks w1))\<rparr>" and ?n = "Suc (ticks w1)" and ?otp = "Sprintf_06d (k mod 1000000)"
  let ?cp = "\<lparr>cpUserID = uID u, cpOTPHash = otp_hash L ?otp,
       cpExpiresAt = time_Add (now_at L ?n) (PasswordResetOTPMinutes (as_cfg s) * time_Minute)\<rparr>"
  obtain c v' where create: "run_state (resets_Create P ?cp) ?v = (c, v')" by fastforce
  have gv: "good (store ?v)" using g1 by simp
  from resets_Create_run [OF gv create] have out2: "outbox v' = outbox w" and t2: "Suc (ticks w1) < ticks v'"
    by (auto simp: same_but_store_def out1)
  obtain p where c: "c = Inr p"
    using run find r active k create sent out2
    by (cases c) (auto simp: Auth_ForgotPassword_def randomOTP6_def crypto_rand_Int_def Let_def)
  have w': "w' = v'\<lparr>outbox := outbox w @ [(uEmail u, ?otp)]\<rparr>" "re = None"
    using run find r active k create c notify out2
    by (auto simp: Auth_ForgotPassword_def randomOTP6_def crypto_rand_Int_def Let_def)
  show thesis
    by (rule that [OF u active _ _ w'(2) gv _ _ _ _ create [unfolded c]]) (use w' t1 t2 tb1 in auto)
qed

end

text \<open>An accepted code is answered by the signing of a password-reset token at a clock reading.\<close>

definition reset_answer :: "outside \<Rightarrow> Config \<Rightarrow> User \<Rightarrow> time \<Rightarrow> goerr + string" where
  "reset_answer L cfg u now =
     (let ttl = PasswordResetJWTMinutes cfg * time_Minute
      in IssuePurposeToken (jwt L) now (AppSecret cfg) (uID u) (uEmail u) PurposePasswordReset
           (if sint ttl \<le> 0 then 30 * time_Minute else ttl))"

context reliable_auth_service
begin

text \<open>The code that was sent is accepted until it expires, and no code is accepted after it.\<close>

lemma VerifyResetEmail_accepts:
  assumes good: "good (store w)" and u: "tbl (store w) (uID u) = Some u"
      "uEmail u = norm (norm_email (unicode_lower L) email)"
    and p: "rtbl (store w) (prID p) = Some p" "prUserID p = uID u" "prUsedAt p = None"
      "\<forall>i q. rtbl (store w) i = Some q \<longrightarrow> prUserID q = uID u \<longrightarrow> q = p"
    and code: "prOTPHash p = otp_hash L code" "length code = 6" "TrimSpace code = code"
  obtains w1 w2 where "run_state (users_FindByEmail R (norm_email (unicode_lower L) email)) w = (Inr u, w1)"
    "run_state (resets_FindByUserID P (uID u)) w1 = (Inr p, w2)"
    "IsExpired (now_at L (ticks w2)) p \<Longrightarrow>
       fst (run_state (Auth_VerifyResetEmail L s email code) w) =
         Inl (Unauthorized ''OTP has expired or already been used'')"
    "\<not> IsExpired (now_at L (ticks w2)) p \<Longrightarrow> \<exists>r w'.
       run_state (Auth_VerifyResetEmail L s email code) w = (r, w') \<and> good (store w') \<and>
       (\<exists>n \<ge> ticks w. r = reset_answer L (as_cfg s) u (now_at L n)) \<and> tbl (store w') = tbl (store w) \<and>
       (\<exists>t. rtbl (store w') = (rtbl (store w))(prID p \<mapsto> p\<lparr>prUsedAt := Some t\<rparr>))"
proof -
  obtain w1 where w1: "run_state (users_FindByEmail R (norm_email (unicode_lower L) email)) w = (Inr u, w1)"
      "good (store w1)" "tbl (store w1) = tbl (store w)"
    by (rule find_email [OF good u])
  have rt1: "rtbl (store w1) = rtbl (store w)" by (rule FindByEmail_resets [OF w1(1)])
  obtain q w2 where q: "run_state (resets_FindByUserID P (uID u)) w1 = (q, w2)" by fastforce
  have "\<forall>j x. rtbl (store w1) j = Some x \<longrightarrow> prUserID x = uID u \<longrightarrow> prUsedAt x = None \<longrightarrow> j = prID p"
    using p(4) reset_key [OF good] unfolding rt1 by blast
  from resets_FindByUserID_total [OF w1(2) _ p(2,3) this] p(1) q have q': "q = Inr p"
    by (simp add: rt1)
  from resets_FindByUserID_run [OF w1(2) q] have w2: "good (store w2)" "rtbl (store w2) = rtbl (store w)"
    by (simp_all add: rt1)
  have tb2: "tbl (store w2) = tbl (store w)" using FindByUserID_users [OF q] w1(3) by simp
  let ?w2 = "w2\<lparr>ticks := Suc (ticks w2)\<rparr>"
  obtain e w3 where cons: "run_state (resets_Consume P (prID p)) ?w2 = (e, w3)" by fastforce
  have g2: "good (store ?w2)" "rtbl (store ?w2) (prID p) = Some p" using w2 p(1) by simp_all
  have e: "e = None" using resets_Consume_total [OF g2 p(3)] cons by (metis fst_conv)
  with resets_Consume_run [OF g2(1) cons] g2(2) w2(2) obtain t where w3: "good (store w3)"
      "rtbl (store w3) = (rtbl (store w))(prID p \<mapsto> p\<lparr>prUsedAt := Some t\<rparr>)"
    by auto
  have tb3: "tbl (store w3) = tbl (store w)"
    using same_viewD [OF resets_keep_users(4) cons] tb2 by simp
  have le: "ticks w \<le> ticks w3"
    using FindByEmail_run [OF good w1(1)] resets_FindByUserID_run [OF w1(2) q] resets_Consume_run [OF g2(1) cons]
    by (simp add: same_but_store_def)
  define ttl where "ttl = (let ttl = PasswordResetJWTMinutes (as_cfg s) * time_Minute
      in if sint ttl \<le> 0 then 30 * time_Minute else ttl)"
  show thesis
  proof (rule that [of w1 w2])
    assume "IsExpired (now_at L (ticks w2)) p"
    then show "fst (run_state (Auth_VerifyResetEmail L s email code) w) =
         Inl (Unauthorized ''OTP has expired or already been used'')"
      using w1(1) q q' code by (simp add: Auth_VerifyResetEmail_def Let_def)
  next
    assume "\<not> IsExpired (now_at L (ticks w2)) p"
    then have "run_state (Auth_VerifyResetEmail L s email code) w =
        run_state (auth_IssuePurposeToken L (AppSecret (as_cfg s)) (uID u) (uEmail u) PurposePasswordReset ttl) w3"
      using w1(1) q q' code p(3) cons e unfolding ttl_def
      by (simp add: Auth_VerifyResetEmail_def Let_def IsConsumed_def)
    then show "\<exists>r w'. run_state (Auth_VerifyResetEmail L s email code) w = (r, w') \<and> good (store w') \<and>
       (\<exists>n \<ge> ticks w. r = reset_answer L (as_cfg s) u (now_at L n)) \<and> tbl (store w') = tbl (store w) \<and>
       (\<exists>t. rtbl (store w') = (rtbl (store w))(prID p \<mapsto> p\<lparr>prUsedAt := Some t\<rparr>))"
      using w3 tb3 le unfolding ttl_def
      by (auto simp: auth_IssuePurposeToken_def reset_answer_def Let_def intro: exI [of _ "ticks w3"])
  qed (use w1 q q' in simp_all)
qed

text \<open>Without a pending record every code is refused.\<close>

lemma VerifyResetEmail_refuses:
  assumes good: "good (store w)" and u: "tbl (store w) (uID u) = Some u"
      "uEmail u = norm (norm_email (unicode_lower L) email)"
    and none: "\<forall>i q. rtbl (store w) i = Some q \<longrightarrow> prUserID q = uID u \<longrightarrow> prUsedAt q \<noteq> None"
  shows "\<exists>e. fst (run_state (Auth_VerifyResetEmail L s email code) w) = Inl e"
proof -
  obtain w1 where w1: "run_state (users_FindByEmail R (norm_email (unicode_lower L) email)) w = (Inr u, w1)"
      "good (store w1)" "tbl (store w1) = tbl (store w)"
    by (rule find_email [OF good u])
  have rt1: "rtbl (store w1) = rtbl (store w)" by (rule FindByEmail_resets [OF w1(1)])
  obtain q w2 where q: "run_state (resets_FindByUserID P (uID u)) w1 = (q, w2)" by fastforce
  from resets_FindByUserID_run [OF w1(2) q] none rt1 obtain e where "q = Inl e" by (cases q) fastforce+
  with w1 q show ?thesis by (auto simp: Auth_VerifyResetEmail_def Let_def)
qed

text \<open>An inactive account gets no session from either door.\<close>

lemma inactive_refused:
  assumes good: "good (store w)" and u: "tbl (store w) i = Some u" "\<not> uIsActive u"
  shows "uEmail u = norm (TrimSpace email) \<Longrightarrow>
      fst (run_state (Auth_Login L s email pw) w) = Inl (Sentinel ErrUnauthorized)"
    and "(\<And>c. Parse (jwt L) (now_at L (ticks w)) tok (AppSecret (as_cfg s)) = Inr c \<Longrightarrow> cUserID c = i) \<Longrightarrow>
      fst (run_state (Auth_ConfirmTOTP L s tok secret code) w) = Inl (Sentinel ErrUnauthorized)"
proof -
  assume "uEmail u = norm (TrimSpace email)"
  from Login_refused [OF good u(1) this, of L pw] u(2)
  show "fst (run_state (Auth_Login L s email pw) w) = Inl (Sentinel ErrUnauthorized)" by (metis fst_conv)
next
  assume tok: "\<And>c. Parse (jwt L) (now_at L (ticks w)) tok (AppSecret (as_cfg s)) = Inr c \<Longrightarrow> cUserID c = i"
  have g: "good (store (w\<lparr>ticks := Suc (ticks w)\<rparr>))" "tbl (store (w\<lparr>ticks := Suc (ticks w)\<rparr>)) i = Some u"
    using good u by simp_all
  obtain w1 where "run_state (users_FindByID R i) (w\<lparr>ticks := Suc (ticks w)\<rparr>) = (Inr u, w1)"
    by (rule find_id [OF g])
  with tok u(2) show "fst (run_state (Auth_ConfirmTOTP L s tok secret code) w) = Inl (Sentinel ErrUnauthorized)"
    by (auto simp: Auth_ConfirmTOTP_def split: sum.split)
qed

end


section \<open>Examples\<close>

text \<open>The example account with a second factor enrolled, and its tokens at the start of the clock.\<close>

definition totp_world :: "DB world" where
  "totp_world = example_world\<lparr>store := (store example_world)\<lparr>primary := example_tables\<lparr>users :=
     [(example_row 2 ''ann@x'' Member True)\<lparr>c_totp_secret := Some ''123'', c_totp_enabled := True\<rparr>]\<rparr>\<rparr>\<rparr>"

lemma totp_world_good [simp]: "single_node (store totp_world)"
  by (simp add: totp_world_def single_node_def wf_tables_def example_defs)

text \<open>A pending reset of the example account.\<close>

definition reset_world :: "DB world" where
  "reset_world = example_world\<lparr>store := (store example_world)\<lparr>primary := example_tables\<lparr>password_resets :=
     [\<lparr>r_id = 9, r_user_id = 2, r_otp_hash = hex_EncodeToString ''123456'', r_token = None,
       r_expires_at = 1000, r_used_at = None, r_created_at = 0\<rparr>]\<rparr>\<rparr>\<rparr>"

lemma reset_world_good [simp]: "single_node (store reset_world)"
  by (simp add: reset_world_def single_node_def wf_tables_def example_defs)

lemma example_TrimSpace [simp]: "TrimSpace ''123'' = ''123''" "TrimSpace ''77'' = ''77''"
    "TrimSpace ''123456'' = ''123456''" "TrimSpace ''new-password'' = ''new-password''" "TrimSpace ''Ann'' = ''Ann''"
  by code_simp+

lemma mfa_parses:
  assumes "IssueMFAToken example_jwt 0 secret u time_Minute = Inr tok"
  shows "\<exists>c. Parse example_jwt 0 tok secret = Inr c \<and> cUserID c = u \<and> cPurpose c = PurposeMFA"
  using assms by (auto simp: IssueMFAToken_def Sign_def example_jwt_def Parse_def keyfunc_def
      time_Add_def time_Minute_def Itoa_def)

lemma purpose_parses:
  assumes "IssuePurposeToken example_jwt 0 secret u email p time_Minute = Inr tok"
  shows "\<exists>c. Parse example_jwt 0 tok secret = Inr c \<and> cUserID c = u \<and> cPurpose c = p"
  using assms by (auto simp: IssuePurposeToken_def Sign_def example_jwt_def Parse_def keyfunc_def
      time_Add_def time_Minute_def Itoa_def)

section \<open>Properties\<close>

text \<open>C11: a session from \<open>VerifyTOTP\<close> means that the MFA token parsed when the call started, that its user
  is a stored, active account with a TOTP secret, and that the trimmed code was valid for that secret
  at a clock reading during the call. The session is for that user with the permissions of the stored
  role, and the call changes no user, whatever faults the database has.\<close>

theorem VerifyTOTP_session:
  assumes "single_node (store w)" and "jwt_laws (jwt L)"
    and "run_state (Auth_VerifyTOTP L (NewServices_Auth L cfg) tok code) w = (Inr lr, w')"
  shows "\<exists>c u x n. Parse (jwt L) (now_at L (ticks w)) tok (AppSecret cfg) = Inr c \<and> cPurpose c = PurposeMFA \<and>
    users_view (store w) (cUserID c) = Some u \<and> uIsActive u \<and> uTOTPSecret u = Some x \<and>
    ticks w \<le> n \<and> n < ticks w' \<and> totp_Validate L (now_at L n) (TrimSpace code) x \<and>
    session_for L cfg u lr \<and> users_view (store w') = users_view (store w)"
proof -
  have "users_view (store w') = users_view (store w)"
    using pg.users_evolveD [OF pgs.VerifyTOTP_evolves assms(1,3)] by (simp add: fun_eq_iff)
  with pgs.VerifyTOTP_success [OF assms] show ?thesis
    by (metis NewServices_Auth_simps(1))
qed

theorem VerifyTOTP_session_witness:
  "\<exists>tok lr w'. run_state (Auth_VerifyTOTP example_outside (NewServices_Auth example_outside example_config) tok ''123'')
     totp_world = (Inr lr, w') \<and> users_view (store w') = users_view (store totp_world)"
proof -
  obtain tok where tok: "IssueMFAToken example_jwt 0 (AppSecret example_config) 2 time_Minute = Inr tok"
    by (simp add: IssueMFAToken_def Sign_def example_jwt_def)
  obtain c where c: "Parse example_jwt 0 tok (AppSecret example_config) = Inr c" "cUserID c = 2" "cPurpose c = PurposeMFA"
    using mfa_parses [OF tok] by blast
  have "\<exists>lr w'. run_state (Auth_VerifyTOTP example_outside (NewServices_Auth example_outside example_config) tok ''123'')
     totp_world = (Inr lr, w')"
    using c by (simp add: Auth_VerifyTOTP_def issueSession_def IssueSessionToken_def Sign_def example_jwt_def
        run_defs totp_world_def example_defs)
  then obtain lr w' where run: "run_state (Auth_VerifyTOTP example_outside (NewServices_Auth example_outside example_config) tok ''123'')
     totp_world = (Inr lr, w')" by blast
  with VerifyTOTP_session [OF totp_world_good _ run] show ?thesis by auto
qed

text \<open>C12: a session from \<open>ConfirmTOTP\<close> means that the setup token parsed when the call started, that its
  user is a stored, active account and that the code was valid for the secret in the request at a
  clock reading during the call. Afterwards exactly that account has that secret enrolled; nothing
  else of it and no other account has changed, and the session is for it.\<close>

theorem ConfirmTOTP_session:
  assumes "single_node (store w)" and "jwt_laws (jwt L)"
    and "run_state (Auth_ConfirmTOTP L (NewServices_Auth L cfg) tok secret code) w = (Inr lr, w')"
  shows "\<exists>c u v n. Parse (jwt L) (now_at L (ticks w)) tok (AppSecret cfg) = Inr c \<and> cPurpose c = PurposeTOTPSetup \<and>
    users_view (store w) (cUserID c) = Some u \<and> uIsActive u \<and>
    ticks w \<le> n \<and> n < ticks w' \<and> totp_Validate L (now_at L n) (TrimSpace code) secret \<and>
    users_view (store w') = (users_view (store w))(cUserID c \<mapsto> v) \<and> same_but_totp u v \<and>
    uTOTPSecret v = Some secret \<and> uTOTPEnabled v \<and> session_for L cfg v lr"
  using pgs.ConfirmTOTP_success [OF assms] by (metis NewServices_Auth_simps(1))

theorem ConfirmTOTP_session_witness:
  "\<exists>tok lr w' (v :: User). run_state (Auth_ConfirmTOTP example_outside (NewServices_Auth example_outside example_config) tok ''77'' ''77'')
     example_world = (Inr lr, w') \<and> uTOTPSecret v = Some ''77'' \<and> uTOTPEnabled v"
proof -
  obtain tok where tok: "IssuePurposeToken example_jwt 0 (AppSecret example_config) 2 ''ann@x'' PurposeTOTPSetup time_Minute = Inr tok"
    by (simp add: IssuePurposeToken_def Sign_def example_jwt_def)
  obtain c where c: "Parse example_jwt 0 tok (AppSecret example_config) = Inr c" "cUserID c = 2" "cPurpose c = PurposeTOTPSetup"
    using purpose_parses [OF tok] by blast
  have "\<exists>lr w'. run_state (Auth_ConfirmTOTP example_outside (NewServices_Auth example_outside example_config) tok ''77'' ''77'')
     example_world = (Inr lr, w')"
    using c by (simp add: Auth_ConfirmTOTP_def issueSession_def IssueSessionToken_def Sign_def example_jwt_def
        run_defs example_defs)
  then obtain lr w' where run: "run_state (Auth_ConfirmTOTP example_outside (NewServices_Auth example_outside example_config) tok ''77'' ''77'')
     example_world = (Inr lr, w')" by blast
  from ConfirmTOTP_session [OF example_good _ run] obtain v :: User where "uTOTPSecret v = Some ''77''" "uTOTPEnabled v"
    by auto
  with run show ?thesis by blast
qed


text \<open>The code of the only record of an account, asked for in time, is accepted once, and no code after it.\<close>

lemma sent_code_once:
  assumes good1: "single_node (store w1)" and users1: "users_view (store w1) (uID u) = Some u"
    and u: "uEmail u = norm_email (unicode_lower L) (norm_email (unicode_lower (healthy L)) email)"
    and p: "resets_view (store w1) (prID p) = Some p" and hash: "prOTPHash p = otp_hash (healthy L) (Sprintf_06d k)"
      "prUserID p = uID u" "prUsedAt p = None"
    and only: "\<forall>i q. resets_view (store w1) i = Some q \<longrightarrow> prUserID q = uID u \<longrightarrow> q = p" and k: "k < 1000000"
    and "\<not> time_After (now_at L (ticks w1 + 2)) (prExpiresAt p)"
  shows "\<exists>r w2. run_state (Auth_VerifyResetEmail (healthy L) (NewServices_Auth (healthy L) cfg) email (Sprintf_06d k)) w1 = (r, w2) \<and>
    (\<exists>n \<ge> ticks w1. r = reset_answer L cfg u (now_at L n)) \<and>
    single_node (store w2) \<and> users_view (store w2) = users_view (store w1) \<and>
    (\<exists>t. resets_view (store w2) = (resets_view (store w1))(prID p \<mapsto> p\<lparr>prUsedAt := Some t\<rparr>)) \<and>
    (\<forall>i q. resets_view (store w2) i = Some q \<and> prUserID q = uID u \<longrightarrow> prUsedAt q \<noteq> None)"
proof -
  let ?s = "NewServices_Auth (healthy L) cfg"
  obtain w3 w4 where find: "run_state (users_FindByEmail (NewUserRepository (healthy L)) (norm_email (unicode_lower (healthy L)) email)) w1 = (Inr u, w3)"
      "run_state (resets_FindByUserID (NewPasswordResetRepository (healthy L)) (uID u)) w3 = (Inr p, w4)"
    and accept: "\<not> IsExpired (now_at (healthy L) (ticks w4)) p \<Longrightarrow> \<exists>r w'.
       run_state (Auth_VerifyResetEmail (healthy L) ?s email (Sprintf_06d k)) w1 = (r, w') \<and> single_node (store w') \<and>
       (\<exists>n \<ge> ticks w1. r = reset_answer (healthy L) (as_cfg ?s) u (now_at (healthy L) n)) \<and> users_view (store w') = users_view (store w1) \<and>
       (\<exists>t. resets_view (store w') = (resets_view (store w1))(prID p \<mapsto> p\<lparr>prUsedAt := Some t\<rparr>))"
    using pgsh.VerifyResetEmail_accepts [OF good1 users1 u p hash(2,3) only hash(1)
        length_Sprintf_06d [OF k] trimmed_TrimSpace [OF digits_trimmed [OF digits_06d]]] by metis
  have w3: "w3 = w1\<lparr>ticks := Suc (ticks w1)\<rparr>"
    using find(1) by (auto simp: pgx_users_FindByEmail_run [OF good1] split: option.splits)
  then have "single_node (store w3)" using good1 by simp
  with find(2) w3 have ticks: "ticks w4 = ticks w1 + 2"
    using pgx_resets_FindByUserID_run [of w3 "healthy L" "uID u" "Inr p" w4] by simp
  have "\<not> IsExpired (now_at (healthy L) (ticks w4)) p" using assms(10) ticks by (simp add: IsExpired_def)
  from accept [OF this] obtain r w2 t where r: "run_state (Auth_VerifyResetEmail (healthy L) ?s email (Sprintf_06d k)) w1 = (r, w2)"
     "\<exists>n \<ge> ticks w1. r = reset_answer (healthy L) (as_cfg ?s) u (now_at (healthy L) n)"
    and w2: "single_node (store w2)" "users_view (store w2) = users_view (store w1)"
     "resets_view (store w2) = (resets_view (store w1))(prID p \<mapsto> p\<lparr>prUsedAt := Some t\<rparr>)"
    by blast
  have none: "\<forall>i q. resets_view (store w2) i = Some q \<and> prUserID q = uID u \<longrightarrow> prUsedAt q \<noteq> None"
    using only pgr.reset_key [OF good1] unfolding w2(3) by (auto split: if_splits)
  from r(2) have "\<exists>n \<ge> ticks w1. r = reset_answer L cfg u (now_at L n)" by (simp add: reset_answer_def)
  with r(1) w2 none show ?thesis by blast
qed

lemma used_codes_refused:
  assumes "single_node (store w)" "users_view (store w) i = Some v" "uEmail v = norm_email (unicode_lower L) email"
    and "unicode_laws (unicode_lower L)"
    and "\<forall>j q. resets_view (store w) j = Some q \<and> prUserID q = i \<longrightarrow> prUsedAt q \<noteq> None"
  shows "\<exists>e. fst (run_state (Auth_VerifyResetEmail (healthy L) (NewServices_Auth (healthy L) cfg) email code) w) = Inl e"
proof -
  have id: "uID v = i" using pg.key_id [OF assms(1,2)] .
  have "uEmail v = norm_email (unicode_lower L) (norm_email (unicode_lower (healthy L)) email)"
    using assms(3) norm_email_idem [OF assms(4)] by simp
  from pgsh.VerifyResetEmail_refuses [OF assms(1) _ this] show ?thesis using assms(2,5) id by blast
qed

text \<open>C5: on a database that answers, a reset code that is sent goes to an active account with the requested
  address and is six decimal digits; no account has changed, and the one record that is then stored for the
  account is unused and holds the hash of the code. In every later state in which that record is still there,
  unused and the only one of the account, and the account still has its address, \<open>VerifyResetEmail\<close> accepts the
  code as long as the clock has not passed the configured lifetime after the sending: it answers with what
  the signing of a password-reset token for that account gives, has used that record up and has changed no
  user. In every state without an unused record of the account, as the acceptance leaves it, every code for
  the address is refused.\<close>

theorem reset_code_once:
  assumes "single_node (store w)" and "unicode_laws (unicode_lower L)"
    and "run_state (Auth_ForgotPassword (healthy L) (NewServices_Auth (healthy L) cfg) email) w = (re, w1)"
    and "outbox w1 \<noteq> outbox w"
  shows "\<exists>u otp n p. users_view (store w) (uID u) = Some u \<and> uIsActive u \<and>
    uEmail u = norm_email (unicode_lower L) email \<and> outbox w1 = outbox w @ [(uEmail u, otp)] \<and>
    length otp = 6 \<and> list_all is_digit otp \<and> ticks w \<le> n \<and> n < ticks w1 \<and>
    resets_view (store w1) (prID p) = Some p \<and> prUserID p = uID u \<and> prOTPHash p = otp_hash L otp \<and>
    prUsedAt p = None \<and> (\<forall>i q. resets_view (store w1) i = Some q \<and> prUserID q = uID u \<longrightarrow> q = p) \<and>
    single_node (store w1) \<and> users_view (store w1) = users_view (store w) \<and>
    (\<forall>v v1. single_node (store v) \<and> users_view (store v) (uID u) = Some v1 \<and> uEmail v1 = uEmail u \<and>
         resets_view (store v) (prID p) = Some p \<and>
         (\<forall>i q. resets_view (store v) i = Some q \<and> prUserID q = uID u \<longrightarrow> q = p) \<and>
         \<not> time_After (now_at L (ticks v + 2))
           (pg_time L (time_Add (now_at L n) (PasswordResetOTPMinutes cfg * time_Minute))) \<longrightarrow>
      (\<exists>r w2. run_state (Auth_VerifyResetEmail (healthy L) (NewServices_Auth (healthy L) cfg) email otp) v = (r, w2) \<and>
         (\<exists>m \<ge> ticks v. r = reset_answer L cfg u (now_at L m)) \<and>
         single_node (store w2) \<and> users_view (store w2) = users_view (store v) \<and>
         (\<exists>t. resets_view (store w2) = (resets_view (store v))(prID p \<mapsto> p\<lparr>prUsedAt := Some t\<rparr>)) \<and>
         (\<forall>i q. resets_view (store w2) i = Some q \<and> prUserID q = uID u \<longrightarrow> prUsedAt q \<noteq> None))) \<and>
    (\<forall>w3 u3 code. single_node (store w3) \<and> users_view (store w3) (uID u) = Some u3 \<and> uEmail u3 = uEmail u \<and>
         (\<forall>i q. resets_view (store w3) i = Some q \<and> prUserID q = uID u \<longrightarrow> prUsedAt q \<noteq> None) \<longrightarrow>
       (\<exists>e. fst (run_state (Auth_VerifyResetEmail (healthy L) (NewServices_Auth (healthy L) cfg) email code) w3) = Inl e))"
proof -
  let ?s = "NewServices_Auth (healthy L) cfg"
  have norm: "norm_email (unicode_lower L) (norm_email (unicode_lower (healthy L)) email) = norm_email (unicode_lower L) email"
    using norm_email_idem [OF assms(2)] by simp
  obtain u k p n v v' where u: "users_view (store w) (uID u) = Some u"
      "uEmail u = norm_email (unicode_lower L) (norm_email (unicode_lower (healthy L)) email)" "uIsActive u"
    and k: "k < 1000000" "outbox w1 = outbox w @ [(uEmail u, Sprintf_06d k)]" "re = None"
    and v: "single_node (store v)" "users_view (store v) = users_view (store w)" "store w1 = store v'"
      "ticks w \<le> n" "n < ticks w1"
    and create: "run_state (resets_Create (NewPasswordResetRepository (healthy L))
       \<lparr>cpUserID = uID u, cpOTPHash = otp_hash (healthy L) (Sprintf_06d k),
        cpExpiresAt = time_Add (now_at (healthy L) n) (PasswordResetOTPMinutes (as_cfg ?s) * time_Minute)\<rparr>) v = (Inr p, v')"
    by (rule pgsh.ForgotPassword_sent [OF assms(1) NewServices_Auth_simps(4) assms(3,4)])
  have found: "new_reset (pg_time L) \<lparr>cpUserID = uID u, cpOTPHash = otp_hash (healthy L) (Sprintf_06d k),
        cpExpiresAt = time_Add (now_at (healthy L) n) (PasswordResetOTPMinutes (as_cfg ?s) * time_Minute)\<rparr> p"
    "\<forall>i q. resets_view (store w1) i = Some q \<longrightarrow> prUserID q = uID u \<longrightarrow> q = p"
    using pgrh.Create_found [OF v(1) create] v(3) by auto
  have p: "resets_view (store w1) (prID p) = Some p"
    using pgrh.resets_Create_replaces [OF v(1) create] v(3) by simp
  have users1: "users_view (store w1) = users_view (store w)" and good1: "single_node (store w1)"
    using pg.users_evolveD [OF pgs.ForgotPassword_evolves [of "healthy L"] assms(1,3)] by (auto simp: fun_eq_iff)
  have hash: "prOTPHash p = otp_hash (healthy L) (Sprintf_06d k)" "prUserID p = uID u" "prUsedAt p = None"
      "prExpiresAt p = pg_time L (time_Add (now_at L n) (PasswordResetOTPMinutes cfg * time_Minute))"
    using found(1) by (simp_all add: new_reset_def)
  show ?thesis
  proof (intro exI [of _ u] exI [of _ "Sprintf_06d k"] exI [of _ n] exI [of _ p] conjI allI impI)
    fix x :: "DB world" and x1
    assume x: "single_node (store x) \<and> users_view (store x) (uID u) = Some x1 \<and> uEmail x1 = uEmail u \<and>
         resets_view (store x) (prID p) = Some p \<and>
         (\<forall>i q. resets_view (store x) i = Some q \<and> prUserID q = uID u \<longrightarrow> q = p) \<and>
         \<not> time_After (now_at L (ticks x + 2))
           (pg_time L (time_Add (now_at L n) (PasswordResetOTPMinutes cfg * time_Minute)))"
    then have id: "uID x1 = uID u" using pg.key_id by blast
    have "reset_answer L cfg x1 = reset_answer L cfg u"
      using x id by (simp add: fun_eq_iff reset_answer_def)
    moreover have "\<not> time_After (now_at L (ticks x + 2)) (prExpiresAt p)" using x hash(4) by simp
    ultimately show "\<exists>r w2. run_state (Auth_VerifyResetEmail (healthy L) ?s email (Sprintf_06d k)) x = (r, w2) \<and>
         (\<exists>m \<ge> ticks x. r = reset_answer L cfg u (now_at L m)) \<and>
         single_node (store w2) \<and> users_view (store w2) = users_view (store x) \<and>
         (\<exists>t. resets_view (store w2) = (resets_view (store x))(prID p \<mapsto> p\<lparr>prUsedAt := Some t\<rparr>)) \<and>
         (\<forall>i q. resets_view (store w2) i = Some q \<and> prUserID q = uID u \<longrightarrow> prUsedAt q \<noteq> None)"
      using sent_code_once [of x x1 L email p k cfg] x id u(2) hash(1-3) k(1) by simp
  next
    show "\<And>i q. resets_view (store w1) i = Some q \<and> prUserID q = uID u \<Longrightarrow> q = p" using found(2) by blast
    show "\<exists>e. fst (run_state (Auth_VerifyResetEmail (healthy L) ?s email code) w3) = Inl e"
      if "single_node (store w3) \<and> users_view (store w3) (uID u) = Some u3 \<and> uEmail u3 = uEmail u \<and>
         (\<forall>i q. resets_view (store w3) i = Some q \<and> prUserID q = uID u \<longrightarrow> prUsedAt q \<noteq> None)" for w3 u3 code
      using that u(2) norm by (intro used_codes_refused [of w3 "uID u" u3 L email cfg code] assms(2)) auto
  qed (use u norm k v(4,5) hash(1-3) p users1 good1 in \<open>simp_all add: length_Sprintf_06d digits_06d otp_hash_def\<close>)
qed

theorem reset_code_once_witness:
  "\<exists>(w1 :: DB world) w2 otp. outbox w1 = [(''ann@x'', otp)] \<and> length otp = 6 \<and>
     (\<forall>code. \<exists>e. fst (run_state (Auth_VerifyResetEmail example_outside
        (NewServices_Auth example_outside example_config) ''ann@x'' code) w2) = Inl e)"
proof -
  have unicode: "unicode_laws (unicode_lower example_outside)"
    by (simp add: unicode_laws_def ToLower_def)
  define res where "res = run_state (Auth_ForgotPassword (healthy example_outside)
      (NewServices_Auth (healthy example_outside) example_config) ''ann@x'') example_world"
  have w1: "outbox (snd res) \<noteq> outbox example_world" "ticks (snd res) \<le> 10" "outbox example_world = []"
    by (simp_all add: res_def Auth_ForgotPassword_def randomOTP6_def crypto_rand_Int_def run_defs example_defs)
  have run: "run_state (Auth_ForgotPassword (healthy example_outside)
      (NewServices_Auth (healthy example_outside) example_config) ''ann@x'') example_world = (fst res, snd res)"
    by (simp add: res_def)
  obtain u :: User and otp n p where u: "users_view (store example_world) (uID u) = Some u"
      "uEmail u = norm_email (unicode_lower example_outside) ''ann@x''"
      "outbox (snd res) = outbox example_world @ [(uEmail u, otp)]" "length otp = 6" "ticks example_world \<le> n"
    and p: "resets_view (store (snd res)) (prID p) = Some p"
      "\<forall>i q. resets_view (store (snd res)) i = Some q \<and> prUserID q = uID u \<longrightarrow> q = p"
      "single_node (store (snd res))" "users_view (store (snd res)) = users_view (store example_world)"
    and accept: "\<forall>v v1. single_node (store v) \<and> users_view (store v) (uID u) = Some v1 \<and> uEmail v1 = uEmail u \<and>
         resets_view (store v) (prID p) = Some p \<and>
         (\<forall>i q. resets_view (store v) i = Some q \<and> prUserID q = uID u \<longrightarrow> q = p) \<and>
         \<not> time_After (now_at example_outside (ticks v + 2))
           (pg_time example_outside (time_Add (now_at example_outside n) (PasswordResetOTPMinutes example_config * time_Minute))) \<longrightarrow>
      (\<exists>r w2. run_state (Auth_VerifyResetEmail (healthy example_outside) (NewServices_Auth (healthy example_outside) example_config) ''ann@x'' otp) v = (r, w2) \<and>
         (\<exists>m \<ge> ticks v. r = reset_answer example_outside example_config u (now_at example_outside m)) \<and>
         single_node (store w2) \<and> users_view (store w2) = users_view (store v) \<and>
         (\<exists>t. resets_view (store w2) = (resets_view (store v))(prID p \<mapsto> p\<lparr>prUsedAt := Some t\<rparr>)) \<and>
         (\<forall>i q. resets_view (store w2) i = Some q \<and> prUserID q = uID u \<longrightarrow> prUsedAt q \<noteq> None))"
    and refuse: "\<forall>w3 u3 code. single_node (store w3) \<and> users_view (store w3) (uID u) = Some u3 \<and> uEmail u3 = uEmail u \<and>
         (\<forall>i q. resets_view (store w3) i = Some q \<and> prUserID q = uID u \<longrightarrow> prUsedAt q \<noteq> None) \<longrightarrow>
       (\<exists>e. fst (run_state (Auth_VerifyResetEmail (healthy example_outside) (NewServices_Auth (healthy example_outside) example_config) ''ann@x'' code) w3) = Inl e)"
    using reset_code_once [OF example_good unicode run w1(1)] by (elim exE conjE) (rule that)
  have "int (ticks (snd res) + 2) \<le> int n + sint (PasswordResetOTPMinutes example_config * time_Minute)"
    using w1(2) by (simp add: example_config_def default_config_def time_Minute_def)
  then have "\<not> time_After (now_at example_outside (ticks (snd res) + 2))
         (pg_time example_outside (time_Add (now_at example_outside n) (PasswordResetOTPMinutes example_config * time_Minute)))"
    by (simp add: time_After_def time_Add_def)
  with p u(1) have "single_node (store (snd res)) \<and> users_view (store (snd res)) (uID u) = Some u \<and> uEmail u = uEmail u \<and>
         resets_view (store (snd res)) (prID p) = Some p \<and>
         (\<forall>i q. resets_view (store (snd res)) i = Some q \<and> prUserID q = uID u \<longrightarrow> q = p) \<and>
         \<not> time_After (now_at example_outside (ticks (snd res) + 2))
           (pg_time example_outside (time_Add (now_at example_outside n) (PasswordResetOTPMinutes example_config * time_Minute)))"
    by (intro conjI) (assumption | simp)+
  from accept [rule_format, OF this] obtain w2 :: "DB world" where w2: "single_node (store w2)" "users_view (store w2) = users_view (store (snd res))"
      "\<forall>i q. resets_view (store w2) i = Some q \<and> prUserID q = uID u \<longrightarrow> prUsedAt q \<noteq> None"
    by blast
  have "users_view (store (snd res)) (uID u) = Some u" using p(4) u(1) by simp
  with refuse w2 have "\<forall>code. \<exists>e. fst (run_state (Auth_VerifyResetEmail (healthy example_outside)
      (NewServices_Auth (healthy example_outside) example_config) ''ann@x'' code) w2) = Inl e"
    by simp
  with u w1(3) show ?thesis
    by (intro exI [of _ "snd res"] exI [of _ w2] exI [of _ otp]) simp
qed

text \<open>C14: \<open>VerifyResetEmail\<close> returns a token only for a six-byte code whose hash is that of a stored,
  unused record of the address's account, at a clock reading that has not passed the record's expiry;
  the call uses that record up and changes no other record and no user, whatever faults the database
  has, and the token parses only as a password-reset token of that account.\<close>

theorem VerifyResetEmail_consumes:
  assumes "single_node (store w)" and "jwt_laws (jwt L)"
    and "run_state (Auth_VerifyResetEmail L (NewServices_Auth L cfg) email code) w = (Inr tok, w')"
  shows "\<exists>u p t n. users_view (store w) (uID u) = Some u \<and> length (TrimSpace code) = 6 \<and>
    uEmail u = norm_email (unicode_lower L) (norm_email (unicode_lower L) email) \<and>
    resets_view (store w) (prID p) = Some p \<and> prUserID p = uID u \<and> prUsedAt p = None \<and>
    ticks w \<le> n \<and> n < ticks w' \<and> \<not> IsExpired (now_at L n) p \<and> prOTPHash p = otp_hash L (TrimSpace code) \<and>
    resets_view (store w') = (resets_view (store w))(prID p \<mapsto> p\<lparr>prUsedAt := Some t\<rparr>) \<and>
    users_view (store w') = users_view (store w) \<and>
    (\<forall>now c. Parse (jwt L) now tok (AppSecret cfg) = Inr c \<longrightarrow> cUserID c = uID u \<and> cPurpose c = PurposePasswordReset)"
proof -
  have users: "users_view (store w') = users_view (store w)"
    using pg.users_evolveD [OF pgs.VerifyResetEmail_evolves assms(1,3)] by (simp add: fun_eq_iff)
  obtain u p t n k ttl where u: "users_view (store w) (uID u) = Some u"
    "uEmail u = norm_email (unicode_lower L) (norm_email (unicode_lower L) email)"
    "length (TrimSpace code) = 6" "resets_view (store w) (prID p) = Some p" "prUserID p = uID u" "prUsedAt p = None"
    "\<not> IsExpired (now_at L n) p" "ticks w \<le> n" "n < ticks w'" "prOTPHash p = otp_hash L (TrimSpace code)"
    "resets_view (store w') = (resets_view (store w))(prID p \<mapsto> p\<lparr>prUsedAt := Some t\<rparr>)" "single_node (store w')"
    "IssuePurposeToken (jwt L) (now_at L k) (AppSecret (as_cfg (NewServices_Auth L cfg))) (uID u) (uEmail u) PurposePasswordReset ttl = Inr tok"
    by (rule pgs.VerifyResetEmail_success [OF assms(1,3)])
  have "\<forall>now c. Parse (jwt L) now tok (AppSecret cfg) = Inr c \<longrightarrow> cUserID c = uID u \<and> cPurpose c = PurposePasswordReset"
    using issued_purpose [OF assms(2) u(13)] by simp
  with u users show ?thesis by blast
qed

theorem VerifyResetEmail_consumes_witness:
  "\<exists>tok w'. run_state (Auth_VerifyResetEmail example_outside (NewServices_Auth example_outside example_config) ''ann@x'' ''123456'')
     reset_world = (Inr tok, w') \<and> users_view (store w') = users_view (store reset_world)"
proof -
  have "\<exists>tok w'. run_state (Auth_VerifyResetEmail example_outside (NewServices_Auth example_outside example_config) ''ann@x'' ''123456'')
     reset_world = (Inr tok, w')"
    by (simp add: Auth_VerifyResetEmail_def IsExpired_def IsConsumed_def IssuePurposeToken_def Sign_def example_jwt_def
        time_After_def otp_hash_def reset_world_def run_defs example_defs)
  then obtain tok w' where run: "run_state (Auth_VerifyResetEmail example_outside (NewServices_Auth example_outside example_config) ''ann@x'' ''123456'')
     reset_world = (Inr tok, w')" by blast
  with VerifyResetEmail_consumes [OF reset_world_good _ run] show ?thesis by auto
qed


text \<open>C29: a password reset that reports success has parsed a password-reset token of a stored account,
  has checked the second factor when one is enrolled, and has replaced that account's hash (and \<open>updated_at\<close>),
  and nothing else of any account, by a bcrypt hash of the new password, which has at least ten bytes;
  whatever it reports, either that is what it has done or no account has changed.\<close>

theorem CompletePasswordReset_only_hash:
  assumes "single_node (store w)"
    and "run_state (Auth_CompletePasswordReset L (NewServices_Auth L cfg) tok new code) w = (re, w')"
  shows "re \<noteq> None \<and> users_view (store w') = users_view (store w) \<or>
    (\<exists>c u hash m t. Parse (jwt L) (now_at L (ticks w)) tok (AppSecret cfg) = Inr c \<and>
       cPurpose c = PurposePasswordReset \<and> users_view (store w) (cUserID c) = Some u \<and>
       (\<forall>x. uTOTPEnabled u \<longrightarrow> uTOTPSecret u = Some x \<longrightarrow>
          (\<exists>n. ticks w \<le> n \<and> n < ticks w' \<and> totp_Validate L (now_at L n) (TrimSpace code) x)) \<and>
       10 \<le> length new \<and> bcrypt_Generate L m new (bcrypt_DefaultCost L) = Inr hash \<and>
       users_view (store w') = (users_view (store w))(cUserID c \<mapsto> u\<lparr>uPasswordHash := hash, uUpdatedAt := t\<rparr>))"
proof (cases "re = None \<or> users_view (store w') \<noteq> users_view (store w)")
  case True
  show ?thesis
    by (rule disjI2, rule pgs.CompletePasswordReset_success [OF assms True], simp) blast
qed simp

theorem CompletePasswordReset_only_hash_witness:
  "\<exists>tok w' u. run_state (Auth_CompletePasswordReset example_outside (NewServices_Auth example_outside example_config)
      tok ''new-password'' '''') example_world = (None, w') \<and>
     users_view (store w') 2 = Some u \<and> same_but_hash (scanUser (example_row 2 ''ann@x'' Member True)) u"
proof -
  obtain tok where tok: "IssuePurposeToken example_jwt 0 (AppSecret example_config) 2 ''ann@x'' PurposePasswordReset time_Minute = Inr tok"
    by (simp add: IssuePurposeToken_def Sign_def example_jwt_def)
  obtain c where c: "Parse example_jwt 0 tok (AppSecret example_config) = Inr c" "cUserID c = 2" "cPurpose c = PurposePasswordReset"
    using purpose_parses [OF tok] by blast
  have "\<exists>w'. run_state (Auth_CompletePasswordReset example_outside (NewServices_Auth example_outside example_config)
      tok ''new-password'' '''') example_world = (None, w')"
    using c by (simp add: Auth_CompletePasswordReset_def run_defs example_defs)
  then obtain w' where run: "run_state (Auth_CompletePasswordReset example_outside (NewServices_Auth example_outside example_config)
      tok ''new-password'' '''') example_world = (None, w')" by blast
  then obtain c' u hash t where "Parse (jwt example_outside) (now_at example_outside (ticks example_world)) tok (AppSecret example_config) = Inr c'"
    "users_view (store example_world) (cUserID c') = Some u"
    "users_view (store w') = (users_view (store example_world))(cUserID c' \<mapsto> u\<lparr>uPasswordHash := hash, uUpdatedAt := t\<rparr>)"
    using CompletePasswordReset_only_hash [OF example_good run] by blast
  moreover have "ticks example_world = 0" by (simp add: example_world_def)
  ultimately have "\<exists>u. users_view (store w') 2 = Some u \<and> same_but_hash (scanUser (example_row 2 ''ann@x'' Member True)) u"
    using c by (auto simp: same_but_hash_def)
  with run show ?thesis by blast
qed

text \<open>C8: accepting an invite does not activate the account. On a healthy database the account is still
  inactive afterwards, every login under its email is refused with a 401, and so is every attempt to
  confirm a second factor with the setup token that the call returned, in every later state with the
  same tables: an invited user can never sign in.\<close>

theorem AcceptInvite_dead_end:
  assumes "single_node (store w)" and "jwt_laws (jwt L)"
    and "run_state (Auth_AcceptInvite (healthy L) (NewServices_Auth (healthy L) cfg) tok name pw) w = (Inr lr, w')"
  shows "\<exists>u v. users_view (store w) (uID u) = Some u \<and> users_view (store w') = (users_view (store w))(uID u \<mapsto> v) \<and>
    \<not> uIsActive v \<and> lrTOTPSetupRequired lr \<and>
    (\<forall>w2. store w2 = store w' \<longrightarrow>
      (\<forall>email p. norm_email (unicode_lower L) email = uEmail v \<longrightarrow>
         fst (run_state (Auth_Login (healthy L) (NewServices_Auth (healthy L) cfg) email p) w2) = Inl (Sentinel ErrUnauthorized)) \<and>
      (\<forall>secret code. fst (run_state (Auth_ConfirmTOTP (healthy L) (NewServices_Auth (healthy L) cfg) (lrSetupToken lr) secret code) w2) =
         Inl (Sentinel ErrUnauthorized)))"
proof -
  let ?s = "NewServices_Auth (healthy L) cfg"
  obtain c u v hash m k ttl where c: "Parse (jwt (healthy L)) (now_at (healthy L) (ticks w)) tok (AppSecret (as_cfg ?s)) = Inr c"
    "cPurpose c = PurposeInvite" "10 \<le> length pw" "users_view (store w) (cUserID c) = Some u" "\<not> uIsActive u"
    "bcrypt_Generate (healthy L) m pw (bcrypt_DefaultCost (healthy L)) = Inr hash" "single_node (store w')"
    "users_view (store w') = (users_view (store w))(cUserID c \<mapsto> v)" "same_account u v" "uName v = TrimSpace name"
    "uPasswordHash v = hash" "uFailedAttempts v = 0" "uLockedUntil v = None" "uTOTPSecret v = uTOTPSecret u"
    "lrTOTPSetupRequired lr" "lrAccessToken lr = ''''"
    "IssuePurposeToken (jwt (healthy L)) (now_at (healthy L) k) (AppSecret (as_cfg ?s)) (cUserID c) (uEmail u) PurposeTOTPSetup ttl = Inr (lrSetupToken lr)"
    by (rule pgsh.AcceptInvite_success [OF assms(1,3)])
  have id: "uID u = cUserID c" using pg.key_id [OF assms(1) c(4)] .
  have inactive: "\<not> uIsActive v" using c(5,9) by (simp add: same_account_def)
  have refused: "(\<forall>email p. norm_email (unicode_lower L) email = uEmail v \<longrightarrow>
         fst (run_state (Auth_Login (healthy L) ?s email p) w2) = Inl (Sentinel ErrUnauthorized)) \<and>
      (\<forall>secret code. fst (run_state (Auth_ConfirmTOTP (healthy L) ?s (lrSetupToken lr) secret code) w2) =
         Inl (Sentinel ErrUnauthorized))" if w2: "store w2 = store w'" for w2
  proof -
    have g: "single_node (store w2)" "users_view (store w2) (cUserID c) = Some v"
      using w2 c(7,8) by simp_all
    have parse: "cUserID c' = cUserID c"
      if "Parse (jwt (healthy L)) (now_at (healthy L) (ticks w2)) (lrSetupToken lr) (AppSecret (as_cfg ?s)) = Inr c'" for c'
      using issued_purpose [OF _ c(17) that] assms(2) by simp
    show ?thesis
    proof (intro conjI allI impI)
      fix email p
      assume "norm_email (unicode_lower L) email = uEmail v"
      then show "fst (run_state (Auth_Login (healthy L) ?s email p) w2) = Inl (Sentinel ErrUnauthorized)"
        using pgsh.inactive_refused(1) [OF g inactive, of L email] by simp
    next
      fix secret code
      show "fst (run_state (Auth_ConfirmTOTP (healthy L) ?s (lrSetupToken lr) secret code) w2) = Inl (Sentinel ErrUnauthorized)"
        by (rule pgsh.inactive_refused(2) [OF g inactive]) (rule parse)
    qed
  qed
  with c(4,8,15) id inactive show ?thesis by (intro exI [of _ u] exI [of _ v]) simp
qed

theorem AcceptInvite_dead_end_witness:
  "\<exists>tok lr w'. run_state (Auth_AcceptInvite example_outside (NewServices_Auth example_outside example_config)
      tok ''Ann'' ''new-password'') example_world = (Inr lr, w') \<and> lrTOTPSetupRequired lr \<and>
     fst (run_state (Auth_ConfirmTOTP example_outside (NewServices_Auth example_outside example_config)
       (lrSetupToken lr) ''77'' ''77'') w') = Inl (Sentinel ErrUnauthorized)"
proof -
  obtain tok where tok: "IssuePurposeToken example_jwt 0 (AppSecret example_config) 3 ''new@x'' PurposeInvite time_Minute = Inr tok"
    by (simp add: IssuePurposeToken_def Sign_def example_jwt_def)
  obtain c where c: "Parse example_jwt 0 tok (AppSecret example_config) = Inr c" "cUserID c = 3" "cPurpose c = PurposeInvite"
    using purpose_parses [OF tok] by blast
  have "\<exists>lr w'. run_state (Auth_AcceptInvite (healthy example_outside) (NewServices_Auth (healthy example_outside) example_config)
      tok ''Ann'' ''new-password'') example_world = (Inr lr, w')"
    using c by (simp add: Auth_AcceptInvite_def IssuePurposeToken_def Sign_def example_jwt_def run_defs example_defs)
  then obtain lr w' where run: "run_state (Auth_AcceptInvite (healthy example_outside) (NewServices_Auth (healthy example_outside) example_config)
      tok ''Ann'' ''new-password'') example_world = (Inr lr, w')" by blast
  have laws: "jwt_laws (jwt example_outside)" by simp
  from AcceptInvite_dead_end [OF example_good laws run] run show ?thesis
    by (metis healthy_example)
qed

end
