(* ===== verification/UserService.thy ===== *)
theory UserService
  imports AuthFlows
begin

text \<open>
  \<open>internal/services/user_service.go\<close>: listing, updating, inviting and deactivating users, with the
  guard on the last super admin.
\<close>

section \<open>The service\<close>

record 'd UserService =
  us_cfg :: Config
  us_users :: "'d IUserRepository"

definition NewUserService :: "Config \<Rightarrow> 'd IUserRepository \<Rightarrow> 'd UserService" where
  "NewUserService cfg us = \<lparr>us_cfg = cfg, us_users = us\<rparr>"

definition Users_List ::
    "'d UserService \<Rightarrow> ListUsersParams \<Rightarrow> ('d world, goerr + User list \<times> int) state" where
  "Users_List s params = users_List (us_users s) params"

definition Users_Get :: "'d UserService \<Rightarrow> uuid \<Rightarrow> ('d world, goerr + User) state" where
  "Users_Get s i = users_FindByID (us_users s) i"

text \<open>\<open>Update\<close> demotes a super admin only when the count says that there is another one.\<close>

definition demotes :: "UpdateUserParams \<Rightarrow> User \<Rightarrow> bool" where
  "demotes params u \<longleftrightarrow>
     (case uuRole params of None \<Rightarrow> False | Some r \<Rightarrow> r \<noteq> RoleSuperAdmin \<and> uRole u = RoleSuperAdmin)"

definition Users_Update ::
    "'d UserService \<Rightarrow> uuid \<Rightarrow> UpdateUserParams \<Rightarrow> ('d world, goerr + User) state" where
  "Users_Update s i params = do {
     r \<leftarrow> users_FindByID (us_users s) i;
     case r of
       Inl err \<Rightarrow> ret (Inl err)
     | Inr u \<Rightarrow>
         if demotes params u then do {
           c \<leftarrow> users_CountSuperAdmins (us_users s);
           case c of
             Inl err \<Rightarrow> ret (Inl (Wrapped ''count super admins'' err))
           | Inr n \<Rightarrow>
               if n \<le> 1 then ret (Inl (BadRequest ''cannot change role of the last super admin''))
               else users_Update (us_users s) i params
         } else users_Update (us_users s) i params
   }"

definition Users_Invite ::
    "outside \<Rightarrow> 'd UserService \<Rightarrow> string \<Rightarrow> string \<Rightarrow> UserRole \<Rightarrow> uuid \<Rightarrow> ('d world, goerr + string) state" where
  "Users_Invite L s email name role invitedByID =
     (if role = RoleSuperAdmin
      then ret (Inl (BadRequest (''cannot invite a super_admin '' @ em_dash @ '' promote an existing user instead'')))
      else
        let email = norm_email (unicode_lower L) email
        in if email = '''' then ret (Inl (BadRequest ''email is required''))
        else do {
          f \<leftarrow> users_FindByEmail (us_users s) email;
          case f of
            Inr _ \<Rightarrow> ret (Inl (Conflict ''a user with this email already exists''))
          | Inl err \<Rightarrow>
              if \<not> errors_Is err (Sentinel ErrNotFound) then ret (Inl err)
              else do {
                c \<leftarrow> users_Create (us_users s)
                      \<lparr>cuEmail = email, cuName = TrimSpace name, cuPasswordHash = ''!'', cuRole = role\<rparr>;
                case c of
                  Inl err \<Rightarrow> ret (Inl (Wrapped ''create invited user'' err))
                | Inr u \<Rightarrow> do {
                    e \<leftarrow> users_Deactivate (us_users s) (uID u);
                    case e of
                      Some err \<Rightarrow> ret (Inl (Wrapped ''deactivate invited user'' err))
                    | None \<Rightarrow> do {
                        n \<leftarrow> tick;
                        case rand_Read L n of
                          Inl err \<Rightarrow> ret (Inl (Wrapped ''generate invite token'' err))
                        | Inr _ \<Rightarrow> do {
                            let ttl = InviteTTLHours (us_cfg s) * time_Hour;
                            t \<leftarrow> auth_IssuePurposeToken L (AppSecret (us_cfg s)) (uID u) (uEmail u)
                                  PurposeInvite ttl;
                            ret (case t of
                                   Inl err \<Rightarrow> Inl (Wrapped ''sign invite token'' err)
                                 | Inr inviteToken \<Rightarrow> Inr inviteToken)
                          }
                      }
                  }
              }
        })"

definition Users_Deactivate :: "'d UserService \<Rightarrow> uuid \<Rightarrow> ('d world, goerr option) state" where
  "Users_Deactivate s i = do {
     r \<leftarrow> users_FindByID (us_users s) i;
     case r of
       Inl err \<Rightarrow> ret (Some err)
     | Inr u \<Rightarrow>
         if uRole u = RoleSuperAdmin then do {
           c \<leftarrow> users_CountSuperAdmins (us_users s);
           case c of
             Inl err \<Rightarrow> ret (Some (Wrapped ''count super admins'' err))
           | Inr n \<Rightarrow>
               if n \<le> 1 then ret (Some (BadRequest ''cannot deactivate the last super admin''))
               else users_Deactivate (us_users s) i
         } else users_Deactivate (us_users s) i
   }"

section \<open>The calls of the service\<close>

datatype user_request =
    Call_List ListUsersParams
  | Call_Get uuid
  | Call_Update uuid UpdateUserParams
  | Call_Invite string string UserRole uuid
  | Call_Deactivate uuid

fun user_call :: "outside \<Rightarrow> 'd UserService \<Rightarrow> user_request \<Rightarrow> ('d world, unit) state" where
  "user_call L s (Call_List p) = ignore (Users_List s p)"
| "user_call L s (Call_Get i) = ignore (Users_Get s i)"
| "user_call L s (Call_Update i p) = ignore (Users_Update s i p)"
| "user_call L s (Call_Invite email name role by_id) = ignore (Users_Invite L s email name role by_id)"
| "user_call L s (Call_Deactivate i) = ignore (Users_Deactivate s i)"

definition NewServices_Users :: "outside \<Rightarrow> Config \<Rightarrow> DB UserService" where
  "NewServices_Users L cfg = NewUserService cfg (NewUserRepository L)"

lemma NewServices_Users_simps [simp]:
  "us_cfg (NewServices_Users L cfg) = cfg" "us_users (NewServices_Users L cfg) = NewUserRepository L"
  by (simp_all add: NewServices_Users_def NewUserService_def)

end
