(* ===== verification/Accounts.thy ===== *)
theory Accounts
  imports AuthFacts
begin

text \<open>
  The abstract specification of what the program may do to the accounts: a step relation on the map
  of users that knows no table, no statement and no error. The invariants of the accounts are proved
  here, once, by induction over the steps; the theories above show that every call takes such steps.
\<close>

section \<open>Steps\<close>

text \<open>A profile change touches the name, the role and the stamp.\<close>

definition same_but_profile :: "User \<Rightarrow> User \<Rightarrow> bool" where
  "same_but_profile u v \<longleftrightarrow>
     v\<lparr>uName := [], uRole := [], uUpdatedAt := 0\<rparr> = u\<lparr>uName := [], uRole := [], uUpdatedAt := 0\<rparr>"

definition super_admin :: "User \<Rightarrow> bool" where
  "super_admin u \<longleftrightarrow> uRole u = RoleSuperAdmin \<and> uIsActive u"

lemma active_super_admins_iff: "i \<in> active_super_admins m \<longleftrightarrow> (\<exists>u. m i = Some u \<and> super_admin u)"
  by (simp add: active_super_admins_def super_admin_def)

lemma active_super_admins_upd:
  "active_super_admins (m(i \<mapsto> u)) =
     (if super_admin u then insert i (active_super_admins m) else active_super_admins m - {i})"
  by (auto simp: active_super_admins_iff split: if_splits)

lemma another_super_admin:
  assumes "1 < card (active_super_admins m)"
  shows "active_super_admins m - {i} \<noteq> {}"
  using assms card_mono [of "{i}" "active_super_admins m"] by fastforce

lemma super_admins_left:
  assumes "m i = Some u" "super_admin u \<and> \<not> super_admin v \<Longrightarrow> active_super_admins m - {i} \<noteq> {}"
    and "active_super_admins m \<noteq> {}"
  shows "active_super_admins (m(i \<mapsto> v)) \<noteq> {}"
proof (cases "super_admin v")
  case False
  moreover have "active_super_admins m - {i} \<noteq> {}"
  proof (cases "super_admin u")
    case False
    with assms(1) have "i \<notin> active_super_admins m" by (simp add: active_super_admins_iff)
    with assms(3) show ?thesis by auto
  qed (use assms(2) False in simp)
  ultimately show ?thesis unfolding active_super_admins_upd by simp
qed (simp add: active_super_admins_upd)

inductive account_step :: "user_map \<Rightarrow> user_map \<Rightarrow> bool" where
  Credentials: "(\<And>i. rel_option same_account (m i) (m' i)) \<Longrightarrow> account_step m m'"
| Enrol: "m (uID u) = None \<Longrightarrow> (\<And>i v. m i = Some v \<Longrightarrow> uEmail v \<noteq> uEmail u) \<Longrightarrow>
    account_step m (m(uID u \<mapsto> u))"
| Profile: "m i = Some u \<Longrightarrow> same_but_profile u v \<Longrightarrow>
    (super_admin u \<and> \<not> super_admin v \<Longrightarrow> active_super_admins m - {i} \<noteq> {}) \<Longrightarrow>
    account_step m (m(i \<mapsto> v))"
| Deactivated: "m i = Some u \<Longrightarrow> (super_admin u \<Longrightarrow> active_super_admins m - {i} \<noteq> {}) \<Longrightarrow>
    account_step m (m(i \<mapsto> u\<lparr>uIsActive := False, uUpdatedAt := t\<rparr>))"

inductive_cases account_stepE: "account_step m m'"

abbreviation account_steps :: "user_map \<Rightarrow> user_map \<Rightarrow> bool" where
  "account_steps \<equiv> account_step\<^sup>*\<^sup>*"

section \<open>What every step keeps\<close>

definition wf_accounts :: "user_map \<Rightarrow> bool" where
  "wf_accounts m \<longleftrightarrow>
     (\<forall>i u. m i = Some u \<longrightarrow> uID u = i) \<and>
     (\<forall>i j u v. m i = Some u \<longrightarrow> m j = Some v \<longrightarrow> uEmail u = uEmail v \<longrightarrow> i = j)"

text \<open>An account of the first map is still there in the second, as the same person, and if it is
  active then it has been all along.\<close>

definition accounts_kept :: "user_map \<Rightarrow> user_map \<Rightarrow> bool" where
  "accounts_kept m m' \<longleftrightarrow> (\<forall>i. grown same_identity (m i) (m' i))"

lemma accounts_kept_order [simp, intro]: "reflp accounts_kept" "transp accounts_kept"
proof -
  show "reflp accounts_kept"
    using reflpD [OF grown_order(1) [OF same_identity_order(1)]]
    by (simp add: reflp_def accounts_kept_def)
  show "transp accounts_kept"
    using transpD [OF grown_order(2) [OF same_identity_order(2)]]
    unfolding transp_def accounts_kept_def by blast
qed

lemma same_account_super_admin: "same_account u v \<Longrightarrow> super_admin v \<longleftrightarrow> super_admin u"
  by (auto simp: same_account_def super_admin_def)

lemma credentials_super_admins:
  assumes "\<And>i. rel_option same_account (m i) (m' i)"
  shows "active_super_admins m' = active_super_admins m"
proof (rule set_eqI)
  fix i
  show "i \<in> active_super_admins m' \<longleftrightarrow> i \<in> active_super_admins m"
    using assms [of i] by (auto simp: active_super_admins_iff rel_option_iff same_account_super_admin split: option.splits)
qed

lemma step_super_admins:
  assumes "account_step m m'" and "active_super_admins m \<noteq> {}"
  shows "active_super_admins m' \<noteq> {}"
  using assms
proof induction
  case (Credentials m m')
  then show ?case by (simp add: credentials_super_admins [OF Credentials(1)])
next
  case (Profile m i u v)
  then show ?case by (intro super_admins_left [of m i u v]) auto
next
  case (Deactivated m i u t)
  then show ?case by (intro super_admins_left [of m i u]) auto
qed (auto simp: active_super_admins_upd active_super_admins_iff)

lemma same_but_profile_identity: "same_but_profile u v \<Longrightarrow> same_identity u v"
  by (cases u; cases v) (simp add: same_but_profile_def same_identity_def)

lemma same_account_identity: "same_account u v \<Longrightarrow> same_identity u v"
  by (simp add: same_account_def same_identity_def)

lemma step_accounts_kept: "account_step m m' \<Longrightarrow> accounts_kept m m'"
proof (induction rule: account_step.induct)
  case (Credentials m m')
  have "grown same_identity (m i) (m' i)" for i
    using Credentials [of i] by (auto simp: rel_option_iff same_account_identity grown_def split: option.splits)
  then show ?case by (simp add: accounts_kept_def)
qed (auto simp: accounts_kept_def grown_def same_but_profile_identity, auto simp: same_identity_def)

lemma kept_wf:
  assumes "wf_accounts m" "account_step m m'"
  shows "wf_accounts m'"
  using assms(2,1)
proof induction
  case (Credentials m m')
  have before: "\<exists>u. m i = Some u \<and> same_account u v" if "m' i = Some v" for i v
    using Credentials(1) [of i] that by (auto simp: rel_option_iff split: option.splits)
  show ?case
    unfolding wf_accounts_def
  proof (intro conjI allI impI)
    fix i u assume "m' i = Some u"
    with before Credentials(2) show "uID u = i" by (fastforce simp: wf_accounts_def same_account_def)
  next
    fix i j u v assume "m' i = Some u" "m' j = Some v" "uEmail u = uEmail v"
    with before [of i u] before [of j v] Credentials(2) show "i = j"
      by (auto simp: wf_accounts_def same_account_def)
  qed
next
  case (Enrol m u)
  then show ?case unfolding wf_accounts_def by (auto split: if_splits) metis
next
  case (Profile m i u v)
  from same_but_profile_identity [OF Profile(2)] have "uID v = uID u" "uEmail v = uEmail u"
    by (auto simp: same_identity_def)
  with Profile(1,4) show ?case unfolding wf_accounts_def by auto
qed (auto simp: wf_accounts_def)

lemma steps_keep:
  assumes "account_steps m m'"
  shows "accounts_kept m m'" and "wf_accounts m \<Longrightarrow> wf_accounts m'"
    and "active_super_admins m \<noteq> {} \<Longrightarrow> active_super_admins m' \<noteq> {}"
proof -
  show "accounts_kept m m'"
    using assms
    by (induction rule: rtranclp_induct)
      (auto intro: reflpD [OF accounts_kept_order(1)] transpD [OF accounts_kept_order(2)] step_accounts_kept)
  show "wf_accounts m \<Longrightarrow> wf_accounts m'"
    using assms by (induction rule: rtranclp_induct) (auto intro: kept_wf)
  show "active_super_admins m \<noteq> {} \<Longrightarrow> active_super_admins m' \<noteq> {}"
    using assms by (induction rule: rtranclp_induct) (auto dest: step_super_admins)
qed

section \<open>Refinement\<close>

text \<open>An operation over a user repository refines the specification when every run of it from a good
  store ends in a good store and takes the users along specified steps.\<close>

context user_repository
begin

definition refines_accounts :: "'d world \<Rightarrow> 'd world \<Rightarrow> bool" where
  "refines_accounts w w' \<longleftrightarrow> (good (store w) \<longrightarrow>
     good (store w') \<and> account_steps (tbl (store w)) (tbl (store w')))"

lemma refines_order [simp, intro]: "reflp refines_accounts" "transp refines_accounts"
  unfolding reflp_def transp_def refines_accounts_def by auto

lemma refines_runI:
  assumes "\<And>w r w'. good (store w) \<Longrightarrow> run_state m w = (r, w') \<Longrightarrow>
    good (store w') \<and> account_steps (tbl (store w)) (tbl (store w'))"
  shows "state_io_rel refines_accounts m"
  using assms unfolding state_io_rel_def refines_accounts_def by (metis prod.collapse)

lemma refinesD:
  "state_io_rel refines_accounts m \<Longrightarrow> good (store w) \<Longrightarrow> run_state m w = (r, w') \<Longrightarrow>
   good (store w') \<and> account_steps (tbl (store w)) (tbl (store w'))"
  unfolding state_io_rel_def refines_accounts_def by (metis snd_conv)

lemma evolve_refines:
  assumes "state_io_rel (users_evolve (rel_option q)) m" and "\<And>u v. q u v \<Longrightarrow> same_account u v"
  shows "state_io_rel refines_accounts m"
proof (rule refines_runI)
  fix w r w'
  assume g: "good (store w)" and run: "run_state m w = (r, w')"
  have "rel_option same_account (tbl (store w) i) (tbl (store w') i)" for i
    using users_evolveD [OF assms(1) g run, of i] assms(2) by (rule_tac option.rel_mono_strong) auto
  then have "account_step (tbl (store w)) (tbl (store w'))" by (rule Credentials)
  with users_evolveD [OF assms(1) g run] show
    "good (store w') \<and> account_steps (tbl (store w)) (tbl (store w'))" by auto
qed

lemma refines_quiet [rel_intros]:
  "state_io_rel refines_accounts tick" "state_io_rel refines_accounts (time_Now L)"
  "state_io_rel refines_accounts (users_FindByID R i)"
  "state_io_rel refines_accounts (users_FindByEmail R email)"
  "state_io_rel refines_accounts (users_List R lp)"
  "state_io_rel refines_accounts (users_CountSuperAdmins R)"
  by (rule evolve_refines [where q = "(=)"], rule evolve_quiet, auto simp: same_account_def)+

text \<open>The constraint on the store afterwards says that the email of a new account was free.\<close>

lemma fresh_email:
  assumes "good d'" "tbl d' = m(uID u \<mapsto> v)" "uEmail v = uEmail u" "m (uID u) = None" "m i = Some x"
  shows "uEmail x \<noteq> uEmail u"
proof
  assume eq: "uEmail x = uEmail u"
  have "i \<noteq> uID u" using assms(4,5) by auto
  with unique_email [OF assms(1), of i x "uID u" v] assms(2,3,5) eq show False by simp
qed

lemma refines_Create [rel_intros]: "state_io_rel refines_accounts (users_Create R cp)"
proof (rule refines_runI)
  fix w r w'
  assume g: "good (store w)" and run: "run_state (users_Create R cp) w = (r, w')"
  note C = Create_run [OF g run]
  have "account_steps (tbl (store w)) (tbl (store w'))"
  proof (cases "tbl (store w') = tbl (store w)")
    case False
    with C obtain u where u: "tbl (store w) (uID u) = None" "tbl (store w') = (tbl (store w))(uID u \<mapsto> u)"
      by auto
    have "uEmail v \<noteq> uEmail u" if "tbl (store w) i = Some v" for i v
      using fresh_email [OF _ u(2) refl u(1) that] C by simp
    then have "account_step (tbl (store w)) (tbl (store w'))"
      unfolding u(2) by (intro Enrol u(1))
    then show ?thesis by simp
  qed simp
  with C show "good (store w') \<and> account_steps (tbl (store w)) (tbl (store w'))" by simp
qed

end

end
