(* ===== verification/UserFacts.thy ===== *)
theory UserFacts
  imports UserService Accounts
begin

text \<open>
  What the user service promises over the contract of its repository: which fields each call may
  change, that a super admin is always left, the exact answers of \<open>Deactivate\<close>, and what an invite
  creates. The last section shows how two interleaved deactivations defeat the guard.
\<close>

section \<open>The service on its repository\<close>

locale user_service = user_repository R tbl good norm stamp
  for R :: "'d IUserRepository" and tbl and good and norm and stamp +
  fixes s :: "'d UserService"
  assumes wired [simp]: "us_users s = R"

locale reliable_user_service =
  user_service R tbl good norm stamp s + reliable_user_repository R tbl good norm stamp
  for R :: "'d IUserRepository" and tbl and good and norm and stamp and s :: "'d UserService"

text \<open>The account that an invite asks the repository to create.\<close>

definition invited :: "(string \<Rightarrow> string) \<Rightarrow> outside \<Rightarrow> string \<Rightarrow> string \<Rightarrow> UserRole \<Rightarrow> User \<Rightarrow> bool" where
  "invited norm L email name role u \<longleftrightarrow> new_user norm
     \<lparr>cuEmail = norm_email (unicode_lower L) email, cuName = TrimSpace name, cuPasswordHash = ''!'', cuRole = role\<rparr> u"

text \<open>\<open>Update\<close> and \<open>Deactivate\<close> are a check followed by one statement.\<close>

definition Deactivate_check :: "'d UserService \<Rightarrow> uuid \<Rightarrow> ('d world, goerr option) state" where
  "Deactivate_check s i = do {
     r \<leftarrow> users_FindByID (us_users s) i;
     case r of
       Inl err \<Rightarrow> ret (Some err)
     | Inr u \<Rightarrow>
         if uRole u = RoleSuperAdmin then do {
           c \<leftarrow> users_CountSuperAdmins (us_users s);
           ret (case c of
                  Inl err \<Rightarrow> Some (Wrapped ''count super admins'' err)
                | Inr n \<Rightarrow> if n \<le> 1 then Some (BadRequest ''cannot deactivate the last super admin'') else None)
         } else ret None
   }"

definition Update_check :: "'d UserService \<Rightarrow> uuid \<Rightarrow> UpdateUserParams \<Rightarrow> ('d world, goerr option) state" where
  "Update_check s i params = do {
     r \<leftarrow> users_FindByID (us_users s) i;
     case r of
       Inl err \<Rightarrow> ret (Some err)
     | Inr u \<Rightarrow>
         if demotes params u then do {
           c \<leftarrow> users_CountSuperAdmins (us_users s);
           ret (case c of
                  Inl err \<Rightarrow> Some (Wrapped ''count super admins'' err)
                | Inr n \<Rightarrow> if n \<le> 1 then Some (BadRequest ''cannot change role of the last super admin'') else None)
         } else ret None
   }"

lemma run_Users_Deactivate:
  "run_state (Users_Deactivate s i) w =
     (let (e, w1) = run_state (Deactivate_check s i) w
      in if e = None then run_state (users_Deactivate (us_users s) i) w1 else (e, w1))"
  by (simp add: Users_Deactivate_def Deactivate_check_def Let_def split: prod.split sum.split if_split)

lemma run_Users_Update:
  "run_state (Users_Update s i params) w =
     (let (e, w1) = run_state (Update_check s i params) w
      in case e of None \<Rightarrow> run_state (users_Update (us_users s) i params) w1 | Some err \<Rightarrow> (Inl err, w1))"
  by (simp add: Users_Update_def Update_check_def Let_def split: prod.split sum.split if_split option.split)

context user_service
begin

section \<open>The guard\<close>

text \<open>What a passed check has seen; nothing has been changed by then.\<close>

lemma count_run:
  assumes "good (store w)" "run_state (users_CountSuperAdmins R) w = (Inr n, w1)"
  shows "n = int (card (active_super_admins (tbl (store w))))"
  using CountSuperAdmins_run [OF assms] by simp

lemma Deactivate_check_run:
  assumes g: "good (store w)" and run: "run_state (Deactivate_check s i) w = (e, w1)"
  shows "good (store w1) \<and> tbl (store w1) = tbl (store w) \<and> same_but_store w w1 \<and>
    (e = None \<longrightarrow> (\<exists>u. tbl (store w) i = Some u \<and>
       (uRole u = RoleSuperAdmin \<longrightarrow> 1 < card (active_super_admins (tbl (store w))))))"
proof -
  obtain r w2 where find: "run_state (users_FindByID R i) w = (r, w2)" by fastforce
  note F = FindByID_run [OF g find]
  show ?thesis
  proof (cases r)
    case (Inr u)
    obtain c w3 where cnt: "run_state (users_CountSuperAdmins R) w2 = (c, w3)" by fastforce
    have g2: "good (store w2)" using F by simp
    from F CountSuperAdmins_run [OF g2 cnt] Inr find cnt run show ?thesis
      by (auto simp: Deactivate_check_def split: if_splits sum.splits intro: same_but_store_trans)
  qed (use F find run in \<open>auto simp: Deactivate_check_def\<close>)
qed

lemma Update_check_run:
  assumes g: "good (store w)" and run: "run_state (Update_check s i params) w = (e, w1)"
  shows "good (store w1) \<and> tbl (store w1) = tbl (store w) \<and> same_but_store w w1 \<and>
    (e = None \<longrightarrow> (\<exists>u. tbl (store w) i = Some u \<and>
       (demotes params u \<longrightarrow> 1 < card (active_super_admins (tbl (store w))))))"
proof -
  obtain r w2 where find: "run_state (users_FindByID R i) w = (r, w2)" by fastforce
  note F = FindByID_run [OF g find]
  show ?thesis
  proof (cases r)
    case (Inr u)
    obtain c w3 where cnt: "run_state (users_CountSuperAdmins R) w2 = (c, w3)" by fastforce
    have g2: "good (store w2)" using F by simp
    from F CountSuperAdmins_run [OF g2 cnt] Inr find cnt run show ?thesis
      by (auto simp: Update_check_def split: if_splits sum.splits intro: same_but_store_trans)
  qed (use F find run in \<open>auto simp: Update_check_def\<close>)
qed

section \<open>Refinement of the accounts\<close>

lemma Deactivate_refines: "state_io_rel refines_accounts (Users_Deactivate s i)"
proof (rule refines_runI)
  fix w e w'
  assume g: "good (store w)" and run: "run_state (Users_Deactivate s i) w = (e, w')"
  obtain e1 w1 where chk: "run_state (Deactivate_check s i) w = (e1, w1)" by fastforce
  note C = Deactivate_check_run [OF g chk]
  show "good (store w') \<and> account_steps (tbl (store w)) (tbl (store w'))"
  proof (cases e1)
    case None
    with run chk have run2: "run_state (users_Deactivate R i) w1 = (e, w')"
      by (simp add: run_Users_Deactivate)
    have g1: "good (store w1)" using C by simp
    note D = Deactivate_run [OF g1 run2]
    from C None obtain u where u: "tbl (store w) i = Some u"
      and left: "uRole u = RoleSuperAdmin \<Longrightarrow> active_super_admins (tbl (store w)) - {i} \<noteq> {}"
      using another_super_admin by blast
    from D C u have "tbl (store w') = tbl (store w) \<or>
        (\<exists>t. tbl (store w') = (tbl (store w))(i \<mapsto> u\<lparr>uIsActive := False, uUpdatedAt := t\<rparr>))"
      by (auto simp: upd_user_def)
    moreover have "account_step (tbl (store w)) ((tbl (store w))(i \<mapsto> u\<lparr>uIsActive := False, uUpdatedAt := t\<rparr>))" for t
      using Deactivated [where m = "tbl (store w)" and i = i and u = u, OF u] left by (simp add: super_admin_def)
    ultimately have "account_steps (tbl (store w)) (tbl (store w'))" by (metis r_into_rtranclp rtranclp.rtrancl_refl)
    with D show ?thesis by simp
  qed (use C run chk in \<open>auto simp: run_Users_Deactivate\<close>)
qed

lemma Update_refines: "state_io_rel refines_accounts (Users_Update s i params)"
proof (rule refines_runI)
  fix w r w'
  assume g: "good (store w)" and run: "run_state (Users_Update s i params) w = (r, w')"
  obtain e1 w1 where chk: "run_state (Update_check s i params) w = (e1, w1)" by fastforce
  note C = Update_check_run [OF g chk]
  show "good (store w') \<and> account_steps (tbl (store w)) (tbl (store w'))"
  proof (cases e1)
    case None
    with run chk have run2: "run_state (users_Update R i params) w1 = (r, w')"
      by (simp add: run_Users_Update)
    have g1: "good (store w1)" using C by simp
    note U = Update_run [OF g1 run2]
    from C None obtain u where u: "tbl (store w) i = Some u"
      and left: "demotes params u \<Longrightarrow> active_super_admins (tbl (store w)) - {i} \<noteq> {}"
      using another_super_admin by blast
    from U C u have "tbl (store w') = tbl (store w) \<or>
        (\<exists>t. tbl (store w') = (tbl (store w))(i \<mapsto> (apply_update params u)\<lparr>uUpdatedAt := t\<rparr>))"
      by (auto simp: upd_user_def)
    moreover have "account_step (tbl (store w)) ((tbl (store w))(i \<mapsto> (apply_update params u)\<lparr>uUpdatedAt := t\<rparr>))" for t
    proof (rule Profile [where m = "tbl (store w)" and i = i, OF u])
      show "same_but_profile u ((apply_update params u)\<lparr>uUpdatedAt := t\<rparr>)"
        by (simp add: same_but_profile_def apply_update_def)
      assume "super_admin u \<and> \<not> super_admin ((apply_update params u)\<lparr>uUpdatedAt := t\<rparr>)"
      then have "demotes params u"
        by (auto simp: demotes_def super_admin_def apply_update_def split: option.splits)
      then show "active_super_admins (tbl (store w)) - {i} \<noteq> {}" by (rule left)
    qed
    ultimately have "account_steps (tbl (store w)) (tbl (store w'))" by (metis r_into_rtranclp rtranclp.rtrancl_refl)
    with U show ?thesis by simp
  qed (use C run chk in \<open>auto simp: run_Users_Update\<close>)
qed

end

context user_service
begin

section \<open>Invites\<close>

text \<open>Every way an invite can end: nothing was created, or one account, which is left active only when
  the statement that deactivates it fails.\<close>

lemma Invite_run:
  assumes g: "good (store w)"
    and run: "run_state (Users_Invite L s email name role by_id) w = (r, w')"
  shows "good (store w') \<and>
    ((\<exists>e. r = Inl e) \<and> tbl (store w') = tbl (store w) \<or>
     (\<exists>u v. role \<noteq> RoleSuperAdmin \<and> norm_email (unicode_lower L) email \<noteq> '''' \<and>
        invited norm L email name role u \<and> tbl (store w) (uID u) = None \<and>
        tbl (store w') = (tbl (store w))(uID u \<mapsto> v) \<and>
        ((\<exists>e. r = Inl (Wrapped ''create invited user'' e) \<or> r = Inl (Wrapped ''deactivate invited user'' e)) \<and> v = u \<or>
         (\<exists>t. v = u\<lparr>uIsActive := False, uUpdatedAt := t\<rparr>) \<and>
         (\<forall>tok. r = Inr tok \<longrightarrow> (\<exists>k \<ge> ticks w. k < ticks w' \<and>
            IssuePurposeToken (jwt L) (now_at L k) (AppSecret (us_cfg s)) (uID u) (uEmail u)
              PurposeInvite (InviteTTLHours (us_cfg s) * time_Hour) = Inr tok)))))"
proof -
  let ?e = "norm_email (unicode_lower L) email"
  let ?cp = "\<lparr>cuEmail = ?e, cuName = TrimSpace name, cuPasswordHash = ''!'', cuRole = role\<rparr>"
  consider "role = RoleSuperAdmin \<or> ?e = ''''" | "role \<noteq> RoleSuperAdmin" "?e \<noteq> ''''" by blast
  then show ?thesis
  proof cases
    case 1
    with g run show ?thesis by (auto simp: Users_Invite_def Let_def split: if_splits)
  next
    case 2
    obtain f w1 where find: "run_state (users_FindByEmail R ?e) w = (f, w1)" by fastforce
    note F = FindByEmail_run [OF g find]
    show ?thesis
    proof (cases "\<exists>err. f = Inl err \<and> errors_Is err (Sentinel ErrNotFound)")
      case False
      with 2 run find F show ?thesis
        by (cases f) (auto simp: Users_Invite_def Let_def)
    next
      case True
      then obtain err where f: "f = Inl err" "errors_Is err (Sentinel ErrNotFound)" by blast
      obtain c w2 where create: "run_state (users_Create R ?cp) w1 = (c, w2)" by fastforce
      have g1: "good (store w1)" using F by simp
      note C = Create_run [OF g1 create]
      show ?thesis
      proof (cases c)
        case (Inl e)
        with 2 run find f create have w': "w' = w2" "\<exists>e. r = Inl (Wrapped ''create invited user'' e)"
          by (auto simp: Users_Invite_def Let_def)
        from C F have "tbl (store w2) = tbl (store w) \<or> (\<exists>u. invited norm L email name role u \<and>
            tbl (store w) (uID u) = None \<and> tbl (store w2) = (tbl (store w))(uID u \<mapsto> u))"
          by (auto simp: invited_def)
        with w' C 2 show ?thesis by blast
      next
        case (Inr u)
        with C F have u: "invited norm L email name role u" "tbl (store w) (uID u) = None"
            "tbl (store w2) = (tbl (store w))(uID u \<mapsto> u)" and g2: "good (store w2)"
          and t2: "ticks w \<le> ticks w2"
          by (auto simp: invited_def same_but_store_def)
        obtain e w3 where deact: "run_state (users_Deactivate R (uID u)) w2 = (e, w3)" by fastforce
        note D = Deactivate_run [OF g2 deact]
        have t3: "ticks w2 \<le> ticks w3" using D by (simp add: same_but_store_def)
        consider t where "tbl (store w3) = (tbl (store w))(uID u \<mapsto> u\<lparr>uIsActive := False, uUpdatedAt := t\<rparr>)"
          | "e \<noteq> None" "tbl (store w3) = (tbl (store w))(uID u \<mapsto> u)"
          using D u(3) by (auto simp: upd_user_def)
        moreover have w': "store w' = store w3" and fails: "e \<noteq> None \<Longrightarrow> \<exists>x. r = Inl (Wrapped ''deactivate invited user'' x)"
          and issued: "\<And>tok. r = Inr tok \<Longrightarrow> \<exists>k \<ge> ticks w. k < ticks w' \<and>
            IssuePurposeToken (jwt L) (now_at L k) (AppSecret (us_cfg s)) (uID u) (uEmail u)
              PurposeInvite (InviteTTLHours (us_cfg s) * time_Hour) = Inr tok"
          using 2 run find f create Inr deact t2 t3
          by (auto simp: Users_Invite_def Let_def split: option.splits sum.splits intro!: exI [of _ "Suc (ticks w3)"])
        ultimately obtain v where v: "tbl (store w3) = (tbl (store w))(uID u \<mapsto> v)"
            "(\<exists>e. r = Inl (Wrapped ''deactivate invited user'' e)) \<and> v = u \<or> (\<exists>t. v = u\<lparr>uIsActive := False, uUpdatedAt := t\<rparr>)"
          by cases blast+
        have "tbl (store w') = (tbl (store w))(uID u \<mapsto> v)" "good (store w')"
          using v(1) w' D by simp_all
        with 2 u(1,2) v(2) issued show ?thesis by blast
      qed
    qed
  qed
qed

lemma Invite_refines: "state_io_rel refines_accounts (Users_Invite L s email name role by_id)"
proof (rule refines_runI)
  fix w r w'
  assume g: "good (store w)" and run: "run_state (Users_Invite L s email name role by_id) w = (r, w')"
  note I = Invite_run [OF g run]
  have "account_steps (tbl (store w)) (tbl (store w'))"
  proof (cases "tbl (store w') = tbl (store w)")
    case False
    with I obtain u v where u: "tbl (store w) (uID u) = None" "tbl (store w') = (tbl (store w))(uID u \<mapsto> v)"
      and role: "role \<noteq> RoleSuperAdmin" "invited norm L email name role u"
      and v: "v = u \<or> (\<exists>t. v = u\<lparr>uIsActive := False, uUpdatedAt := t\<rparr>)"
      by auto
    have "uEmail x \<noteq> uEmail u" if "tbl (store w) i = Some x" for i x
      using fresh_email [OF _ u(2) _ u(1) that] I v by auto
    with u(1) have enrol: "account_step (tbl (store w)) ((tbl (store w))(uID u \<mapsto> u))" by (rule Enrol)
    have "account_step ((tbl (store w))(uID u \<mapsto> u)) ((tbl (store w))(uID u \<mapsto> u\<lparr>uIsActive := False, uUpdatedAt := t\<rparr>))" for t
      using Deactivated [where m = "(tbl (store w))(uID u \<mapsto> u)" and i = "uID u" and u = u and t = t] role
      by (simp add: super_admin_def invited_def new_user_def)
    with enrol v show ?thesis unfolding u(2)
      by (metis r_into_rtranclp rtranclp.rtrancl_into_rtrancl)
  qed simp
  with I show "good (store w') \<and> account_steps (tbl (store w)) (tbl (store w'))" by simp
qed

lemma user_call_refines: "state_io_rel refines_accounts (user_call L s c)"
  by (cases c)
    (simp_all add: Deactivate_refines Update_refines Invite_refines Users_List_def Users_Get_def refines_quiet)

end

context reliable_user_service
begin

section \<open>Answers on a healthy connection\<close>

lemma count_total:
  assumes "good (store w)"
  obtains w1 where "run_state (users_CountSuperAdmins R) w = (Inr (int (card (active_super_admins (tbl (store w))))), w1)"
    "good (store w1)" "tbl (store w1) = tbl (store w)"
proof -
  obtain r w1 where run: "run_state (users_CountSuperAdmins R) w = (r, w1)" by fastforce
  with CountSuperAdmins_total [OF assms] CountSuperAdmins_run [OF assms run] that show thesis by auto
qed

lemma Deactivate_check_total:
  assumes good: "good (store w)"
  obtains e w1 where "run_state (Deactivate_check s i) w = (e, w1)" "good (store w1)"
    "tbl (store w1) = tbl (store w)"
    "e = (case tbl (store w) i of
            None \<Rightarrow> Some (Sentinel ErrNotFound)
          | Some u \<Rightarrow>
              if uRole u = RoleSuperAdmin \<and> card (active_super_admins (tbl (store w))) \<le> 1
              then Some (BadRequest ''cannot deactivate the last super admin'') else None)"
proof (cases "tbl (store w) i")
  case None
  obtain r w1 where find: "run_state (users_FindByID R i) w = (r, w1)" by fastforce
  have "r = Inl (Sentinel ErrNotFound)" using FindByID_total [OF good, of i] None find by simp
  with FindByID_run [OF good find] None find that show thesis by (auto simp: Deactivate_check_def)
next
  case (Some u)
  obtain w1 where find: "run_state (users_FindByID R i) w = (Inr u, w1)" "good (store w1)"
      "tbl (store w1) = tbl (store w)"
    by (rule find_id [OF good Some])
  obtain w2 where "run_state (users_CountSuperAdmins R) w1 = (Inr (int (card (active_super_admins (tbl (store w1))))), w2)"
      "good (store w2)" "tbl (store w2) = tbl (store w1)"
    by (rule count_total [OF find(2)])
  with find Some that show thesis
    by (cases "uRole u = RoleSuperAdmin"; cases "card (active_super_admins (tbl (store w))) \<le> 1")
      (auto simp: Deactivate_check_def)
qed

lemma Deactivate_outcome:
  assumes good: "good (store w)" and run: "run_state (Users_Deactivate s i) w = (e, w')"
  shows "good (store w') \<and>
    (case tbl (store w) i of
       None \<Rightarrow> e = Some (Sentinel ErrNotFound) \<and> tbl (store w') = tbl (store w)
     | Some u \<Rightarrow>
         if uRole u = RoleSuperAdmin \<and> card (active_super_admins (tbl (store w))) \<le> 1
         then e = Some (BadRequest ''cannot deactivate the last super admin'') \<and> tbl (store w') = tbl (store w)
         else e = None \<and>
           (\<exists>t. tbl (store w') = (tbl (store w))(i \<mapsto> u\<lparr>uIsActive := False, uUpdatedAt := t\<rparr>)))"
proof -
  obtain e1 w1 where chk: "run_state (Deactivate_check s i) w = (e1, w1)" "good (store w1)"
      "tbl (store w1) = tbl (store w)"
    and e1: "e1 = (case tbl (store w) i of
            None \<Rightarrow> Some (Sentinel ErrNotFound)
          | Some u \<Rightarrow>
              if uRole u = RoleSuperAdmin \<and> card (active_super_admins (tbl (store w))) \<le> 1
              then Some (BadRequest ''cannot deactivate the last super admin'') else None)"
    by (rule Deactivate_check_total [OF good])
  show ?thesis
  proof (cases e1)
    case (Some x)
    with run chk have "e = e1" "w' = w1" by (simp_all add: run_Users_Deactivate)
    with chk e1 Some show ?thesis by (auto split: option.splits if_splits)
  next
    case None
    then obtain u where u: "tbl (store w) i = Some u"
      and cond: "\<not> (uRole u = RoleSuperAdmin \<and> card (active_super_admins (tbl (store w))) \<le> 1)"
      using e1 by (auto split: option.splits if_splits)
    from None run chk have run2: "run_state (users_Deactivate R i) w1 = (e, w')"
      by (simp add: run_Users_Deactivate)
    have "e = None" using Deactivate_total [OF chk(2), of i] chk u run2 by simp
    moreover obtain t where "tbl (store w') = (tbl (store w))(i \<mapsto> u\<lparr>uIsActive := False, uUpdatedAt := t\<rparr>)"
      using Deactivate_run [OF chk(2) run2] calculation chk u by (auto dest!: upd_user_Some [where u = u])
    ultimately show ?thesis using Deactivate_run [OF chk(2) run2] u cond by auto
  qed
qed

lemma Update_outcome:
  assumes good: "good (store w)" and run: "run_state (Users_Update s i params) w = (r, w')"
  shows "good (store w') \<and>
    (case tbl (store w) i of
       None \<Rightarrow> r = Inl (Sentinel ErrNotFound) \<and> tbl (store w') = tbl (store w)
     | Some u \<Rightarrow>
         if demotes params u \<and> card (active_super_admins (tbl (store w))) \<le> 1
         then r = Inl (BadRequest ''cannot change role of the last super admin'') \<and> tbl (store w') = tbl (store w)
         else (\<forall>v. r = Inr v \<longrightarrow> tbl (store w') i = Some v \<and>
                 v\<lparr>uUpdatedAt := 0\<rparr> = (apply_update params u)\<lparr>uUpdatedAt := 0\<rparr>) \<and>
              (\<forall>j. j \<noteq> i \<longrightarrow> tbl (store w') j = tbl (store w) j))"
proof (cases "tbl (store w) i")
  case None
  obtain x w1 where find: "run_state (users_FindByID R i) w = (x, w1)" by fastforce
  have "x = Inl (Sentinel ErrNotFound)" using FindByID_total [OF good, of i] None find by simp
  with FindByID_run [OF good find] None find run show ?thesis by (auto simp: Users_Update_def)
next
  case (Some u)
  obtain w1 where find: "run_state (users_FindByID R i) w = (Inr u, w1)" "good (store w1)"
      "tbl (store w1) = tbl (store w)"
    by (rule find_id [OF good Some])
  obtain w2 where cnt: "run_state (users_CountSuperAdmins R) w1 = (Inr (int (card (active_super_admins (tbl (store w1))))), w2)"
      "good (store w2)" "tbl (store w2) = tbl (store w1)"
    by (rule count_total [OF find(2)])
  show ?thesis
  proof (cases "demotes params u \<and> card (active_super_admins (tbl (store w))) \<le> 1")
    case True
    with find cnt Some run show ?thesis by (auto simp: Users_Update_def)
  next
    case False
    define w3 where "w3 = (if demotes params u then w2 else w1)"
    have g3: "good (store w3)" "tbl (store w3) = tbl (store w)" using find cnt by (simp_all add: w3_def)
    have run3: "run_state (users_Update R i params) w3 = (r, w')"
      using False find cnt run by (auto simp: Users_Update_def w3_def split: if_splits)
    note U = Update_run [OF g3(1) run3]
    have same: "tbl (store w') j = tbl (store w) j" if "j \<noteq> i" for j
      using U g3 that by (auto simp: upd_user_def split: option.splits)
    have "tbl (store w') i = Some v \<and> v\<lparr>uUpdatedAt := 0\<rparr> = (apply_update params u)\<lparr>uUpdatedAt := 0\<rparr>" if "r = Inr v" for v
      using U g3 that Some by auto
    with same Some False U show ?thesis by auto
  qed
qed

text \<open>
  Two deactivations whose checks both run before either statement: with exactly two super admins,
  each sees the other, and both go through.
\<close>

lemma Deactivate_race:
  assumes good: "good (store w)" and two: "active_super_admins (tbl (store w)) = {a, b}" "a \<noteq> b"
  obtains w1 w2 w3 w4 where
    "run_state (Deactivate_check s a) w = (None, w1)" "run_state (Deactivate_check s b) w1 = (None, w2)"
    "run_state (users_Deactivate R a) w2 = (None, w3)" "run_state (users_Deactivate R b) w3 = (None, w4)"
    "active_super_admins (tbl (store w4)) = {}"
proof -
  from two obtain u v where u: "tbl (store w) a = Some u" and v: "tbl (store w) b = Some v"
    using active_super_admins_iff [of a "tbl (store w)"] active_super_admins_iff [of b "tbl (store w)"] by auto
  have card: "\<not> card (active_super_admins (tbl (store w))) \<le> 1" using two by simp
  obtain w1 where a: "run_state (Deactivate_check s a) w = (None, w1)" "good (store w1)" "tbl (store w1) = tbl (store w)"
    using Deactivate_check_total [OF good, of a] u card by auto
  obtain w2 where b: "run_state (Deactivate_check s b) w1 = (None, w2)" "good (store w2)" "tbl (store w2) = tbl (store w)"
    using Deactivate_check_total [OF a(2), of b] a(3) v card by auto
  obtain e w3 where ra: "run_state (users_Deactivate R a) w2 = (e, w3)" by fastforce
  have e: "e = None" using Deactivate_total [OF b(2), of a] b(3) u ra by simp
  with Deactivate_run [OF b(2) ra] b(3) u obtain t where
    A: "good (store w3)" "tbl (store w3) = (tbl (store w))(a \<mapsto> u\<lparr>uIsActive := False, uUpdatedAt := t\<rparr>)"
    by (auto dest!: upd_user_Some [where u = u])
  obtain e' w4 where rb: "run_state (users_Deactivate R b) w3 = (e', w4)" by fastforce
  have e': "e' = None" using Deactivate_total [OF A(1), of b] A(2) v rb by simp
  with Deactivate_run [OF A(1) rb] A(2) v two obtain t' where
    B: "tbl (store w4) = (tbl (store w3))(b \<mapsto> v\<lparr>uIsActive := False, uUpdatedAt := t'\<rparr>)"
    by (auto dest!: upd_user_Some [where u = v])
  have "active_super_admins (tbl (store w4)) = {}"
    unfolding B A(2) active_super_admins_upd two(1) by (simp add: super_admin_def)
  with a(1) b(1) ra rb e e' show thesis by (intro that) auto
qed

end

section \<open>On the PostgreSQL repository\<close>

interpretation pgu: user_service "NewUserRepository L" users_view single_node
    "norm_email (unicode_lower L)" "pg_time L" "NewServices_Users L cfg" for L cfg
  by (rule user_service.intro [OF pg.user_repository_axioms], rule user_service_axioms.intro) simp

interpretation pguh: reliable_user_service "NewUserRepository (healthy L)" users_view single_node
    "norm_email (unicode_lower L)" "pg_time L" "NewServices_Users (healthy L) cfg" for L cfg
proof -
  have "user_service (NewUserRepository (healthy L)) users_view single_node (norm_email (unicode_lower L))
      (pg_time L) (NewServices_Users (healthy L) cfg)"
    using pgu.user_service_axioms [of "healthy L" cfg] by simp
  then show "reliable_user_service (NewUserRepository (healthy L)) users_view single_node
      (norm_email (unicode_lower L)) (pg_time L) (NewServices_Users (healthy L) cfg)"
    by (intro reliable_user_service.intro pgh.reliable_user_repository_axioms)
qed

section \<open>Properties\<close>

text \<open>C26: on a healthy connection, deactivating a user answers exactly this: \<open>ErrNotFound\<close> when there is no
  such user; a bad request when the user is a super admin and at most one active super admin is counted;
  otherwise no error, and that account, and only that account, becomes inactive. A refused call changes no
  account.\<close>

theorem Deactivate_answers:
  assumes "single_node (store w)"
    and "run_state (Users_Deactivate (NewServices_Users (healthy L) cfg) i) w = (e, w')"
  shows "single_node (store w') \<and>
    (case users_view (store w) i of
       None \<Rightarrow> e = Some (Sentinel ErrNotFound) \<and> users_view (store w') = users_view (store w)
     | Some u \<Rightarrow>
         if uRole u = RoleSuperAdmin \<and> card (active_super_admins (users_view (store w))) \<le> 1
         then e = Some (BadRequest ''cannot deactivate the last super admin'') \<and>
           users_view (store w') = users_view (store w)
         else e = None \<and>
           (\<exists>t. users_view (store w') =
              (users_view (store w))(i \<mapsto> u\<lparr>uIsActive := False, uUpdatedAt := t\<rparr>)))"
  by (rule pguh.Deactivate_outcome [OF assms])

lemma example_super_admins: "active_super_admins (users_view (store example_world)) = {1}"
  by (auto simp: active_super_admins_def users_view_def example_defs role_defs split: if_splits)

theorem Deactivate_answers_witness:
  "fst (run_state (Users_Deactivate (NewServices_Users example_outside example_config) 1) example_world) =
     Some (BadRequest ''cannot deactivate the last super admin'') \<and>
   fst (run_state (Users_Deactivate (NewServices_Users example_outside example_config) 2) example_world) = None \<and>
   fst (run_state (Users_Deactivate (NewServices_Users example_outside example_config) 9) example_world) =
     Some (Sentinel ErrNotFound)"
proof -
  note D = Deactivate_answers [where L = example_outside and cfg = example_config and w = example_world,
      simplified, OF prod.collapse [symmetric]]
  have "users_view (store example_world) 9 = None" by (simp add: users_view_def example_defs)
  with D [of 1] D [of 2] D [of 9] show ?thesis
    by (simp add: example_super_admins) (simp add: example_row_def role_defs)
qed

text \<open>C27: on a healthy connection an update of a missing user answers \<open>ErrNotFound\<close>, taking the role of a
  super admin away when at most one active super admin is counted answers a bad request (both without any
  change), and an update that answers a user has stored exactly the trimmed name and the role it was asked
  for in that account and no other.\<close>

theorem Update_answers:
  assumes "single_node (store w)"
    and "run_state (Users_Update (NewServices_Users (healthy L) cfg) i params) w = (r, w')"
  shows "case users_view (store w) i of
       None \<Rightarrow> r = Inl (Sentinel ErrNotFound) \<and> users_view (store w') = users_view (store w)
     | Some u \<Rightarrow>
         if demotes params u \<and> card (active_super_admins (users_view (store w))) \<le> 1
         then r = Inl (BadRequest ''cannot change role of the last super admin'') \<and>
           users_view (store w') = users_view (store w)
         else (\<forall>v. r = Inr v \<longrightarrow> users_view (store w') i = Some v \<and>
                 v\<lparr>uUpdatedAt := 0\<rparr> = (apply_update params u)\<lparr>uUpdatedAt := 0\<rparr>) \<and>
              (\<forall>j. j \<noteq> i \<longrightarrow> users_view (store w') j = users_view (store w) j)"
  using pguh.Update_outcome [OF assms] by (rule conjunct2)

theorem Update_answers_witness:
  "fst (run_state (Users_Update (NewServices_Users example_outside example_config) 1
     \<lparr>uuName = None, uuRole = Some RoleAdmin\<rparr>) example_world) =
     Inl (BadRequest ''cannot change role of the last super admin'')"
  using Update_answers [where L = example_outside and cfg = example_config and w = example_world
      and i = 1 and params = "\<lparr>uuName = None, uuRole = Some RoleAdmin\<rparr>", simplified, OF prod.collapse [symmetric]]
  by (simp add: example_super_admins) (simp add: example_row_def role_defs demotes_def)

text \<open>C28: an invite that answers a token has created exactly one account, which did not exist before: under
  the normalised email and the trimmed name, inactive, with the password hash \<open>!\<close> and the role asked
  for, which is not super admin; and the token is an invite token for that account. An invite that answers an
  error has changed nothing, or left that one account: inactive, or still active, and the latter only with the
  error that reports the creation (the INSERT took effect but its acknowledgement was lost) or the
  deactivation as failed.\<close>

theorem Invite_outcome:
  assumes "single_node (store w)"
    and "run_state (Users_Invite L (NewServices_Users L cfg) email name role by_id) w = (r, w')"
  shows "(\<exists>e. r = Inl e) \<and> users_view (store w') = users_view (store w) \<or>
    (\<exists>u v. role \<noteq> RoleSuperAdmin \<and> uEmail u = norm_email (unicode_lower L) (norm_email (unicode_lower L) email) \<and>
       norm_email (unicode_lower L) email \<noteq> '''' \<and> uName u = TrimSpace (TrimSpace name) \<and> uRole u = role \<and>
       uPasswordHash u = ''!'' \<and> uIsActive u \<and> \<not> uTOTPEnabled u \<and>
       users_view (store w) (uID u) = None \<and>
       users_view (store w') = (users_view (store w))(uID u \<mapsto> v) \<and>
       ((\<exists>e. r = Inl (Wrapped ''create invited user'' e) \<or> r = Inl (Wrapped ''deactivate invited user'' e)) \<and> v = u \<or>
        (\<exists>t. v = u\<lparr>uIsActive := False, uUpdatedAt := t\<rparr>) \<and>
        (\<forall>tok. r = Inr tok \<longrightarrow> (\<exists>k \<ge> ticks w. k < ticks w' \<and>
           IssuePurposeToken (jwt L) (now_at L k) (AppSecret cfg) (uID u) (uEmail u)
             PurposeInvite (InviteTTLHours cfg * time_Hour) = Inr tok))))"
proof -
  let ?norm = "norm_email (unicode_lower L)"
  have new: "uEmail u = ?norm (?norm email)" "uName u = TrimSpace (TrimSpace name)" "uRole u = role"
      "uPasswordHash u = ''!''" "uIsActive u" "\<not> uTOTPEnabled u"
    if "invited ?norm L email name role u" for u
    using that by (simp_all add: invited_def new_user_def)
  show ?thesis
    using pgu.Invite_run [OF assms] new
    by simp metis
qed

theorem Invite_outcome_witness:
  "\<exists>tok (u :: User) v. fst (run_state (Users_Invite example_outside (NewServices_Users example_outside example_config)
       ''bob@x'' '' Bob '' RoleMember 1) example_world) = Inr tok \<and>
     uEmail u = ''bob@x'' \<and> uRole u = RoleMember \<and> uPasswordHash u = ''!'' \<and>
     users_view (store (snd (run_state (Users_Invite example_outside (NewServices_Users example_outside example_config)
       ''bob@x'' '' Bob '' RoleMember 1) example_world))) = (users_view (store example_world))(uID u \<mapsto> v) \<and>
     \<not> uIsActive v"
proof -
  have norm [simp]: "norm_email f ''bob@x'' = ''bob@x''" for f by code_simp
  let ?m = "Users_Invite example_outside (NewServices_Users example_outside example_config) ''bob@x'' '' Bob '' RoleMember 1"
  obtain tok where tok: "fst (run_state ?m example_world) = Inr tok"
    by (simp add: Users_Invite_def run_defs token_run_defs example_defs role_defs example_jwt_def
        run_pg_read_single run_pg_write_healthy)
  with Invite_outcome [where L = example_outside and cfg = example_config and w = example_world,
      OF example_good prod.collapse [symmetric], of "''bob@x''" "'' Bob ''" RoleMember 1]
  obtain u v t where "uEmail u = ''bob@x''" "uRole u = RoleMember" "uPasswordHash u = ''!''"
      "users_view (store (snd (run_state ?m example_world))) = (users_view (store example_world))(uID u \<mapsto> v)"
      "v = u\<lparr>uIsActive := False, uUpdatedAt := t\<rparr>"
    by auto
  with tok show ?thesis by (intro exI [of _ tok] exI [of _ u] exI [of _ v]) simp
qed

text \<open>C17: \<open>Deactivate\<close> is its check followed by one statement, in separate transactions. When exactly two
  super admins are left and each is deactivated by its own request, both checks can pass before either
  statement runs, both requests then answer no error, and no active super admin is left.\<close>

theorem Deactivate_interleaved:
  assumes "single_node (store w)"
    and "active_super_admins (users_view (store w)) = {a, b}" and "a \<noteq> b"
  shows "(\<forall>i v. run_state (Users_Deactivate (NewServices_Users (healthy L) cfg) i) v =
       (let (e, v1) = run_state (Deactivate_check (NewServices_Users (healthy L) cfg) i) v
        in if e = None then run_state (pgx_users_Deactivate (healthy L) i) v1 else (e, v1))) \<and>
    (\<exists>w1 w2 w3 w4.
       run_state (Deactivate_check (NewServices_Users (healthy L) cfg) a) w = (None, w1) \<and>
       run_state (Deactivate_check (NewServices_Users (healthy L) cfg) b) w1 = (None, w2) \<and>
       run_state (pgx_users_Deactivate (healthy L) a) w2 = (None, w3) \<and>
       run_state (pgx_users_Deactivate (healthy L) b) w3 = (None, w4) \<and>
       active_super_admins (users_view (store w4)) = {})"
proof
  show "\<forall>i v. run_state (Users_Deactivate (NewServices_Users (healthy L) cfg) i) v =
       (let (e, v1) = run_state (Deactivate_check (NewServices_Users (healthy L) cfg) i) v
        in if e = None then run_state (pgx_users_Deactivate (healthy L) i) v1 else (e, v1))"
    by (simp add: run_Users_Deactivate split: prod.split)
  obtain w1 w2 w3 w4 where
    "run_state (Deactivate_check (NewServices_Users (healthy L) cfg) a) w = (None, w1)"
    "run_state (Deactivate_check (NewServices_Users (healthy L) cfg) b) w1 = (None, w2)"
    "run_state (users_Deactivate (NewUserRepository (healthy L)) a) w2 = (None, w3)"
    "run_state (users_Deactivate (NewUserRepository (healthy L)) b) w3 = (None, w4)"
    "active_super_admins (users_view (store w4)) = {}"
    by (rule pguh.Deactivate_race [OF assms])
  then show "\<exists>w1 w2 w3 w4.
       run_state (Deactivate_check (NewServices_Users (healthy L) cfg) a) w = (None, w1) \<and>
       run_state (Deactivate_check (NewServices_Users (healthy L) cfg) b) w1 = (None, w2) \<and>
       run_state (pgx_users_Deactivate (healthy L) a) w2 = (None, w3) \<and>
       run_state (pgx_users_Deactivate (healthy L) b) w3 = (None, w4) \<and>
       active_super_admins (users_view (store w4)) = {}"
    by simp
qed

definition two_admins_world :: "DB world" where
  "two_admins_world = example_world\<lparr>store := \<lparr>primary = example_tables\<lparr>users :=
     [example_row 1 ''root@x'' SuperAdmin True, example_row 2 ''ann@x'' SuperAdmin True]\<rparr>,
     replicas = [], rr = 0\<rparr>\<rparr>"

theorem Deactivate_interleaved_witness:
  "\<exists>w1 w2 w3 w4.
     run_state (Deactivate_check (NewServices_Users example_outside example_config) 1) two_admins_world = (None, w1) \<and>
     run_state (Deactivate_check (NewServices_Users example_outside example_config) 2) w1 = (None, w2) \<and>
     run_state (pgx_users_Deactivate example_outside 1) w2 = (None, w3) \<and>
     run_state (pgx_users_Deactivate example_outside 2) w3 = (None, w4) \<and>
     active_super_admins (users_view (store w4)) = {}"
proof -
  have good: "single_node (store two_admins_world)"
    by (simp add: single_node_def wf_tables_def two_admins_world_def example_defs)
  have two: "active_super_admins (users_view (store two_admins_world)) = {1, 2}"
    by (auto simp: active_super_admins_def users_view_def two_admins_world_def example_defs role_defs split: if_splits)
  from Deactivate_interleaved [OF good two, of example_outside example_config] show ?thesis
    by simp
qed

end
