(* ===== verification/System.thy ===== *)
theory System
  imports UserFacts
begin

text \<open>
  The services composed over one PostgreSQL node, in two granularities. \<open>process_run\<close> is a process that runs
  its calls one at a time: a rule for everything that it does to the tables (a call of either service, the
  boot, the scheduled sweep, the audit middleware), and one for time that passes. Its runs refine the
  specification of the accounts. \<open>repo_run\<close> is the server that answers requests concurrently: its steps are the
  single operations of the repositories, in any order, and it contains every \<open>process_run\<close>; what survives
  interleaving is proved over it. That at least one super admin stays is not part of that:
  \<open>UserFacts.Deactivate_interleaved\<close> is an interleaving of two calls that loses the last two.
\<close>

section \<open>Steps of a process\<close>

inductive process_step :: "outside \<Rightarrow> Config \<Rightarrow> DB world \<Rightarrow> DB world \<Rightarrow> bool" for L cfg where
  Auth_call: "run_state (auth_call L (NewServices_Auth L cfg) c) w = (r, w') \<Longrightarrow> process_step L cfg w w'"
| User_call: "run_state (user_call L (NewServices_Users L cfg) q) w = (r, w') \<Longrightarrow> process_step L cfg w w'"
| Boot: "run_state (EnsureBootstrapAdmin L cfg (NewUserRepository L)) w = (e, w') \<Longrightarrow> process_step L cfg w w'"
| Sweep: "run_state (resets_DeleteExpired (NewPasswordResetRepository L)) w = (e, w') \<Longrightarrow> process_step L cfg w w'"
| Audited: "run_state (audit_Create (NewAuditRepository L) p) w = (e, w') \<Longrightarrow> process_step L cfg w w'"
| Elapse: "ticks w \<le> n \<Longrightarrow> process_step L cfg w (w\<lparr>ticks := n\<rparr>)"

abbreviation process_run :: "outside \<Rightarrow> Config \<Rightarrow> DB world \<Rightarrow> DB world \<Rightarrow> bool" where
  "process_run L cfg \<equiv> (process_step L cfg)\<^sup>*\<^sup>*"

section \<open>Refinement\<close>

context auth_service
begin

lemma auth_call_refines: "state_io_rel refines_accounts (auth_call L s c)"
  by (rule evolve_refines [OF call_evolves call_may_change_account])

lemma resets_refine: "state_io_rel refines_accounts (resets_DeleteExpired P)"
  by (rule evolve_refines [where q = "(=)"])
    (auto simp: option.rel_eq same_account_def intro: evolve_resets)

lemma EnsureBootstrapAdmin_refines [rel_intros]: "state_io_rel refines_accounts (EnsureBootstrapAdmin L cfg R)"
  unfolding EnsureBootstrapAdmin_def bcrypt_hash_def by (intro rel_intros refines_order)

end

lemma audit_Create_users:
  assumes "single_node (store w)" "run_state (audit_Create (NewAuditRepository L) p) w = (e, w')"
  shows "users_view (store w') = users_view (store w)"
proof -
  have "state_io_rel (on_store (same_view users_view)) (pgx_audit_Create L p)"
    unfolding pgx_audit_Create_def
    by (intro rel_intros on_store_order same_view_order) (auto elim: insert_audit_Inr)
  then show ?thesis using assms(2) by (auto dest: same_viewD)
qed

lemma process_step_refines:
  assumes "process_step L cfg w w'" "single_node (store w)"
  shows "single_node (store w') \<and> account_steps (users_view (store w)) (users_view (store w'))"
  using assms
proof induction
  case (Auth_call c w r w')
  then show ?case using pg.refinesD [OF pgs.auth_call_refines] by blast
next
  case (User_call q w r w')
  then show ?case using pg.refinesD [OF pgu.user_call_refines] by blast
next
  case (Boot w e w')
  then show ?case using pg.refinesD [OF pgs.EnsureBootstrapAdmin_refines] by blast
next
  case (Sweep w e w')
  then show ?case using pg.refinesD [OF pgs.resets_refine] by blast
next
  case (Audited p w e w')
  then show ?case using audit_Create_users pgaud.audit_Create_run by (metis rtranclp.rtrancl_refl)
qed simp

lemma process_run_refines:
  assumes "process_run L cfg w w'" "single_node (store w)"
  shows "single_node (store w') \<and> account_steps (users_view (store w)) (users_view (store w'))"
  using assms
proof (induction rule: rtranclp_induct)
  case (step v w')
  then show ?case using process_step_refines [OF step(2)] by (metis rtranclp_trans)
qed simp

section \<open>The log\<close>

lemma write_keeps_log [rel_intros]:
  "(\<And>now uid t a t'. st now uid t = Inr (a, t') \<Longrightarrow> audit_logs t' = audit_logs t) \<Longrightarrow>
   state_io_rel (on_store (same_view audit_view)) (pg_write L st)"
  by (rule rel_write_view [where g = audit_logs]) (auto simp: audit_view_def)

lemma read_keeps_log [rel_intros]: "state_io_rel (on_store (same_view audit_view)) (pg_read L q)"
  by (rule rel_read_view) (simp add: audit_view_def)

abbreviation keeps_log :: "(DB world, 'a) state \<Rightarrow> bool" where
  "keeps_log \<equiv> state_io_rel (on_store (same_view audit_view))"

lemma pgx_users_keep_log [rel_intros]:
  "keeps_log (pgx_users_Create L cp)" "keeps_log (pgx_users_FindByID L i)"
  "keeps_log (pgx_users_FindByEmail L email)" "keeps_log (pgx_users_List L lp)"
  "keeps_log (pgx_users_UpdatePassword L i h)" "keeps_log (pgx_users_IncrFailedAttempts L i)"
  "keeps_log (pgx_users_LockUntil L i until)" "keeps_log (pgx_users_ClearLock L i)"
  "keeps_log (pgx_users_SetTOTP L i secret b)" "keeps_log (pgx_users_Deactivate L i)"
  "keeps_log (pgx_users_CountSuperAdmins L)"
  unfolding pgx_users_defs
  by (intro rel_intros; auto intro: read_keeps_log dest: statement_frames split: if_splits prod.splits)+

lemma pgx_users_Update_keeps_log [rel_intros]: "keeps_log (pgx_users_Update L i up)"
  unfolding pgx_users_Update_def
  by (intro rel_intros) (auto simp: update_users_def Let_def split: sum.splits)

lemma pgx_resets_keep_log [rel_intros]:
  "keeps_log (pgx_resets_Create L rp)" "keeps_log (pgx_resets_FindByUserID L u)"
  "keeps_log (pgx_resets_SetToken L i tok)" "keeps_log (pgx_resets_Consume L i)"
  "keeps_log (pgx_resets_DeleteExpired L)"
  unfolding pgx_resets_defs
  by (intro rel_intros; auto dest: statement_frames)+

lemmas auth_call_defs =
  Auth_Login_def Login_failed_def Login_passed_def Auth_VerifyTOTP_def Auth_SetupTOTP_def Auth_ConfirmTOTP_def
  Auth_ForgotPassword_def Auth_VerifyResetEmail_def Auth_CompletePasswordReset_def Auth_AcceptInvite_def
  Auth_Me_def Auth_Logout_def

section \<open>Interleaved calls\<close>

text \<open>
  The server answers its requests concurrently, so between two statements of one call any other call may run
  its own. The steps here are single operations of the repositories, in any order and with any arguments; the
  two statements of \<open>pgPasswordResetRepository.Create\<close> are two steps, and \<open>Update\<close> of the users with nothing to
  set and the two lists only read. Any interleaving of any number of calls is a run of such steps.
\<close>

datatype repo_request =
    Op_users_Create CreateUserParams | Op_users_FindByID uuid | Op_users_FindByEmail string
  | Op_users_List ListUsersParams | Op_users_Update uuid UpdateUserParams | Op_users_UpdatePassword uuid string
  | Op_users_IncrFailedAttempts uuid | Op_users_LockUntil uuid time | Op_users_ClearLock uuid
  | Op_users_SetTOTP uuid string bool | Op_users_Deactivate uuid | Op_users_CountSuperAdmins
  | Op_resets_forget uuid | Op_resets_insert uuid string time | Op_resets_FindByUserID uuid
  | Op_resets_SetToken uuid string | Op_resets_Consume uuid | Op_resets_DeleteExpired
  | Op_audit_Create CreateAuditParams | Op_audit_List ListAuditParams

fun repo_call :: "outside \<Rightarrow> repo_request \<Rightarrow> (DB world, unit) state" where
  "repo_call L (Op_users_Create p) = ignore (pgx_users_Create L p)"
| "repo_call L (Op_users_FindByID i) = ignore (pgx_users_FindByID L i)"
| "repo_call L (Op_users_FindByEmail email) = ignore (pgx_users_FindByEmail L email)"
| "repo_call L (Op_users_List p) = ignore (pgx_users_List L p)"
| "repo_call L (Op_users_Update i p) = ignore (pgx_users_Update L i p)"
| "repo_call L (Op_users_UpdatePassword i h) = ignore (pgx_users_UpdatePassword L i h)"
| "repo_call L (Op_users_IncrFailedAttempts i) = ignore (pgx_users_IncrFailedAttempts L i)"
| "repo_call L (Op_users_LockUntil i t) = ignore (pgx_users_LockUntil L i t)"
| "repo_call L (Op_users_ClearLock i) = ignore (pgx_users_ClearLock L i)"
| "repo_call L (Op_users_SetTOTP i secret b) = ignore (pgx_users_SetTOTP L i secret b)"
| "repo_call L (Op_users_Deactivate i) = ignore (pgx_users_Deactivate L i)"
| "repo_call L Op_users_CountSuperAdmins = ignore (pgx_users_CountSuperAdmins L)"
| "repo_call L (Op_resets_forget u) = ignore (pg_write L (delete_resets (\<lambda>now r. r_user_id r = u)))"
| "repo_call L (Op_resets_insert u h t) = ignore (pg_write L (insert_reset u h t))"
| "repo_call L (Op_resets_FindByUserID u) = ignore (pgx_resets_FindByUserID L u)"
| "repo_call L (Op_resets_SetToken i tok) = ignore (pgx_resets_SetToken L i tok)"
| "repo_call L (Op_resets_Consume i) = ignore (pgx_resets_Consume L i)"
| "repo_call L Op_resets_DeleteExpired = ignore (pgx_resets_DeleteExpired L)"
| "repo_call L (Op_audit_Create p) = ignore (pgx_audit_Create L p)"
| "repo_call L (Op_audit_List p) = ignore (pgx_audit_List L p)"

inductive repo_step :: "outside \<Rightarrow> DB world \<Rightarrow> DB world \<Rightarrow> bool" for L where
  Statement: "repo_step L w (snd (run_state (repo_call L q) w))"
| Passes: "ticks w \<le> n \<Longrightarrow> repo_step L w (w\<lparr>ticks := n\<rparr>)"
| Notified: "repo_step L w (w\<lparr>outbox := sent\<rparr>)"

abbreviation repo_run :: "outside \<Rightarrow> DB world \<Rightarrow> DB world \<Rightarrow> bool" where
  "repo_run L \<equiv> (repo_step L)\<^sup>*\<^sup>*"

text \<open>What each such step keeps.\<close>

definition db_kept :: "DB world \<Rightarrow> DB world \<Rightarrow> bool" where
  "db_kept w w' \<longleftrightarrow> (single_node (store w) \<longrightarrow>
     single_node (store w') \<and> accounts_kept (users_view (store w)) (users_view (store w')) \<and>
     (\<exists>as. audit_view (store w') = audit_view (store w) @ as))"

lemma db_kept_users:
  assumes "state_io_rel (pg.users_evolve (grown same_identity)) m" "keeps_log m"
  shows "state_io_rel db_kept m"
  using pg.users_evolveD [OF assms(1) _ prod.collapse [symmetric]] same_viewD [OF assms(2) prod.collapse [symmetric]]
  unfolding state_io_rel_def db_kept_def accounts_kept_def by simp

lemma db_kept_frame:
  assumes "\<And>w r w'. single_node (store w) \<Longrightarrow> run_state m w = (r, w') \<Longrightarrow>
      single_node (store w') \<and> users_view (store w') = users_view (store w)"
    and "keeps_log m"
  shows "state_io_rel db_kept m"
  using assms(1) [OF _ prod.collapse [symmetric]] same_viewD [OF assms(2) prod.collapse [symmetric]]
    reflpD [OF accounts_kept_order(1)]
  unfolding state_io_rel_def db_kept_def by simp

lemma repo_users_kept:
  "state_io_rel db_kept (repo_call L (Op_users_Create p))"
  "state_io_rel db_kept (repo_call L (Op_users_FindByID i))" "state_io_rel db_kept (repo_call L (Op_users_FindByEmail e))"
  "state_io_rel db_kept (repo_call L (Op_users_List lp))" "state_io_rel db_kept (repo_call L (Op_users_Update i up))"
  "state_io_rel db_kept (repo_call L (Op_users_UpdatePassword i h))"
  "state_io_rel db_kept (repo_call L (Op_users_IncrFailedAttempts i))"
  "state_io_rel db_kept (repo_call L (Op_users_LockUntil i t))" "state_io_rel db_kept (repo_call L (Op_users_ClearLock i))"
  "state_io_rel db_kept (repo_call L (Op_users_SetTOTP i secret b))"
  "state_io_rel db_kept (repo_call L (Op_users_Deactivate i))" "state_io_rel db_kept (repo_call L Op_users_CountSuperAdmins)"
proof -
  note Q = grown_order(1) [OF same_identity_order(1)]
  note R = pg.evolve_quiet [OF Q, unfolded NewUserRepository_simps]
    pg.evolve_writes [OF Q, unfolded NewUserRepository_simps]
    pg.evolve_Create [OF Q, unfolded NewUserRepository_simps]
  show "state_io_rel db_kept (repo_call L (Op_users_Create p))"
  "state_io_rel db_kept (repo_call L (Op_users_FindByID i))" "state_io_rel db_kept (repo_call L (Op_users_FindByEmail e))"
  "state_io_rel db_kept (repo_call L (Op_users_List lp))" "state_io_rel db_kept (repo_call L (Op_users_Update i up))"
  "state_io_rel db_kept (repo_call L (Op_users_UpdatePassword i h))"
  "state_io_rel db_kept (repo_call L (Op_users_IncrFailedAttempts i))"
  "state_io_rel db_kept (repo_call L (Op_users_LockUntil i t))" "state_io_rel db_kept (repo_call L (Op_users_ClearLock i))"
  "state_io_rel db_kept (repo_call L (Op_users_SetTOTP i secret b))"
  "state_io_rel db_kept (repo_call L (Op_users_Deactivate i))" "state_io_rel db_kept (repo_call L Op_users_CountSuperAdmins)"
    by (simp, rule db_kept_users, rule R; simp add: pgx_users_keep_log pgx_users_Update_keeps_log same_identity_def apply_update_def)+
qed

lemma repo_resets_kept:
  "state_io_rel db_kept (repo_call L (Op_resets_forget u))" "state_io_rel db_kept (repo_call L (Op_resets_insert u h t))"
  "state_io_rel db_kept (repo_call L (Op_resets_FindByUserID u))" "state_io_rel db_kept (repo_call L (Op_resets_SetToken i tok))"
  "state_io_rel db_kept (repo_call L (Op_resets_Consume i))" "state_io_rel db_kept (repo_call L Op_resets_DeleteExpired)"
proof -
  have log: "keeps_log (pg_write L (delete_resets q))" "keeps_log (pg_write L (insert_reset u h t))" for q
    by (intro rel_intros; auto dest: statement_frames)+
  show "state_io_rel db_kept (repo_call L (Op_resets_forget u))"
    by (simp, rule db_kept_frame [OF _ log(1)])
      (use delete_resets_run [where L = L and Q = "\<lambda>now p. prUserID p = u"] in \<open>simp add: reset_frame_def\<close>)
  show "state_io_rel db_kept (repo_call L (Op_resets_insert u h t))"
    by (simp, rule db_kept_frame [OF _ log(2)]) (use insert_reset_run in \<open>simp add: reset_frame_def\<close>)
  show "state_io_rel db_kept (repo_call L (Op_resets_FindByUserID u))"
    by (simp, rule db_kept_frame [OF _ pgx_resets_keep_log(2)]) (use pgx_resets_FindByUserID_run in force)
  show "state_io_rel db_kept (repo_call L (Op_resets_SetToken i tok))"
    by (simp, rule db_kept_frame [OF _ pgx_resets_keep_log(3)])
      (use pgx_resets_SetToken_run in \<open>simp add: reset_frame_def\<close>)
  show "state_io_rel db_kept (repo_call L (Op_resets_Consume i))"
    by (simp, rule db_kept_frame [OF _ pgx_resets_keep_log(4)])
      (use pgx_resets_Consume_run in \<open>simp add: reset_frame_def\<close>)
  show "state_io_rel db_kept (repo_call L Op_resets_DeleteExpired)"
    by (simp, rule db_kept_frame [OF _ pgx_resets_keep_log(5)])
      (use pgx_resets_DeleteExpired_run in \<open>simp add: reset_frame_def\<close>)
qed

lemma repo_audit_kept:
  "state_io_rel db_kept (repo_call L (Op_audit_Create ap))" "state_io_rel db_kept (repo_call L (Op_audit_List al))"
proof -
  have "db_kept w w'" if "run_state (pgx_audit_Create L ap) w = (e, w')" for w e w'
    unfolding db_kept_def
  proof
    assume good: "single_node (store w)"
    have "users_view (store w') = users_view (store w)" using audit_Create_users [OF good] that by simp
    with pgx_audit_Create_run [OF good that] reflpD [OF accounts_kept_order(1)]
    show "single_node (store w') \<and> accounts_kept (users_view (store w)) (users_view (store w')) \<and>
       (\<exists>as. audit_view (store w') = audit_view (store w) @ as)" by auto
  qed
  from this [OF prod.collapse [symmetric]] show "state_io_rel db_kept (repo_call L (Op_audit_Create ap))"
    by (simp add: state_io_rel_def)
  have "db_kept w w'" if "run_state (pgx_audit_List L al) w = (e, w')" for w e w'
    using pgx_audit_List_run [OF _ that] reflpD [OF accounts_kept_order(1)] by (auto simp: db_kept_def)
  from this [OF prod.collapse [symmetric]] show "state_io_rel db_kept (repo_call L (Op_audit_List al))"
    by (simp add: state_io_rel_def)
qed

lemma repo_step_kept: "repo_step L w w' \<Longrightarrow> db_kept w w'"
proof (induction rule: repo_step.induct)
  case (Statement w q)
  have "state_io_rel db_kept (repo_call L q)"
    by (cases q) (simp_all only: repo_users_kept repo_resets_kept repo_audit_kept)
  then show ?case by (simp add: state_io_rel_def)
qed (use reflpD [OF accounts_kept_order(1)] in \<open>simp_all add: db_kept_def\<close>)

lemma repo_run_kept: "repo_run L w w' \<Longrightarrow> db_kept w w'"
proof (induction rule: rtranclp_induct)
  case base
  then show ?case using reflpD [OF accounts_kept_order(1)] by (simp add: db_kept_def)
next
  case (step v w')
  then show ?case
    using repo_step_kept [OF step(2)] transpD [OF accounts_kept_order(2)] unfolding db_kept_def
    by (metis append_assoc)
qed

text \<open>Every call is such a run, so the calls of a process are.\<close>

abbreviation through_repo :: "outside \<Rightarrow> (DB world, 'a) state \<Rightarrow> bool" where
  "through_repo L \<equiv> state_io_rel (repo_run L)"

lemma repo_run_order [intro]: "reflp (repo_run L)" "transp (repo_run L)"
  by (simp add: reflp_def) (rule transpI, rule rtranclp_trans)

lemma through_repo_time [rel_intros]: "through_repo L tick" "through_repo L (time_Now M)"
proof -
  have "repo_run L w (w\<lparr>ticks := Suc (ticks w)\<rparr>)" for w by (rule r_into_rtranclp, rule Passes) simp
  then show "through_repo L tick" "through_repo L (time_Now M)" by (simp_all add: state_io_rel_def)
qed

lemma through_repo_statements [rel_intros]:
  "through_repo L (pgx_users_Create L p)" "through_repo L (pgx_users_FindByID L i)"
  "through_repo L (pgx_users_FindByEmail L email)" "through_repo L (pgx_users_List L lp)"
  "through_repo L (pgx_users_Update L i up)" "through_repo L (pgx_users_UpdatePassword L i h)"
  "through_repo L (pgx_users_IncrFailedAttempts L i)" "through_repo L (pgx_users_LockUntil L i t)"
  "through_repo L (pgx_users_ClearLock L i)" "through_repo L (pgx_users_SetTOTP L i secret b)"
  "through_repo L (pgx_users_Deactivate L i)" "through_repo L (pgx_users_CountSuperAdmins L)"
  "through_repo L (pg_write L (delete_resets (\<lambda>now r. r_user_id r = u)))" "through_repo L (pg_write L (insert_reset u h t))"
  "through_repo L (pgx_resets_FindByUserID L u)" "through_repo L (pgx_resets_SetToken L i tok)"
  "through_repo L (pgx_resets_Consume L i)" "through_repo L (pgx_resets_DeleteExpired L)"
  "through_repo L (pgx_audit_Create L ap)" "through_repo L (pgx_audit_List L al)"
proof -
  have "through_repo L (repo_call L q)" for q by (auto simp: state_io_rel_def intro: r_into_rtranclp Statement)
  then have "through_repo L (repo_call L q)" and "repo_call L q = m \<Longrightarrow> through_repo L m" for q m by auto
  note step = this(1)
  show "through_repo L (pgx_users_Create L p)" using step [of "Op_users_Create p"] by simp
  show "through_repo L (pgx_users_FindByID L i)" using step [of "Op_users_FindByID i"] by simp
  show "through_repo L (pgx_users_FindByEmail L email)" using step [of "Op_users_FindByEmail email"] by simp
  show "through_repo L (pgx_users_List L lp)" using step [of "Op_users_List lp"] by simp
  show "through_repo L (pgx_users_Update L i up)" using step [of "Op_users_Update i up"] by simp
  show "through_repo L (pgx_users_UpdatePassword L i h)" using step [of "Op_users_UpdatePassword i h"] by simp
  show "through_repo L (pgx_users_IncrFailedAttempts L i)" using step [of "Op_users_IncrFailedAttempts i"] by simp
  show "through_repo L (pgx_users_LockUntil L i t)" using step [of "Op_users_LockUntil i t"] by simp
  show "through_repo L (pgx_users_ClearLock L i)" using step [of "Op_users_ClearLock i"] by simp
  show "through_repo L (pgx_users_SetTOTP L i secret b)" using step [of "Op_users_SetTOTP i secret b"] by simp
  show "through_repo L (pgx_users_Deactivate L i)" using step [of "Op_users_Deactivate i"] by simp
  show "through_repo L (pgx_users_CountSuperAdmins L)" using step [of Op_users_CountSuperAdmins] by simp
  show "through_repo L (pg_write L (delete_resets (\<lambda>now r. r_user_id r = u)))" using step [of "Op_resets_forget u"] by simp
  show "through_repo L (pg_write L (insert_reset u h t))" using step [of "Op_resets_insert u h t"] by simp
  show "through_repo L (pgx_resets_FindByUserID L u)" using step [of "Op_resets_FindByUserID u"] by simp
  show "through_repo L (pgx_resets_SetToken L i tok)" using step [of "Op_resets_SetToken i tok"] by simp
  show "through_repo L (pgx_resets_Consume L i)" using step [of "Op_resets_Consume i"] by simp
  show "through_repo L (pgx_resets_DeleteExpired L)" using step [of Op_resets_DeleteExpired] by simp
  show "through_repo L (pgx_audit_Create L ap)" using step [of "Op_audit_Create ap"] by simp
  show "through_repo L (pgx_audit_List L al)" using step [of "Op_audit_List al"] by simp
qed

lemma through_repo_resets_Create [rel_intros]: "through_repo L (pgx_resets_Create L p)"
  unfolding pgx_resets_Create_def by (intro rel_intros repo_run_order)

lemma through_repo_notify [rel_intros]: "through_repo L (as_notify (NewServices_Auth M cfg) email otp)"
  by (auto simp: state_io_rel_def intro: r_into_rtranclp Notified)

lemma through_repo_helpers [rel_intros]:
  "through_repo L (parse_purpose M cfg tok purpose)"
  "through_repo L (auth_IssuePurposeToken M secret u email purpose ttl)"
  "through_repo L (totp_check M code secret)" "through_repo L (issueSession M s v)"
  "through_repo L (randomOTP6 M)" "through_repo L (bcrypt_hash M password)"
  unfolding parse_purpose_def auth_Parse_def auth_IssuePurposeToken_def totp_check_def issueSession_def
    randomOTP6_def crypto_rand_Int_def bcrypt_hash_def Let_def
  by (intro rel_intros repo_run_order)+

lemma auth_operations_through_repo:
  "through_repo L (Auth_Login L (NewServices_Auth L cfg) email pw)"
  "through_repo L (Auth_VerifyTOTP L (NewServices_Auth L cfg) tok code)"
  "through_repo L (Auth_SetupTOTP L (NewServices_Auth L cfg) tok)"
  "through_repo L (Auth_ConfirmTOTP L (NewServices_Auth L cfg) tok secret code)"
  "through_repo L (Auth_ForgotPassword L (NewServices_Auth L cfg) email)"
  "through_repo L (Auth_VerifyResetEmail L (NewServices_Auth L cfg) email code)"
  "through_repo L (Auth_CompletePasswordReset L (NewServices_Auth L cfg) tok new code)"
  "through_repo L (Auth_AcceptInvite L (NewServices_Auth L cfg) tok name pw)"
  "through_repo L (Auth_Me (NewServices_Auth L cfg) i)"
  "through_repo L (Auth_Logout (NewServices_Auth L cfg) i)"
  unfolding auth_call_defs Let_def pgs.wired NewUserRepository_simps NewPasswordResetRepository_simps
  by (intro conjI impI rel_intros repo_run_order)+

lemma user_operations_through_repo:
  "through_repo L (Users_List (NewServices_Users L cfg) lp)" "through_repo L (Users_Get (NewServices_Users L cfg) i)"
  "through_repo L (Users_Update (NewServices_Users L cfg) i params)"
  "through_repo L (Users_Invite L (NewServices_Users L cfg) email name role by_id)"
  "through_repo L (Users_Deactivate (NewServices_Users L cfg) i)"
  "through_repo L (EnsureBootstrapAdmin L cfg (NewUserRepository L))"
  unfolding Users_List_def Users_Get_def Users_Update_def Users_Invite_def Users_Deactivate_def
    EnsureBootstrapAdmin_def Let_def NewServices_Users_simps NewUserRepository_simps
  by (intro conjI impI rel_intros repo_run_order)+

lemma calls_through_repo:
  "through_repo L (auth_call L (NewServices_Auth L cfg) c)" "through_repo L (user_call L (NewServices_Users L cfg) q)"
  by (cases c; simp add: auth_operations_through_repo) (cases q; simp add: user_operations_through_repo)

lemma process_step_repo: "process_step L cfg w w' \<Longrightarrow> repo_run L w w'"
proof (induction rule: process_step.induct)
  case (Auth_call c w r w')
  then show ?case using calls_through_repo(1) unfolding state_io_rel_def by (metis snd_conv)
next
  case (User_call q w r w')
  then show ?case using calls_through_repo(2) unfolding state_io_rel_def by (metis snd_conv)
next
  case (Boot w e w')
  then show ?case using user_operations_through_repo(6) unfolding state_io_rel_def by (metis snd_conv)
next
  case (Sweep w e w')
  then show ?case
    using through_repo_statements(18) unfolding state_io_rel_def NewPasswordResetRepository_simps by (metis snd_conv)
next
  case (Audited p w e w')
  then show ?case using through_repo_statements(19) unfolding state_io_rel_def by simp (metis snd_conv)
qed (auto intro: Passes)

lemma process_run_repo: "process_run L cfg w w' \<Longrightarrow> repo_run L w w'"
  by (induction rule: rtranclp_induct) (auto dest: process_step_repo)

section \<open>The first super admin\<close>

lemma pgh_Create_total:
  assumes good: "single_node (store w)"
    and email: "\<forall>i u. users_view (store w) i = Some u \<longrightarrow> uEmail u \<noteq> norm_email (unicode_lower L) (cuEmail cp)"
    and uid: "users_view (store w) (uuid_at L (ticks w)) = None" and role: "cuRole cp = RoleSuperAdmin"
  shows "\<exists>u. fst (run_state (pgx_users_Create (healthy L) cp) w) = Inr u"
proof -
  have "uuid_at L (ticks w) \<notin> c_id ` set (users (primary (store w)))"
    using uid unfolding users_view_None by fastforce
  moreover have "norm_email (unicode_lower L) (cuEmail cp) \<notin> c_email ` set (users (primary (store w)))"
  proof
    assume "norm_email (unicode_lower L) (cuEmail cp) \<in> c_email ` set (users (primary (store w)))"
    then obtain r where "r \<in> set (users (primary (store w)))" "c_email r = norm_email (unicode_lower L) (cuEmail cp)"
      by auto
    then have "users_view (store w) (c_id r) = Some (scanUser r)" by (auto simp: users_view_Some [OF good])
    with email \<open>c_email r = _\<close> show False by fastforce
  qed
  moreover have "role_arg (cuRole cp) = Inr SuperAdmin"
    using role by (simp add: role_arg_def role_defs enum_in_def)
  ultimately show ?thesis
    by (simp add: pgx_users_Create_def run_pg_write_healthy insert_user_def Let_def)
qed

lemma Boot_establishes:
  assumes good: "single_node (store w)"
    and configured: "BootstrapAdminEmail cfg \<noteq> ''''" "BootstrapAdminPassword cfg \<noteq> ''''"
    and free: "active_super_admins (users_view (store w)) = {} \<longrightarrow>
        bcrypt_Generate L (Suc (ticks w)) (BootstrapAdminPassword cfg) (bcrypt_DefaultCost L) = Inr h \<and>
        (\<forall>i u. users_view (store w) i = Some u \<longrightarrow> uEmail u \<noteq> norm_email (unicode_lower L) (BootstrapAdminEmail cfg)) \<and>
        users_view (store w) (uuid_at L (Suc (Suc (ticks w)))) = None"
    and run: "run_state (EnsureBootstrapAdmin (healthy L) cfg (NewUserRepository (healthy L))) w = (e, w1)"
  shows "e = None \<and> active_super_admins (users_view (store w1)) \<noteq> {} \<and>
    (if active_super_admins (users_view (store w)) \<noteq> {} then store w1 = store w
     else \<exists>u. users_view (store w1) = (users_view (store w))(uID u \<mapsto> u) \<and> super_admin u \<and>
       uEmail u = norm_email (unicode_lower L) (BootstrapAdminEmail cfg) \<and> uPasswordHash u = h)"
proof -
  let ?n = "card (active_super_admins (users_view (store w)))"
  let ?w1 = "w\<lparr>ticks := Suc (ticks w)\<rparr>" and ?w2 = "w\<lparr>ticks := Suc (Suc (ticks w))\<rparr>"
  let ?cp = "\<lparr>cuEmail = BootstrapAdminEmail cfg, cuName = BootstrapAdminName cfg, cuPasswordHash = h,
    cuRole = RoleSuperAdmin\<rparr>"
  have count: "run_state (pgx_users_CountSuperAdmins (healthy L)) w = (Inr (int ?n), ?w1)"
    using pgh.CountSuperAdmins_total [OF good, of L] good
    by (simp add: pgx_users_CountSuperAdmins_def run_read_good)
  have fin: "finite (active_super_admins (users_view (store w)))"
    by (rule finite_subset [OF _ pg.finite_users [OF good]]) (auto simp: active_super_admins_def)
  show ?thesis
  proof (cases "0 < ?n")
    case True
    with run configured count have "e = None" "w1 = ?w1" by (auto simp: EnsureBootstrapAdmin_def)
    with True show ?thesis by auto
  next
    case False
    with fin have none: "active_super_admins (users_view (store w)) = {}" by simp
    obtain r w3 where create: "run_state (pgx_users_Create (healthy L) ?cp) ?w2 = (r, w3)" by fastforce
    have "\<exists>u. r = Inr u"
      using pgh_Create_total [of ?w2 L ?cp] good free none create by simp
    then obtain u where r: "r = Inr u" by blast
    with run configured count False free none create have e: "e = None" and w1: "w1 = w3"
      by (auto simp: EnsureBootstrapAdmin_def bcrypt_hash_def)
    have "single_node (store ?w2)" using good by simp
    from pgx_users_Create_run [OF this create] r
    have new: "new_user (norm_email (unicode_lower L)) ?cp u"
      and view: "users_view (store w3) = (users_view (store w))(uID u \<mapsto> u)" by auto
    have u: "super_admin u" "uEmail u = norm_email (unicode_lower L) (BootstrapAdminEmail cfg)" "uPasswordHash u = h"
      using new by (simp_all add: new_user_def super_admin_def)
    then have "active_super_admins (users_view (store w1)) \<noteq> {}"
      unfolding w1 view by (simp add: active_super_admins_upd)
    with e none u view show ?thesis unfolding w1 by auto
  qed
qed

section \<open>Properties\<close>

text \<open>C1: a process that runs its calls one at a time refines the specification of the accounts: whatever calls
  of the two services, boots, sweeps and audit writes it runs one after another, with whatever arguments,
  results of third-party code and faults of the database, the users before and after are connected by
  specified steps, and the constraints of the tables hold.
  (Calls that interleave between their statements are outside of this.)\<close>

theorem process_refines_accounts:
  assumes "single_node (store w)" and "process_run L cfg w w'"
  shows "single_node (store w') \<and> account_steps (users_view (store w)) (users_view (store w'))"
  using process_run_refines [OF assms(2,1)] .

theorem process_refines_accounts_witness:
  "\<exists>w'. run_state (user_call example_outside (NewServices_Users example_outside example_config) (Call_Deactivate 2))
      example_world = ((), w') \<and>
     account_steps (users_view (store example_world)) (users_view (store w'))"
proof -
  obtain w' where run: "run_state (user_call example_outside (NewServices_Users example_outside example_config)
      (Call_Deactivate 2)) example_world = ((), w')" by simp
  then have "process_run example_outside example_config example_world w'"
    by (intro r_into_rtranclp User_call)
  from process_refines_accounts [OF example_good this] run show ?thesis by blast
qed

text \<open>C6: what holds over one node for every sequence of repository operations, whatever calls they belong to and
  however these interleave, and for every run of a process that runs its calls one at a time, which is such a
  sequence: accounts are never removed, an account keeps its identifier, email and date of creation, one that is inactive never becomes active again;
  identifiers and emails stay unique; and the audit log only grows at its end. When the calls run one at a time,
  there also still is an active super admin if there was one.\<close>

theorem process_invariants:
  assumes "single_node (store w)" and "repo_run L w w' \<or> process_run L cfg w w'"
  shows "single_node (store w') \<and> accounts_kept (users_view (store w)) (users_view (store w')) \<and>
    wf_accounts (users_view (store w')) \<and>
    (\<exists>as. audit_view (store w') = audit_view (store w) @ as) \<and>
    (process_run L cfg w w' \<and> active_super_admins (users_view (store w)) \<noteq> {} \<longrightarrow>
       active_super_admins (users_view (store w')) \<noteq> {})"
proof -
  have "db_kept w w'" using assms(2) process_run_repo repo_run_kept by blast
  then have kept: "single_node (store w')" "accounts_kept (users_view (store w)) (users_view (store w'))"
      "\<exists>as. audit_view (store w') = audit_view (store w) @ as"
    using assms(1) by (simp_all add: db_kept_def)
  moreover have "wf_accounts (users_view (store w'))"
    unfolding wf_accounts_def using pg.key_id [OF kept(1)] pg.unique_email [OF kept(1)] by metis
  moreover have "process_run L cfg w w' \<and> active_super_admins (users_view (store w)) \<noteq> {} \<longrightarrow>
       active_super_admins (users_view (store w')) \<noteq> {}"
    using process_run_refines [OF _ assms(1)] steps_keep(3) by blast
  ultimately show ?thesis by blast
qed

theorem process_invariants_witness:
  "\<exists>w'. run_state (user_call example_outside (NewServices_Users example_outside example_config) (Call_Deactivate 1))
      example_world = ((), w') \<and> active_super_admins (users_view (store w')) \<noteq> {}"
proof -
  obtain w' where run: "run_state (user_call example_outside (NewServices_Users example_outside example_config)
      (Call_Deactivate 1)) example_world = ((), w')" by simp
  then have "process_run example_outside example_config example_world w'"
    by (intro r_into_rtranclp User_call)
  with process_invariants [OF example_good, of example_outside w' example_config] run example_super_admins
  show ?thesis by auto
qed


definition empty_world :: "DB world" where
  "empty_world = \<lparr>store = \<lparr>primary = \<lparr>users = [], password_resets = [], audit_logs = []\<rparr>, replicas = [], rr = 0\<rparr>,
     ticks = 0, redis_log = [], outbox = []\<rparr>"


end
