(* ===== verification/Jobs.thy ===== *)
theory Jobs
  imports System
begin

text \<open>
  \<open>internal/jobs\<close>: the worker, as a step relation over its goroutines, the error channel and the
  receiving loop, and the scheduler, as the sequence of events that the \<open>select\<close> of a job's loop picks.
\<close>

section \<open>The worker\<close>

text \<open>The handler of a job runs in a goroutine of its own; what the worker sees of it is how it exits.\<close>

record 'h Job =
  jobName :: string
  jobHandler :: 'h

record 'h Worker =
  wkJobs :: "'h Job list"

definition Worker_New :: "'h Worker" where
  "Worker_New = \<lparr>wkJobs = []\<rparr>"

definition Register :: "string \<Rightarrow> 'h \<Rightarrow> 'h Worker \<Rightarrow> 'h Worker" where
  "Register name fn w = w\<lparr>wkJobs := wkJobs w @ [\<lparr>jobName = name, jobHandler = fn\<rparr>]\<rparr>"

text \<open>\<open>err != nil && !errors.Is(err, context.Canceled)\<close>.\<close>

definition job_error :: "goerr option \<Rightarrow> goerr list" where
  "job_error e = (case e of None \<Rightarrow> [] | Some err \<Rightarrow> if errors_Is err CtxCanceled then [] else [err])"

record worker_run =
  rnRunning :: "nat list" \<comment> \<open>goroutines that have not exited\<close>
  rnExits :: "(nat \<times> goerr option) list" \<comment> \<open>how the others did, in order\<close>
  rnChan :: "goerr list" \<comment> \<open>the buffer of \<open>errCh\<close>\<close>
  rnClosed :: bool
  rnResult :: "goerr option option" \<comment> \<open>what \<open>Run\<close> has returned, if it has\<close>

definition run_start :: "'h Worker \<Rightarrow> worker_run" where
  "run_start w = \<lparr>rnRunning = [0..<length (wkJobs w)], rnExits = [], rnChan = [], rnClosed = False, rnResult = None\<rparr>"

definition job_exits :: "nat \<Rightarrow> goerr option \<Rightarrow> worker_run \<Rightarrow> worker_run" where
  "job_exits j e s = s\<lparr>rnRunning := remove1 j (rnRunning s), rnExits := rnExits s @ [(j, e)],
     rnChan := rnChan s @ job_error e\<rparr>"

inductive run_step :: "worker_run \<Rightarrow> worker_run \<Rightarrow> bool" where
  Job_exits: "j \<in> set (rnRunning s) \<Longrightarrow> run_step s (job_exits j e s)"
| Close_chan: "rnRunning s = [] \<Longrightarrow> \<not> rnClosed s \<Longrightarrow> run_step s (s\<lparr>rnClosed := True\<rparr>)"
| Receive: "rnResult s = None \<Longrightarrow> rnChan s = err # rest \<Longrightarrow>
    run_step s (s\<lparr>rnChan := rest, rnResult := Some (Some err)\<rparr>)"
| Drained: "rnResult s = None \<Longrightarrow> rnChan s = [] \<Longrightarrow> rnClosed s \<Longrightarrow>
    run_step s (s\<lparr>rnResult := Some None\<rparr>)"

inductive_cases run_stepE: "run_step s t"

text \<open>Without jobs \<open>Run\<close> waits for the context and returns its error.\<close>

definition run_idle :: "'h Worker \<Rightarrow> goerr \<Rightarrow> goerr option option" where
  "run_idle w ctx_err = (if wkJobs w = [] then Some (Some ctx_err) else None)"

definition run_reach :: "'h Worker \<Rightarrow> worker_run \<Rightarrow> bool" where
  "run_reach w s \<longleftrightarrow> run_step\<^sup>*\<^sup>* (run_start w) s"

section \<open>Facts of the worker\<close>

definition real_errors :: "worker_run \<Rightarrow> goerr list" where
  "real_errors s = concat (map (\<lambda>(j, e). job_error e) (rnExits s))"

definition run_inv :: "nat \<Rightarrow> worker_run \<Rightarrow> bool" where
  "run_inv n s \<longleftrightarrow>
     length (rnRunning s) + length (rnExits s) = n \<and>
     (rnClosed s \<longrightarrow> rnRunning s = []) \<and>
     (case rnResult s of
        None \<Rightarrow> real_errors s = rnChan s
      | Some None \<Rightarrow> rnRunning s = [] \<and> real_errors s = [] \<and> rnChan s = []
      | Some (Some err) \<Rightarrow> real_errors s = err # rnChan s)"

lemma job_exits_sel [simp]:
  "rnRunning (job_exits j e s) = remove1 j (rnRunning s)" "rnExits (job_exits j e s) = rnExits s @ [(j, e)]"
  "rnChan (job_exits j e s) = rnChan s @ job_error e" "rnClosed (job_exits j e s) = rnClosed s"
  "rnResult (job_exits j e s) = rnResult s" "real_errors (job_exits j e s) = real_errors s @ job_error e"
  by (simp_all add: job_exits_def real_errors_def)

lemma run_inv_step: "run_step s t \<Longrightarrow> run_inv n s \<Longrightarrow> run_inv n t"
proof (induction rule: run_step.induct)
  case (Job_exits j s e)
  then have ne: "rnRunning s \<noteq> []" by auto
  with Job_exits have "Suc (length (remove1 j (rnRunning s))) = length (rnRunning s)"
    by (simp add: length_remove1)
  with Job_exits(2) ne show ?case
    by (cases "rnResult s"; cases "the (rnResult s)") (simp_all add: run_inv_def)
next
  case (Receive s err rest)
  then show ?case by (simp add: run_inv_def real_errors_def)
next
  case (Close_chan s)
  then show ?case
    by (cases "rnResult s"; cases "the (rnResult s)") (simp_all add: run_inv_def real_errors_def)
next
  case (Drained s)
  then show ?case by (auto simp: run_inv_def real_errors_def)
qed

lemma run_inv_reach:
  assumes "run_reach w s"
  shows "run_inv (length (wkJobs w)) s"
  using assms unfolding run_reach_def
proof (induction rule: rtranclp_induct)
  case base
  show ?case by (simp add: run_inv_def run_start_def real_errors_def)
qed (rule run_inv_step)

lemma job_error_le: "length (job_error e) \<le> 1"
  by (simp add: job_error_def split: option.split)

lemma real_errors_le: "length (real_errors s) \<le> length (rnExits s)"
proof -
  have "length (concat (map (\<lambda>(j, e). job_error e) xs)) \<le> length xs" for xs :: "(nat \<times> goerr option) list"
  proof (induction xs)
    case (Cons x xs)
    then show ?case using job_error_le [of "snd x"] by (cases x) simp
  qed simp
  then show ?thesis by (simp add: real_errors_def)
qed

text \<open>Every step uses up a goroutine, the closing or the result.\<close>

definition run_measure :: "worker_run \<Rightarrow> nat" where
  "run_measure s = length (rnRunning s) + (if rnClosed s then 0 else 1) + (if rnResult s = None then 1 else 0)"

lemma run_step_measure: "run_step s t \<Longrightarrow> run_measure t < run_measure s"
proof (induction rule: run_step.induct)
  case (Job_exits j s e)
  then have "rnRunning s \<noteq> []" by auto
  with Job_exits show ?case by (simp add: run_measure_def length_remove1)
qed (auto simp: run_measure_def)

lemma run_steps_bound: "(run_step ^^ k) s t \<Longrightarrow> k + run_measure t \<le> run_measure s"
proof (induction k arbitrary: t)
  case (Suc k)
  then obtain u where "(run_step ^^ k) s u" "run_step u t" by auto
  with Suc.IH [of u] run_step_measure [of u t] show ?case by simp
qed simp

lemma run_stuck: "(\<nexists>t. run_step s t) \<Longrightarrow> rnRunning s = [] \<and> rnResult s \<noteq> None"
proof -
  assume stuck: "\<nexists>t. run_step s t"
  have r: "rnRunning s = []"
  proof (rule ccontr)
    assume "rnRunning s \<noteq> []"
    then have "run_step s (job_exits (hd (rnRunning s)) None s)" by (intro Job_exits) simp
    with stuck show False by blast
  qed
  with stuck have c: "rnClosed s" using Close_chan by blast
  have "rnResult s \<noteq> None"
    using stuck c Receive [of s] Drained [of s] by (cases "rnChan s") blast+
  with r show ?thesis by simp
qed

text \<open>\<open>Run\<close> does not wait for the jobs that are still running when the first error arrives.\<close>

lemma Worker_Run_early:
  assumes "2 \<le> length (wkJobs w)" "\<not> errors_Is err CtxCanceled"
  shows "\<exists>s. run_reach w s \<and> rnResult s = Some (Some err) \<and> rnRunning s \<noteq> []"
proof -
  let ?s = "job_exits 0 (Some err) (run_start w)"
  let ?t = "?s\<lparr>rnChan := [], rnResult := Some (Some err)\<rparr>"
  have "run_step (run_start w) ?s" using assms(1) by (intro Job_exits) (auto simp: run_start_def)
  moreover have "run_step ?s ?t"
    by (rule Receive) (use assms(2) in \<open>simp_all add: run_start_def job_error_def\<close>)
  ultimately have "run_reach w ?t" unfolding run_reach_def
    by (rule rtranclp.rtrancl_into_rtrancl [OF r_into_rtranclp])
  moreover have "1 \<in> set (rnRunning ?t)" using assms(1) by (auto simp: run_start_def in_set_remove1)
  then have "rnRunning ?t \<noteq> []" by fastforce
  ultimately show ?thesis by (intro exI [of _ ?t]) simp
qed

section \<open>The scheduler\<close>

record 'd ScheduledJob =
  sjName :: string
  sjInterval :: int64
  sjHandler :: "('d world, goerr option) state"

record 'd Scheduler =
  scJobs :: "'d ScheduledJob list"

definition NewScheduler :: "'d Scheduler" where
  "NewScheduler = \<lparr>scJobs = []\<rparr>"

definition Every :: "int64 \<Rightarrow> string \<Rightarrow> ('d world, goerr option) state \<Rightarrow> 'd Scheduler \<Rightarrow> 'd Scheduler" where
  "Every interval name fn s = s\<lparr>scJobs := scJobs s @ [\<lparr>sjName = name, sjInterval = interval, sjHandler = fn\<rparr>]\<rparr>"

text \<open>
  What the \<open>select\<close> picks, one after another; a list that ends without \<open>Cancelled\<close> leaves the loop
  waiting. An error of the handler is only logged.
\<close>

datatype sched_event = Ticked | Cancelled

fun runJob :: "'d ScheduledJob \<Rightarrow> sched_event list \<Rightarrow> ('d world, goerr option list) state" where
  "runJob job [] = ret []"
| "runJob job (Cancelled # events) = ret []"
| "runJob job (Ticked # events) = do {
     e \<leftarrow> sjHandler job;
     logged \<leftarrow> runJob job events;
     ret (e # logged)
   }"

text \<open>
  \<open>Run\<close> starts the loop of every job; what their \<open>select\<close>s pick comes in one sequence: the ticker of a job, by
  its number, or the context, at which every loop stops.
\<close>

fun Scheduler_Run :: "'d Scheduler \<Rightarrow> nat option list \<Rightarrow> ('d world, (nat \<times> goerr option) list) state" where
  "Scheduler_Run s [] = ret []"
| "Scheduler_Run s (None # events) = ret []"
| "Scheduler_Run s (Some i # events) =
     (if i < length (scJobs s) then do {
        e \<leftarrow> sjHandler (scJobs s ! i);
        logged \<leftarrow> Scheduler_Run s events;
        ret ((i, e) # logged)
      } else Scheduler_Run s events)"

text \<open>A scheduler of one job runs that job's loop.\<close>

lemma Scheduler_Run_single:
  "run_state (Scheduler_Run \<lparr>scJobs = [job]\<rparr> (map (\<lambda>e. case e of Ticked \<Rightarrow> Some 0 | Cancelled \<Rightarrow> None) es)) w =
     map_prod (map (Pair 0)) (\<lambda>v. v) (run_state (runJob job es) w)"
proof (induction es arbitrary: w)
  case (Cons e es)
  then show ?case by (cases e) (simp_all split: prod.split)
qed simp

lemma run_runJob_append:
  "run_state (runJob job (replicate k Ticked @ es)) w =
     (let (xs, w1) = run_state (runJob job (replicate k Ticked)) w; (ys, w2) = run_state (runJob job es) w1
      in (xs @ ys, w2))"
  by (induction k arbitrary: w) (simp_all split: prod.split)

text \<open>The job that the application registers.\<close>

definition cleanup_job :: "outside \<Rightarrow> DB ScheduledJob" where
  "cleanup_job L =
     \<lparr>sjName = ''cleanup.expired_password_resets'', sjInterval = 30 * time_Minute,
      sjHandler = resets_DeleteExpired (NewPasswordResetRepository L)\<rparr>"

lemma DeleteExpired_ticks:
  "ticks (snd (run_state (pgx_resets_DeleteExpired L) w)) = Suc (ticks w)"
  by (auto simp: pgx_resets_DeleteExpired_def pg_write_def split: fault.split sum.split prod.split)

lemma cleanup_ticks:
  "ticks (snd (run_state (runJob (cleanup_job L) (replicate k Ticked)) w)) = ticks w + k"
  by (induction k arbitrary: w) (simp_all add: cleanup_job_def DeleteExpired_ticks split: prod.split, metis DeleteExpired_ticks add_Suc snd_conv)

text \<open>A sweep removes expired records only, and a healthy one all of them.\<close>

lemma find_filter_distinct:
  assumes "distinct (map f xs)"
  shows "find (\<lambda>r. f r = i) (filter P xs) = (case find (\<lambda>r. f r = i) xs of None \<Rightarrow> None | Some r \<Rightarrow> if P r then Some r else None)"
  using assms
proof (induction xs)
  case (Cons x xs)
  have "find (\<lambda>r. f r = f x) (filter P xs) = None"
    using Cons.prems by (auto simp: find_None_iff image_iff)
  with Cons show ?case by auto
qed simp

lemma delete_resets_view:
  assumes "single_node d"
  shows "resets_view (d\<lparr>primary := (primary d)\<lparr>password_resets := filter (\<lambda>r. \<not> r_expires_at r < now) (password_resets (primary d))\<rparr>\<rparr>) i =
    (case resets_view d i of None \<Rightarrow> None | Some p \<Rightarrow> if prExpiresAt p < now then None else Some p)"
proof -
  have "distinct (map r_id (password_resets (primary d)))" using assms by (rule wf_resets)
  from find_filter_distinct [OF this, of i "\<lambda>r. \<not> r_expires_at r < now"] show ?thesis
    by (simp add: resets_view_def split: option.split)
qed

lemma DeleteExpired_sweep:
  assumes "single_node (store w)" and "run_state (pgx_resets_DeleteExpired L) w = (re, w')"
  shows "resets_view (store w') i = resets_view (store w) i \<and> sql_fault L (ticks w) \<noteq> Healthy \<or>
    resets_view (store w') i = (case resets_view (store w) i of None \<Rightarrow> None
      | Some p \<Rightarrow> if prExpiresAt p < pg_time L (now_at L (ticks w)) then None else Some p)"
  using assms(2) delete_resets_view [OF assms(1), of "pg_time L (now_at L (ticks w))" i]
  by (auto simp: pgx_resets_DeleteExpired_def pg_write_def delete_resets_def split: fault.splits)

lemma cleanup_good:
  "single_node (store w) \<Longrightarrow> run_state (runJob (cleanup_job L) es) w = (xs, w') \<Longrightarrow> single_node (store w')"
proof (induction es arbitrary: w xs)
  case (Cons e es)
  show ?case
  proof (cases e)
    case Ticked
    obtain re w1 where sweep: "run_state (pgx_resets_DeleteExpired L) w = (re, w1)" by fastforce
    obtain ys where rest: "run_state (runJob (cleanup_job L) es) w1 = (ys, w')"
      using Cons.prems(2) Ticked sweep by (auto simp: cleanup_job_def split: prod.splits)
    have "single_node (store w1)"
      using pgr.resets_DeleteExpired_run [of w L re w1] sweep Cons.prems(1) by simp
    from Cons.IH [OF this rest] show ?thesis .
  qed (use Cons.prems in simp)
qed simp

text \<open>A number of sweeps: nothing new appears, and what had not expired at any of them is still there.\<close>

lemma cleanup_keeps:
  assumes "single_node (store w)" and "run_state (runJob (cleanup_job L) (replicate k Ticked)) w = (xs, w')"
  shows "(resets_view (store w') i = Some p \<longrightarrow> resets_view (store w) i = Some p) \<and>
    (resets_view (store w) i = Some p \<and> (\<forall>j < k. pg_time L (now_at L (ticks w + j)) \<le> prExpiresAt p) \<longrightarrow>
       resets_view (store w') i = Some p)"
  using assms
proof (induction k arbitrary: w xs)
  case (Suc k)
  obtain re w1 where sweep: "run_state (pgx_resets_DeleteExpired L) w = (re, w1)" by fastforce
  obtain ys where rest: "run_state (runJob (cleanup_job L) (replicate k Ticked)) w1 = (ys, w')"
    using Suc.prems(2) sweep by (auto simp: cleanup_job_def split: prod.splits)
  have good: "single_node (store w1)"
    using pgr.resets_DeleteExpired_run [of w L re w1] sweep Suc.prems(1) by simp
  have t: "ticks w1 = Suc (ticks w)" using DeleteExpired_ticks [of L w] sweep by simp
  have one: "resets_view (store w1) i = Some p \<Longrightarrow> resets_view (store w) i = Some p"
    "resets_view (store w) i = Some p \<Longrightarrow> pg_time L (now_at L (ticks w)) \<le> prExpiresAt p \<Longrightarrow> resets_view (store w1) i = Some p"
    using DeleteExpired_sweep [OF Suc.prems(1) sweep, of i] by (auto split: option.splits if_splits)
  have later: "\<forall>j < k. pg_time L (now_at L (ticks w1 + j)) \<le> prExpiresAt p"
    if "\<forall>j < Suc k. pg_time L (now_at L (ticks w + j)) \<le> prExpiresAt p"
    using that [rule_format, of "Suc _"] t by simp
  show ?case using Suc.IH [OF good rest] one later by fastforce
qed simp

section \<open>Properties\<close>

text \<open>C9: \<open>Worker.Run\<close> over at least one job always returns once the jobs exit: no send on the error channel
  ever blocks, the goroutines and the loop take at most two more steps than there are jobs, and when
  nothing is left to do every job has exited and \<open>Run\<close> has returned. An error it returns is the first one,
  in the order of the exits, that is not a cancellation; it returns nil only when all jobs have exited
  without one.\<close>

theorem Worker_Run_returns:
  assumes "run_reach w s"
  shows "length (rnChan s) \<le> length (wkJobs w) \<and>
    (\<forall>k t. (run_step ^^ k) s t \<longrightarrow> k \<le> length (wkJobs w) + 2) \<and>
    ((\<nexists>t. run_step s t) \<longrightarrow> rnRunning s = [] \<and> rnResult s \<noteq> None) \<and>
    (\<forall>err. rnResult s = Some (Some err) \<longrightarrow> \<not> errors_Is err CtxCanceled \<and> take 1 (real_errors s) = [err]) \<and>
    (rnResult s = Some None \<longrightarrow> rnRunning s = [] \<and> real_errors s = [])"
proof -
  let ?n = "length (wkJobs w)"
  from run_inv_reach [OF assms] have inv: "length (rnRunning s) + length (rnExits s) = ?n"
    and result: "case rnResult s of
        None \<Rightarrow> real_errors s = rnChan s
      | Some None \<Rightarrow> rnRunning s = [] \<and> real_errors s = [] \<and> rnChan s = []
      | Some (Some err) \<Rightarrow> real_errors s = err # rnChan s"
    by (auto simp: run_inv_def)
  have le: "length (real_errors s) \<le> ?n" using real_errors_le [of s] inv by simp
  have "length (rnChan s) \<le> ?n"
    using result le by (cases "rnResult s"; cases "the (rnResult s)") simp_all
  moreover have "k \<le> ?n + 2" if "(run_step ^^ k) s t" for k t
    using run_steps_bound [OF that] inv by (simp add: run_measure_def split: if_splits)
  moreover have "\<not> errors_Is err CtxCanceled" if "rnResult s = Some (Some err)" for err
  proof -
    have "err \<in> set (real_errors s)" using result that by simp
    then show ?thesis by (auto simp: real_errors_def job_error_def split: option.splits if_splits)
  qed
  moreover have "take 1 (real_errors s) = [err]" if "rnResult s = Some (Some err)" for err
    using result that by simp
  moreover have "rnResult s = Some None \<longrightarrow> rnRunning s = [] \<and> real_errors s = []"
    by (rule impI) (use result in simp)
  ultimately show ?thesis using run_stuck by blast
qed

theorem Worker_Run_returns_witness:
  "\<not> (\<exists>t. (run_step ^^ 5) (run_start (Register ''b'' () (Register ''a'' () Worker_New))) t)"
proof -
  let ?w = "Register ''b'' () (Register ''a'' () Worker_New)"
  have "length (wkJobs ?w) = 2" by (simp add: Register_def Worker_New_def)
  moreover have "run_reach ?w (run_start ?w)" by (simp add: run_reach_def)
  ultimately show ?thesis
    using Worker_Run_returns [of ?w "run_start ?w"] by fastforce
qed

text \<open>C19: over one database node, however many sweeps of expired password resets failed before, the
  scheduler goes on, and after a sweep whose statement gets through every record that is left had not expired
  when it ran and was there before, and every record that had expired at none of the sweeps is left.\<close>

theorem cleanup_sweeps:
  assumes "single_node (store w)" and "sql_fault L (ticks w + k) = Healthy"
    and "run_state (runJob (cleanup_job L) (replicate k Ticked @ [Ticked])) w = (errs, w')"
  shows "length errs = Suc k \<and> last errs = None \<and>
    (\<forall>i p. resets_view (store w') i = Some p \<longrightarrow>
       pg_time L (now_at L (ticks w + k)) \<le> prExpiresAt p \<and> resets_view (store w) i = Some p) \<and>
    (\<forall>i p. resets_view (store w) i = Some p \<and> (\<forall>j \<le> k. pg_time L (now_at L (ticks w + j)) \<le> prExpiresAt p) \<longrightarrow>
       resets_view (store w') i = Some p)"
proof -
  obtain xs w1 where first: "run_state (runJob (cleanup_job L) (replicate k Ticked)) w = (xs, w1)" by fastforce
  obtain e w2 where sweep: "run_state (pgx_resets_DeleteExpired L) w1 = (e, w2)" by fastforce
  have t: "ticks w1 = ticks w + k" using cleanup_ticks [of L k w] first by simp
  have good: "single_node (store w1)" by (rule cleanup_good [OF assms(1) first])
  have errs: "errs = xs @ [e]" "w' = w2"
    using assms(3) first sweep by (simp_all add: run_runJob_append cleanup_job_def)
  have last: "resets_view (store w') i = (case resets_view (store w1) i of None \<Rightarrow> None
      | Some p \<Rightarrow> if prExpiresAt p < pg_time L (now_at L (ticks w + k)) then None else Some p)" for i
    using DeleteExpired_sweep [OF good sweep, of i] assms(2) unfolding t errs(2) by blast
  have "length xs = k"
  proof -
    have "length (fst (run_state (runJob job (replicate k Ticked)) v)) = k" for job and v :: "DB world"
      by (induction k arbitrary: v) (simp_all split: prod.split, metis fst_conv)
    from this [of "cleanup_job L" w] show ?thesis using first by simp
  qed
  moreover have "e = None"
    using sweep assms(2) t by (auto simp: pgx_resets_DeleteExpired_def run_pg_write_healthy delete_resets_def)
  ultimately have "length errs = Suc k" "last errs = None" using errs(1) by simp_all
  moreover have "pg_time L (now_at L (ticks w + k)) \<le> prExpiresAt p \<and> resets_view (store w) i = Some p"
    if "resets_view (store w') i = Some p" for i p
  proof -
    have "resets_view (store w1) i = Some p" "\<not> prExpiresAt p < pg_time L (now_at L (ticks w + k))"
      using last [of i] that by (cases "resets_view (store w1) i"; force split: if_splits)+
    with cleanup_keeps [OF assms(1) first, of i p] show ?thesis by simp
  qed
  moreover have "resets_view (store w') i = Some p"
    if "resets_view (store w) i = Some p \<and> (\<forall>j \<le> k. pg_time L (now_at L (ticks w + j)) \<le> prExpiresAt p)" for i p
  proof -
    have "resets_view (store w1) i = Some p" "\<not> prExpiresAt p < pg_time L (now_at L (ticks w + k))"
      using cleanup_keeps [OF assms(1) first, of i p] that by (simp_all add: not_less)
    with last [of i] show ?thesis by simp
  qed
  ultimately show ?thesis by blast
qed

theorem cleanup_sweeps_witness:
  "\<exists>errs w'. run_state (runJob (cleanup_job example_outside) (replicate 2 Ticked @ [Ticked])) example_world = (errs, w') \<and>
     length errs = 3 \<and> last errs = None"
proof -
  obtain errs w' where run: "run_state (runJob (cleanup_job example_outside) (replicate 2 Ticked @ [Ticked])) example_world = (errs, w')"
    by fastforce
  from cleanup_sweeps [OF example_good _ run] run show ?thesis by auto
qed

end
