(* ===== verification/Gin.thy ===== *)
theory Gin
  imports Examples
begin

text \<open>
  The part of Gin that the source uses, as its documentation describes it: what a handler reads of
  the request, the keys that middleware leaves for later handlers, the response that \<open>c.JSON\<close>,
  \<open>c.Status\<close> and \<open>c.Header\<close> write, and the chain. Whatever Gin computes from the network
  (the parsed query, the path parameters, the client address) is given with the request.
\<close>

section \<open>Requests\<close>

text \<open>\<open>GetHeader\<close> and \<open>Param\<close> give the empty string for a name that is not there.\<close>

record gin_request =
  gqMethod :: string
  gqPath :: string
  gqRawQuery :: string
  gqFullPath :: string
  gqClientIP :: string
  gqUserAgent :: string
  gqHeader :: "string \<Rightarrow> string"
  gqParam :: "string \<Rightarrow> string"
  gqQuery :: "string \<rightharpoonup> string"
  gqBody :: string

text \<open>\<open>c.Query\<close> gives the empty string for a key that is not in the query.\<close>

definition c_Query :: "gin_request \<Rightarrow> string \<Rightarrow> string" where
  "c_Query req key = DefaultQuery (gqQuery req) key ''''"

section \<open>The context of a request being served\<close>

datatype key_value = KUUID uuid | KString string | KStrings "string list"

datatype log_line =
    Log_request string string nat int string string string
  | Log_panic string string string string
  | Log_audit_failed string string

record 'd gin =
  gWorld :: "'d world"
  gKeys :: "string \<rightharpoonup> key_value"
  gHeaders :: "string \<rightharpoonup> string"
  gStatus :: nat
  gBodies :: "json list" \<comment> \<open>the JSON bodies written, in order\<close>
  gLog :: "log_line list"

text \<open>A handler returns, or a panic unwinds through it.\<close>

datatype finish = Returned | Panicked string

type_synonym 'd handler = "gin_request \<Rightarrow> ('d gin, finish) state"
type_synonym 'd middleware = "'d handler \<Rightarrow> 'd handler"

text \<open>The first handler of a chain gets the rest of it as \<open>c.Next()\<close>.\<close>

definition chain :: "'d middleware list \<Rightarrow> 'd handler \<Rightarrow> 'd handler" where
  "chain ms h = foldr (\<lambda>m next. m next) ms h"

lemma chain_simps [simp]: "chain [] h = h" "chain (m # ms) h = m (chain ms h)"
  by (simp_all add: chain_def)

section \<open>What a handler does with its context\<close>

definition on_world :: "('d world, 'a) state \<Rightarrow> ('d gin, 'a) state" where
  "on_world m = State (\<lambda>g. let (a, w) = run_state m (gWorld g) in (a, g\<lparr>gWorld := w\<rparr>))"

lemma run_on_world [simp]:
  "run_state (on_world m) g =
     (fst (run_state m (gWorld g)), g\<lparr>gWorld := snd (run_state m (gWorld g))\<rparr>)"
  by (simp add: on_world_def split: prod.split)

definition modify_gin :: "('d gin \<Rightarrow> 'd gin) \<Rightarrow> ('d gin, unit) state" where
  "modify_gin f = State (\<lambda>g. ((), f g))"

lemma run_modify_gin [simp]: "run_state (modify_gin f) g = ((), f g)"
  by (simp add: modify_gin_def)

definition c_Set :: "string \<Rightarrow> key_value \<Rightarrow> ('d gin, unit) state" where
  "c_Set key v = modify_gin (\<lambda>g. g\<lparr>gKeys := (gKeys g)(key \<mapsto> v)\<rparr>)"

definition c_Header :: "string \<Rightarrow> string \<Rightarrow> ('d gin, unit) state" where
  "c_Header name v = modify_gin (\<lambda>g. g\<lparr>gHeaders := (gHeaders g)(name \<mapsto> v)\<rparr>)"

definition c_GetString :: "'d gin \<Rightarrow> string \<Rightarrow> string" where
  "c_GetString g key = (case gKeys g key of Some (KString s) \<Rightarrow> s | _ \<Rightarrow> '''')"

text \<open>The status counts as written with the first body; a later one keeps it and adds its own body.\<close>

definition c_Status :: "nat \<Rightarrow> ('d gin, unit) state" where
  "c_Status status = modify_gin (\<lambda>g. if gBodies g = [] then g\<lparr>gStatus := status\<rparr> else g)"

definition c_JSON :: "nat \<Rightarrow> json \<Rightarrow> ('d gin, unit) state" where
  "c_JSON status body = do {
     _ \<leftarrow> c_Status status;
     modify_gin (\<lambda>g. g\<lparr>gBodies := gBodies g @ [body]\<rparr>)
   }"

text \<open>A response of \<open>lib\<close> is written by \<open>c.JSON\<close>, or by \<open>c.Status\<close> when it has no body.\<close>

definition send :: "response \<Rightarrow> ('d gin, finish) state" where
  "send r = do {
     _ \<leftarrow> (case rBody r of None \<Rightarrow> c_Status (rStatus r) | Some b \<Rightarrow> c_JSON (rStatus r) b);
     ret Returned
   }"

text \<open>
  \<open>c.AbortWithStatusJSON(status, gin.H{"success": false, "error": gin.H{"code": ..., "message": ...}})\<close>
  followed by a return: the rest of the chain does not run. A map is written in the order of its keys.
\<close>

definition abort_body :: "string \<Rightarrow> string \<Rightarrow> json" where
  "abort_body code message =
     JObject [(''error'', JObject [(''code'', JString code), (''message'', JString message)]),
              (''success'', JBool False)]"

definition abort_json :: "nat \<Rightarrow> string \<Rightarrow> string \<Rightarrow> ('d gin, finish) state" where
  "abort_json status code message = do {
     _ \<leftarrow> c_JSON status (abort_body code message);
     ret Returned
   }"

lemma run_writes [simp]:
  "run_state (c_Set key v) g = ((), g\<lparr>gKeys := (gKeys g)(key \<mapsto> v)\<rparr>)"
  "run_state (c_Header name s) g = ((), g\<lparr>gHeaders := (gHeaders g)(name \<mapsto> s)\<rparr>)"
  "run_state (c_Status status) g = ((), if gBodies g = [] then g\<lparr>gStatus := status\<rparr> else g)"
  "run_state (c_JSON status b) g =
     ((), (if gBodies g = [] then g\<lparr>gStatus := status, gBodies := [b]\<rparr> else g\<lparr>gBodies := gBodies g @ [b]\<rparr>))"
  by (simp_all add: c_Set_def c_Header_def c_Status_def c_JSON_def)

text \<open>The response as the client sees it.\<close>

definition written :: "'d gin \<Rightarrow> nat \<times> json list" where
  "written g = (gStatus g, gBodies g)"

definition write_response :: "nat \<Rightarrow> json list \<Rightarrow> 'd gin \<Rightarrow> 'd gin" where
  "write_response status bs g = g\<lparr>gStatus := (if gBodies g = [] then status else gStatus g), gBodies := gBodies g @ bs\<rparr>"

lemma run_abort_json [simp]:
  "run_state (abort_json status code message) g = (Returned, write_response status [abort_body code message] g)"
  by (simp add: abort_json_def write_response_def)

lemma run_send [simp]:
  "run_state (send r) g = (Returned, write_response (rStatus r) (case rBody r of None \<Rightarrow> [] | Some b \<Rightarrow> [b]) g)"
  by (cases "rBody r") (simp_all add: send_def write_response_def)

lemma write_response_sel [simp]:
  "gWorld (write_response s bs g) = gWorld g" "gKeys (write_response s bs g) = gKeys g"
  "gHeaders (write_response s bs g) = gHeaders g" "gLog (write_response s bs g) = gLog g"
  "gBodies (write_response s bs g) = gBodies g @ bs"
  "gBodies g = [] \<Longrightarrow> gStatus (write_response s bs g) = s"
  by (simp_all add: write_response_def)

section \<open>A fresh context\<close>

text \<open>What Gin hands to the chain: no keys, no headers, status 200, nothing written.\<close>

definition new_gin :: "'d world \<Rightarrow> 'd gin" where
  "new_gin w = \<lparr>gWorld = w, gKeys = Map.empty, gHeaders = Map.empty, gStatus = 200, gBodies = [], gLog = []\<rparr>"

lemma new_gin_sel [simp]:
  "gWorld (new_gin w) = w" "gKeys (new_gin w) = Map.empty" "gStatus (new_gin w) = 200" "gBodies (new_gin w) = []"
  "gHeaders (new_gin w) = Map.empty" "gLog (new_gin w) = []"
  by (simp_all add: new_gin_def)

text \<open>A relation between the worlds before and after, lifted to contexts.\<close>

definition on_gin :: "('d world \<Rightarrow> 'd world \<Rightarrow> bool) \<Rightarrow> 'd gin \<Rightarrow> 'd gin \<Rightarrow> bool" where
  "on_gin P g g' \<longleftrightarrow> P (gWorld g) (gWorld g')"

lemma on_gin_order [simp, intro]: "reflp P \<Longrightarrow> reflp (on_gin P)" "transp P \<Longrightarrow> transp (on_gin P)"
  unfolding reflp_def transp_def on_gin_def by blast+

lemma rel_on_world [rel_intros]: "state_io_rel P m \<Longrightarrow> state_io_rel (on_gin P) (on_world m)"
  by (simp add: state_io_rel_def on_gin_def)

lemma rel_gin_writes [rel_intros]:
  assumes "reflp P"
  shows "state_io_rel (on_gin P) (c_Set key v)" "state_io_rel (on_gin P) (c_Header name s)"
    "state_io_rel (on_gin P) (c_Status status)" "state_io_rel (on_gin P) (c_JSON status b)"
    "state_io_rel (on_gin P) (abort_json status code message)" "state_io_rel (on_gin P) (send r)"
    "state_io_rel (on_gin P) (State_Monad.get)"
  using assms by (simp_all add: state_io_rel_def on_gin_def reflp_def)

section \<open>An example request\<close>

definition example_request :: "string \<Rightarrow> string \<Rightarrow> string \<Rightarrow> gin_request" where
  "example_request method path tok =
     \<lparr>gqMethod = method, gqPath = path, gqRawQuery = '''', gqFullPath = path, gqClientIP = ''10.0.0.1'',
      gqUserAgent = ''curl'',
      gqHeader = (\<lambda>name. if name = ''Authorization'' then ''Bearer '' @ tok else ''''),
      gqParam = (\<lambda>_. ''''), gqQuery = Map.empty, gqBody = ''{}''\<rparr>"

end
