(* ===== verification/RateWindow.thy ===== *)
theory RateWindow
  imports Examples
begin

text \<open>
  The counter of \<open>internal/api/middleware/rate_limit.go\<close> over Redis. What Redis answers is a parameter
  (\<open>redis_counter\<close>); \<open>redis_documented\<close> states what its documentation promises of \<open>INCR\<close> and \<open>EXPIRE\<close>,
  as a replay of the commands that took effect, and what the client promises of the seconds it sends. Under it the code is a fixed-window counter; the
  theorems say how much it lets through, and what a lost \<open>EXPIRE\<close> does.
\<close>

section \<open>The two commands\<close>

definition rdb_Incr :: "outside \<Rightarrow> string \<Rightarrow> ('d world, goerr + int64) state" where
  "rdb_Incr L key = do {
     n \<leftarrow> tick;
     w \<leftarrow> State_Monad.get;
     case redis_fault L n of
       Refused m \<Rightarrow> ret (Inl (Plain m))
     | f \<Rightarrow> do {
         let log = redis_log w @ [(now_at L n, Redis_Incr key)];
         _ \<leftarrow> State_Monad.set (w\<lparr>redis_log := log\<rparr>);
         ret (case f of AckLost m \<Rightarrow> Inl (Plain m) | _ \<Rightarrow> Inr (redis_counter L log key))
       }
   }"

definition rdb_Expire :: "outside \<Rightarrow> string \<Rightarrow> int64 \<Rightarrow> ('d world, goerr option) state" where
  "rdb_Expire L key window = do {
     n \<leftarrow> tick;
     w \<leftarrow> State_Monad.get;
     case redis_fault L n of
       Refused m \<Rightarrow> ret (Some (Plain m))
     | f \<Rightarrow> do {
         _ \<leftarrow> State_Monad.set (w\<lparr>redis_log := redis_log w @ [(now_at L n, Redis_Expire key (redis_seconds L window))]\<rparr>);
         ret (case f of AckLost m \<Rightarrow> Some (Plain m) | _ \<Rightarrow> None)
       }
   }"

section \<open>The check\<close>

definition checkRateLimit :: "outside \<Rightarrow> string \<Rightarrow> int64 \<Rightarrow> int64 \<Rightarrow> ('d world, int64 \<times> bool \<times> goerr option) state" where
  "checkRateLimit L key limit window = do {
     r \<leftarrow> rdb_Incr L key;
     case r of
       Inl err \<Rightarrow> ret (limit, False, Some err)
     | Inr count \<Rightarrow> do {
         _ \<leftarrow> (if count = 1 then ignore (rdb_Expire L key window) else ret ());
         let remaining = limit - count;
         let remaining = (if sint remaining < 0 then 0 else remaining);
         ret (remaining, sint count \<le> sint limit, None)
       }
   }"

section \<open>What Redis documents\<close>

text \<open>
  A key holds a count and maybe an instant at which it expires; an expired key is gone. \<open>INCR\<close> starts a
  missing key at one and keeps the expiry of one that exists; \<open>EXPIRE\<close> sets the expiry of an existing
  key and does nothing to a missing one.
\<close>

type_synonym redis_keys = "string \<rightharpoonup> nat \<times> time option"

definition redis_live :: "time \<Rightarrow> redis_keys \<Rightarrow> string \<Rightarrow> (nat \<times> time option) option" where
  "redis_live t db k = (case db k of
      None \<Rightarrow> None
    | Some (n, None) \<Rightarrow> Some (n, None)
    | Some (n, Some x) \<Rightarrow> if x \<le> t then None else Some (n, Some x))"

fun redis_apply :: "time \<times> redis_cmd \<Rightarrow> redis_keys \<Rightarrow> redis_keys" where
  "redis_apply (t, Redis_Incr k) db =
     (case redis_live t db k of
        None \<Rightarrow> db(k \<mapsto> (1, None))
      | Some (n, x) \<Rightarrow> db(k \<mapsto> (n + 1, x)))"
| "redis_apply (t, Redis_Expire k d) db =
     (case redis_live t db k of
        None \<Rightarrow> db
      | Some (n, x) \<Rightarrow> if d \<le> 0 then db(k := None) else db(k \<mapsto> (n, Some (t + d * 1000000000))))"

definition redis_after :: "(time \<times> redis_cmd) list \<Rightarrow> redis_keys" where
  "redis_after log = fold redis_apply log Map.empty"

definition redis_documented :: "outside \<Rightarrow> bool" where
  "redis_documented L \<longleftrightarrow> redis_seconds L = whole_seconds \<and>
     (\<forall>log t k. redis_counter L (log @ [(t, Redis_Incr k)]) k =
        word_of_nat (case redis_after (log @ [(t, Redis_Incr k)]) k of None \<Rightarrow> 0 | Some (n, _) \<Rightarrow> n))"

section \<open>The fixed window\<close>

text \<open>The specification: a count, and the instant at which the window ends, if it has one.\<close>

type_synonym fixed_window = "(nat \<times> time option) option"

definition fw_live :: "time \<Rightarrow> fixed_window \<Rightarrow> fixed_window" where
  "fw_live t s = (case s of Some (n, Some x) \<Rightarrow> if x \<le> t then None else s | _ \<Rightarrow> s)"

definition fw_count :: "time \<Rightarrow> fixed_window \<Rightarrow> nat" where
  "fw_count t s = (case fw_live t s of None \<Rightarrow> 1 | Some (n, _) \<Rightarrow> n + 1)"

definition fw_next :: "time \<Rightarrow> time \<Rightarrow> time \<Rightarrow> fixed_window \<Rightarrow> fixed_window" where
  "fw_next window t t' s = (case fw_live t s of
      None \<Rightarrow> Some (1, Some (t' + window))
    | Some (n, x) \<Rightarrow> Some (n + 1, x))"

definition fw_state :: "'d world \<Rightarrow> string \<Rightarrow> fixed_window" where
  "fw_state w key = redis_after (redis_log w) key"

lemma redis_live_fw: "redis_live t db k = fw_live t (db k)"
  by (auto simp: redis_live_def fw_live_def split: option.splits prod.splits)

lemma redis_after_snoc: "redis_after (log @ [c]) = redis_apply c (redis_after log)"
  by (simp add: redis_after_def)

text \<open>A command on another key leaves this one alone.\<close>

lemma redis_apply_other:
  "redis_apply (t, Redis_Incr k) db j = (if j = k then redis_apply (t, Redis_Incr k) db k else db j)"
  "redis_apply (t, Redis_Expire k d) db j = (if j = k then redis_apply (t, Redis_Expire k d) db k else db j)"
  by (auto split: option.splits)

text \<open>A key that exists has been counted at least once.\<close>

lemma redis_after_pos: "redis_after log k = Some (n, x) \<Longrightarrow> 1 \<le> n"
proof (induction log arbitrary: n x rule: rev_induct)
  case (snoc c log)
  obtain t cmd where c: "c = (t, cmd)" by (cases c)
  show ?case
  proof (cases cmd)
    case (Redis_Incr j)
    with snoc c show ?thesis
      by (auto simp: redis_after_snoc redis_live_fw fw_live_def split: if_splits option.splits)
  next
    case (Redis_Expire j d)
    with snoc c show ?thesis
      by (auto simp: redis_after_snoc redis_live_fw fw_live_def split: if_splits option.splits)
  qed
qed (simp add: redis_after_def)

lemma fw_count_pos: "1 \<le> fw_count t s"
  by (simp add: fw_count_def split: option.split prod.split)

lemma fw_state_snoc:
  "redis_after (log @ [(t, Redis_Incr k)]) k =
     Some (fw_count t (redis_after log k), case fw_live t (redis_after log k) of None \<Rightarrow> None | Some (_, x) \<Rightarrow> x)"
  "redis_after log k = Some (n, None) \<Longrightarrow> 0 < d \<Longrightarrow>
     redis_after (log @ [(t, Redis_Expire k d)]) k = Some (n, Some (t + d * 1000000000))"
  by (auto simp: redis_after_snoc redis_live_fw fw_count_def fw_live_def split: option.splits)

text \<open>One \<open>INCR\<close> under the documented Redis.\<close>

lemma run_rdb_Incr:
  assumes "redis_documented L" "redis_fault L (ticks w) = Healthy"
  shows "run_state (rdb_Incr L key) w =
    (Inr (word_of_nat (fw_count (now_at L (ticks w)) (fw_state w key))),
     w\<lparr>ticks := Suc (ticks w), redis_log := redis_log w @ [(now_at L (ticks w), Redis_Incr key)]\<rparr>)"
  using assms by (simp add: rdb_Incr_def redis_documented_def fw_state_def fw_state_snoc)

lemma count_word:
  assumes "n < 2 ^ 63"
  shows "sint (word_of_nat n :: int64) = int n" and "(word_of_nat n :: int64) = 1 \<longleftrightarrow> n = 1"
proof -
  show s: "sint (word_of_nat n :: int64) = int n"
    using assms by (simp add: signed_of_nat signed_take_bit_int_eq_self)
  show "(word_of_nat n :: int64) = 1 \<longleftrightarrow> n = 1"
  proof
    assume "(word_of_nat n :: int64) = 1"
    then have "sint (word_of_nat n :: int64) = 1" by simp
    with s show "n = 1" by simp
  qed simp
qed

section \<open>Checks\<close>

text \<open>The answer of a check, as a function of the count it sees.\<close>

definition fw_answer :: "int64 \<Rightarrow> nat \<Rightarrow> int64 \<times> bool \<times> goerr option" where
  "fw_answer limit n = (word_of_int (max 0 (sint limit - int n)), int n \<le> sint limit, None)"

lemma remaining_word:
  assumes "n < 2 ^ 62" "0 \<le> sint limit"
  shows "(let r = limit - word_of_nat n :: int64 in if sint r < 0 then 0 else r) =
    word_of_int (max 0 (sint limit - int n))"
proof -
  have "limit - word_of_nat n = (word_of_int (sint limit - int n) :: int64)" by simp
  moreover have "sint (word_of_int (sint limit - int n) :: int64) = sint limit - int n"
    by (rule sint_int64) (use assms sint_int64_bounds [of limit] in simp_all)
  ultimately show ?thesis by (simp add: Let_def max_def)
qed

text \<open>A check whose two commands get through is one step of the fixed window.\<close>

lemma checkRateLimit_step:
  assumes doc: "redis_documented L"
    and up: "redis_fault L (ticks w) = Healthy" "redis_fault L (Suc (ticks w)) = Healthy"
    and window: "0 < sint window" and limit: "0 \<le> sint limit"
    and small: "fw_count (now_at L (ticks w)) (fw_state w key) < 2 ^ 62"
  obtains w' where "run_state (checkRateLimit L key limit window) w =
      (fw_answer limit (fw_count (now_at L (ticks w)) (fw_state w key)), w')"
    and "fw_state w' key = fw_next (redis_lifetime window) (now_at L (ticks w)) (now_at L (Suc (ticks w))) (fw_state w key)"
    and "store w' = store w" "ticks w < ticks w'" "ticks w' \<le> Suc (Suc (ticks w))"
proof -
  let ?t = "now_at L (ticks w)"
  let ?n = "fw_count ?t (fw_state w key)"
  let ?log = "redis_log w @ [(?t, Redis_Incr key)]"
  let ?w1 = "w\<lparr>ticks := Suc (ticks w), redis_log := ?log\<rparr>"
  let ?w2 = "?w1\<lparr>ticks := Suc (Suc (ticks w)), redis_log := ?log @ [(now_at L (Suc (ticks w)), Redis_Expire key (whole_seconds window))]\<rparr>"
  note Incr = run_rdb_Incr [OF doc up(1), of key]
  have seconds: "redis_seconds L = whole_seconds" using doc by (simp add: redis_documented_def)
  have one: "(word_of_nat ?n :: int64) = 1 \<longleftrightarrow> ?n = 1" and sint_n: "sint (word_of_nat ?n :: int64) = int ?n"
    using count_word [of ?n] small by simp_all
  note answer = remaining_word [OF small limit, unfolded Let_def]
  have live: "fw_live ?t (fw_state w key) = None \<longleftrightarrow> ?n = 1"
    using redis_after_pos by (auto simp: fw_count_def fw_live_def fw_state_def split: option.splits prod.splits if_splits) fastforce+
  have next_eq: "redis_after ?log key = Some (?n, case fw_live ?t (fw_state w key) of None \<Rightarrow> None | Some (_, x) \<Rightarrow> x)"
    unfolding fw_state_def by (rule fw_state_snoc)
  show thesis
  proof (cases "?n = 1")
    case True
    have "run_state (checkRateLimit L key limit window) w = (fw_answer limit ?n, ?w2)"
      using True Incr up(2) answer [unfolded True] seconds
      by (auto simp: checkRateLimit_def rdb_Expire_def fw_answer_def Let_def split: if_splits)
    moreover have "fw_state ?w2 key = fw_next (redis_lifetime window) ?t (now_at L (Suc (ticks w))) (fw_state w key)"
      using fw_state_snoc(2) [of ?log key 1 "whole_seconds window"] next_eq True live whole_seconds_pos [OF window]
      by (simp add: fw_state_def fw_next_def redis_lifetime_def)
    ultimately show thesis by (rule that) simp_all
  next
    case False
    have "run_state (checkRateLimit L key limit window) w = (fw_answer limit ?n, ?w1)"
      using False Incr one answer sint_n by (simp add: checkRateLimit_def fw_answer_def Let_def)
    moreover have "fw_state ?w1 key = fw_next (redis_lifetime window) ?t (now_at L (Suc (ticks w))) (fw_state w key)"
      using next_eq False live by (auto simp: fw_state_def fw_next_def fw_count_def split: option.splits prod.splits)
    ultimately show thesis by (rule that) simp_all
  qed
qed

text \<open>The answer does not depend on what becomes of the \<open>EXPIRE\<close>.\<close>

lemma run_rdb_Expire_frame: "store (snd (run_state (rdb_Expire L key window) w)) = store w"
  by (simp add: rdb_Expire_def split: fault.split)

lemma checkRateLimit_answer:
  assumes doc: "redis_documented L" and up: "redis_fault L (ticks w) = Healthy" and limit: "0 \<le> sint limit"
    and small: "fw_count (now_at L (ticks w)) (fw_state w key) < 2 ^ 62"
  shows "\<exists>w'. run_state (checkRateLimit L key limit window) w =
      (fw_answer limit (fw_count (now_at L (ticks w)) (fw_state w key)), w') \<and> store w' = store w"
proof -
  let ?n = "fw_count (now_at L (ticks w)) (fw_state w key)"
  have one: "(word_of_nat ?n :: int64) = 1 \<longleftrightarrow> ?n = 1" and sint_n: "sint (word_of_nat ?n :: int64) = int ?n"
    using count_word [of ?n] small by simp_all
  note answer = remaining_word [OF small limit, unfolded Let_def]
  let ?w1 = "w\<lparr>ticks := Suc (ticks w), redis_log := redis_log w @ [(now_at L (ticks w), Redis_Incr key)]\<rparr>"
  obtain e w2 where expire: "run_state (rdb_Expire L key window) ?w1 = (e, w2)" by fastforce
  then have frame: "store w2 = store w" using run_rdb_Expire_frame [of L key window ?w1] by simp
  show ?thesis
  proof (cases "?n = 1")
    case True
    with run_rdb_Incr [OF doc up, of key] answer [unfolded True] expire frame show ?thesis
      by (auto simp: checkRateLimit_def fw_answer_def Let_def split: if_splits)
  next
    case False
    with run_rdb_Incr [OF doc up, of key] one sint_n answer show ?thesis
      by (simp add: checkRateLimit_def fw_answer_def Let_def)
  qed
qed

text \<open>A number of checks of one key, one after another.\<close>

fun checks :: "outside \<Rightarrow> string \<Rightarrow> int64 \<Rightarrow> int64 \<Rightarrow> nat \<Rightarrow> ('d world, bool list) state" where
  "checks L key limit window 0 = ret []"
| "checks L key limit window (Suc n) = do {
     (_, allowed, _) \<leftarrow> checkRateLimit L key limit window;
     rest \<leftarrow> checks L key limit window n;
     ret (allowed # rest)
   }"

text \<open>Inside a window, or when the key has no expiry, the count goes on from where it is.\<close>

lemma checks_within:
  assumes doc: "redis_documented L" and up: "\<And>m. ticks w \<le> m \<Longrightarrow> redis_fault L m = Healthy"
    and window: "0 < sint window" and limit: "0 \<le> sint limit"
    and state: "fw_state w key = Some (k, x)" and small: "k + n < 2 ^ 62"
    and times: "\<And>m e. ticks w \<le> m \<Longrightarrow> m < ticks w + 2 * n \<Longrightarrow> x = Some e \<Longrightarrow> now_at L m < e"
  shows "fst (run_state (checks L key limit window n) w) = map (\<lambda>i. int (k + i) \<le> sint limit) [1..<Suc n]"
  using up state small times
proof (induction n arbitrary: w k)
  case (Suc n)
  have live: "fw_live (now_at L (ticks w)) (fw_state w key) = Some (k, x)"
    using Suc.prems(2) Suc.prems(4) [of "ticks w"] by (auto simp: fw_live_def not_le split: option.split)
  then have cnt: "fw_count (now_at L (ticks w)) (fw_state w key) = Suc k" by (simp add: fw_count_def)
  obtain w' where run: "run_state (checkRateLimit L key limit window) w = (fw_answer limit (Suc k), w')"
    and st: "fw_state w' key = Some (Suc k, x)" and ticks: "ticks w < ticks w'" "ticks w' \<le> Suc (Suc (ticks w))"
    using checkRateLimit_step [OF doc Suc.prems(1) Suc.prems(1) window limit, of w key] cnt live Suc.prems(3)
    by (auto simp: fw_next_def)
  have "fst (run_state (checks L key limit window n) w') = map (\<lambda>i. int (Suc k + i) \<le> sint limit) [1..<Suc n]"
    by (rule Suc.IH [OF _ st]) (rule Suc.prems(1), use ticks Suc.prems(3) in simp_all, rule Suc.prems(4), use ticks in auto)
  moreover have "[1..<Suc (Suc n)] = 1 # map Suc [1..<Suc n]"
    by (simp only: map_Suc_upt upt_conv_Cons)
  moreover have "fst (run_state (checks L key limit window (Suc n)) w) =
      (int (Suc k) \<le> sint limit) # fst (run_state (checks L key limit window n) w')"
    using run by (simp add: fw_answer_def split: prod.split)
  ultimately show ?case by (simp add: comp_def add.commute add.left_commute del: upt_Suc checks.simps)
qed simp

lemma map_le_upt: "map (\<lambda>i. int i \<le> sint limit) [1..<Suc n] =
    replicate (min n (nat (sint limit))) True @ replicate (n - nat (sint limit)) False"
  if "0 \<le> sint limit"
proof (induction n)
  case (Suc n)
  show ?case
  proof (cases "Suc n \<le> nat (sint limit)")
    case True
    then have "1 + int n \<le> sint limit" using that by linarith
    with Suc True show ?thesis by (simp add: min_def replicate_append_same)
  next
    case False
    then have "\<not> 1 + int n \<le> sint limit" using that by linarith
    with Suc False show ?thesis by (auto simp: min_def Suc_diff_le replicate_append_same)
  qed
qed simp

lemma checks_fresh:
  assumes doc: "redis_documented L" and up: "\<And>m. ticks w \<le> m \<Longrightarrow> redis_fault L m = Healthy"
    and window: "0 < sint window" and limit: "0 \<le> sint limit"
    and fresh: "fw_live (now_at L (ticks w)) (fw_state w key) = None" and small: "n < 2 ^ 61"
    and times: "\<And>m. ticks w \<le> m \<Longrightarrow> m < ticks w + 2 * n + 2 \<Longrightarrow>
      now_at L m < now_at L (Suc (ticks w)) + redis_lifetime window"
  shows "fst (run_state (checks L key limit window n) w) =
    replicate (min n (nat (sint limit))) True @ replicate (n - nat (sint limit)) False"
proof (cases n)
  case (Suc j)
  have cnt: "fw_count (now_at L (ticks w)) (fw_state w key) = 1" using fresh by (simp add: fw_count_def)
  obtain w' where run: "run_state (checkRateLimit L key limit window) w = (fw_answer limit 1, w')"
    and st: "fw_state w' key = Some (1, Some (now_at L (Suc (ticks w)) + redis_lifetime window))"
    and ticks: "ticks w < ticks w'" "ticks w' \<le> Suc (Suc (ticks w))"
    using checkRateLimit_step [OF doc up up window limit, of w key] cnt fresh by (auto simp: fw_next_def)
  have "fst (run_state (checks L key limit window j) w') = map (\<lambda>i. int (1 + i) \<le> sint limit) [1..<Suc j]"
    by (rule checks_within [OF doc _ window limit st]) (rule up, use ticks Suc small times in auto)
  moreover have "fst (run_state (checks L key limit window (Suc j)) w) =
      (1 \<le> sint limit) # fst (run_state (checks L key limit window j) w')"
    using run by (simp add: fw_answer_def split: prod.split)
  moreover have "[1..<Suc n] = 1 # map Suc [1..<Suc j]"
    unfolding Suc by (simp only: map_Suc_upt upt_conv_Cons)
  ultimately show ?thesis
    unfolding map_le_upt [OF limit, symmetric] Suc by (simp add: comp_def del: upt_Suc checks.simps)
qed simp

section \<open>An outside whose Redis is the documented one\<close>

definition redis_outside :: outside where
  "redis_outside = example_outside\<lparr>redis_counter :=
     (\<lambda>log k. word_of_nat (case redis_after log k of None \<Rightarrow> 0 | Some (n, _) \<Rightarrow> n))\<rparr>"

lemma redis_outside_simps [simp]:
  "redis_documented redis_outside" "redis_fault redis_outside n = Healthy" "now_at redis_outside n = int n"
  "jwt redis_outside = example_jwt" "uuid_at redis_outside n = word_of_nat (n + 100)"
  by (simp_all add: redis_outside_def redis_documented_def example_outside_def)

lemma example_fw_state [simp]: "fw_state example_world key = None"
  by (simp add: fw_state_def example_world_def redis_after_def)

lemma example_ticks [simp]: "ticks example_world = 0"
  by (simp add: example_world_def)

section \<open>Properties\<close>

text \<open>C20: over a Redis that behaves as documented, a check whose commands get through (and whose counter is
  below 2^62) is exactly one step of the fixed-window counter: it answers from the count of the window it falls into (the first of a window
  counts one), and leaves either that window one further or a new one. A new window ends after the whole
  seconds of \<open>window\<close>, counted from the \<open>EXPIRE\<close>, or one second where it is shorter; that is exactly
  \<open>window\<close> when it is a number of whole seconds.\<close>

theorem checkRateLimit_fixed_window:
  assumes "redis_documented L"
    and "redis_fault L (ticks w) = Healthy" and "redis_fault L (Suc (ticks w)) = Healthy"
    and "0 < sint window" and "0 \<le> sint limit"
    and "fw_count (now_at L (ticks w)) (fw_state w key) < 2 ^ 62"
  shows "\<exists>w'. run_state (checkRateLimit L key limit window) w =
      (fw_answer limit (fw_count (now_at L (ticks w)) (fw_state w key)), w') \<and>
    fw_state w' key = fw_next (redis_lifetime window) (now_at L (ticks w)) (now_at L (Suc (ticks w))) (fw_state w key) \<and>
    store w' = store w \<and> (1000000000 dvd sint window \<longrightarrow> redis_lifetime window = sint window)"
  using checkRateLimit_step [OF assms] redis_lifetime_exact [OF assms(4)] by metis

theorem checkRateLimit_fixed_window_witness:
  "\<exists>w'. run_state (checkRateLimit redis_outside ''rate:auth:login:::1'' 30 time_Minute) example_world =
      (fw_answer 30 1, w') \<and> fw_state w' ''rate:auth:login:::1'' = Some (1, Some (1 + 60000000000))"
  using checkRateLimit_fixed_window [of redis_outside example_world time_Minute 30 "''rate:auth:login:::1''"]
  by (auto simp: fw_count_def fw_live_def fw_next_def time_Minute_def)

text \<open>C21: as long as Redis answers, as documented, of \<open>n\<close> (fewer than 2^61) checks of a key that all fall into the window which the first of them
  opens (the whole seconds of \<open>window\<close>, at least one), the first \<open>limit\<close> are let through and the others are
  refused, in this order.\<close>

theorem checks_bound:
  assumes "redis_documented L" and "\<forall>m \<ge> ticks w. redis_fault L m = Healthy"
    and "0 < sint window" and "0 \<le> sint limit"
    and "fw_live (now_at L (ticks w)) (fw_state w key) = None" and "n < 2 ^ 61"
    and "\<forall>m. ticks w \<le> m \<and> m < ticks w + 2 * n + 2 \<longrightarrow> now_at L m < now_at L (Suc (ticks w)) + redis_lifetime window"
  shows "fst (run_state (checks L key limit window n) w) =
    replicate (min n (nat (sint limit))) True @ replicate (n - nat (sint limit)) False"
  by (rule checks_fresh) (use assms in auto)

theorem checks_bound_witness:
  "fst (run_state (checks redis_outside ''rate:auth:login:::1'' 30 time_Minute 32) example_world) =
     replicate 30 True @ replicate 2 False"
  using checks_bound [of redis_outside example_world time_Minute 30 "''rate:auth:login:::1''" 32]
  by (simp add: fw_live_def time_Minute_def redis_lifetime_def whole_seconds_def)

text \<open>C22: when the \<open>EXPIRE\<close> of a key's first request is refused, which the code does not notice, and Redis
  answers from then on, as documented, the key never expires: however much time passes afterwards, the later requests are
  counted on from there, the first \<open>limit - 1\<close> of them are let through, and every one after those is
  refused.\<close>

theorem lost_expire_blocks:
  assumes "redis_documented L" and "fw_live (now_at L (ticks w)) (fw_state w key) = None"
    and "redis_fault L (ticks w) = Healthy" and "redis_fault L (Suc (ticks w)) = Refused reason"
    and "\<forall>m \<ge> Suc (Suc (ticks w)). redis_fault L m = Healthy"
    and "0 < sint window" and "0 \<le> sint limit" and "n < 2 ^ 61"
    and "run_state (checkRateLimit L key limit window) w = (r, w1)" and "ticks w1 \<le> m"
  shows "fst (run_state (checks L key limit window n) (w1\<lparr>ticks := m\<rparr>)) =
    map (\<lambda>i. int (1 + i) \<le> sint limit) [1..<Suc n]"
proof (rule checks_within [where x = None])
  have cnt: "fw_count (now_at L (ticks w)) (fw_state w key) = 1" using assms(2) by (simp add: fw_count_def)
  have w1: "w1 = w\<lparr>ticks := Suc (Suc (ticks w)), redis_log := redis_log w @ [(now_at L (ticks w), Redis_Incr key)]\<rparr>"
    using assms(9,4) run_rdb_Incr [OF assms(1,3), of key] cnt
    by (auto simp: checkRateLimit_def rdb_Expire_def Let_def split: if_splits)
  then show "fw_state (w1\<lparr>ticks := m\<rparr>) key = Some (1, None)"
    using fw_state_snoc(1) [of "redis_log w" "now_at L (ticks w)" key] cnt assms(2)
    by (simp add: fw_state_def)
  show "redis_fault L k = Healthy" if "ticks (w1\<lparr>ticks := m\<rparr>) \<le> k" for k
    using that assms(5,10) w1 by simp
qed (use assms in auto)

definition expire_fails :: outside where
  "expire_fails = redis_outside\<lparr>redis_fault := (\<lambda>n. if n = 1 then Refused ''down'' else Healthy)\<rparr>"

theorem lost_expire_blocks_witness:
  "fst (run_state (checks expire_fails ''k'' 3 time_Minute 4)
     ((snd (run_state (checkRateLimit expire_fails ''k'' 3 time_Minute) example_world))\<lparr>ticks := 10 ^ 15\<rparr>)) =
   [True, True, False, False]"
proof -
  have doc: "redis_documented expire_fails"
    using redis_outside_simps(1) by (simp add: expire_fails_def redis_documented_def)
  let ?r = "run_state (checkRateLimit expire_fails ''k'' 3 time_Minute) example_world"
  have "ticks (snd ?r) \<le> 10 ^ 15"
    by (simp add: checkRateLimit_def rdb_Incr_def rdb_Expire_def expire_fails_def redis_outside_def Let_def
        split: if_split)
  then have "fst (run_state (checks expire_fails ''k'' 3 time_Minute 4) ((snd ?r)\<lparr>ticks := 10 ^ 15\<rparr>)) =
      map (\<lambda>i. int (1 + i) \<le> sint (3 :: int64)) [1..<Suc 4]"
    by (intro lost_expire_blocks [where w = example_world and r = "fst ?r" and reason = "''down''"] doc)
      (auto simp: fw_live_def expire_fails_def time_Minute_def)
  then show ?thesis by (simp add: upt_rec)
qed

end
