(* ===== verification/Middleware.thy ===== *)
theory Middleware
  imports Gin RateWindow
begin

text \<open>
  \<open>internal/api/middleware\<close>: authentication, roles and permissions, the rate limit, the audit log,
  panic recovery, request identifiers and the request log, each as a function of the rest of its chain.
\<close>

section \<open>auth.go\<close>

definition ctxUserID :: string where "ctxUserID = ''user_id''"
definition ctxUserEmail :: string where "ctxUserEmail = ''user_email''"
definition ctxUserRole :: string where "ctxUserRole = ''user_role''"
definition ctxUserPermissions :: string where "ctxUserPermissions = ''user_permissions''"

lemmas ctx_defs = ctxUserID_def ctxUserEmail_def ctxUserRole_def ctxUserPermissions_def

definition extractBearer :: "gin_request \<Rightarrow> string" where
  "extractBearer req =
     (let header = gqHeader req ''Authorization''
      in if header = '''' then ''''
         else case SplitN2 (CHR '' '') header of
                [scheme, rest] \<Rightarrow> if EqualFold scheme ''bearer'' then TrimSpace rest else ''''
              | _ \<Rightarrow> '''')"

definition requirePurpose :: "outside \<Rightarrow> string \<Rightarrow> string \<Rightarrow> 'd middleware" where
  "requirePurpose L secret expected next req =
     (let token = extractBearer req
      in if token = '''' then abort_json 401 ''UNAUTHORIZED'' ''missing authorization token''
      else do {
        r \<leftarrow> on_world (auth_Parse L token secret);
        case r of
          Inl _ \<Rightarrow> abort_json 401 ''UNAUTHORIZED'' ''invalid or expired token''
        | Inr claims \<Rightarrow>
            if cPurpose claims \<noteq> expected
            then abort_json 401 ''UNAUTHORIZED'' ''token not valid for this endpoint''
            else if expected = PurposeSession \<and> cRole claims = ''''
            then abort_json 401 ''UNAUTHORIZED'' ''invalid token claims''
            else do {
              _ \<leftarrow> c_Set ctxUserID (KUUID (cUserID claims));
              _ \<leftarrow> c_Set ctxUserEmail (KString (cEmail claims));
              _ \<leftarrow> c_Set ctxUserRole (KString (cRole claims));
              _ \<leftarrow> c_Set ctxUserPermissions (KStrings (cPermissions claims));
              next req
            }
      })"

definition RequireAuth :: "outside \<Rightarrow> string \<Rightarrow> 'd middleware" where
  "RequireAuth L secret = requirePurpose L secret PurposeSession"

definition RequireMFA :: "outside \<Rightarrow> string \<Rightarrow> 'd middleware" where
  "RequireMFA L secret = requirePurpose L secret PurposeMFA"

definition RequirePurpose :: "outside \<Rightarrow> string \<Rightarrow> string \<Rightarrow> 'd middleware" where
  "RequirePurpose L secret purpose = requirePurpose L secret purpose"

definition GetUserID :: "'d gin \<Rightarrow> uuid" where
  "GetUserID g = (case gKeys g ctxUserID of Some (KUUID u) \<Rightarrow> u | _ \<Rightarrow> 0)"

definition GetUserRole :: "'d gin \<Rightarrow> string" where
  "GetUserRole g = c_GetString g ctxUserRole"

definition GetUserPermissions :: "'d gin \<Rightarrow> string list" where
  "GetUserPermissions g = (case gKeys g ctxUserPermissions of Some (KStrings ps) \<Rightarrow> ps | _ \<Rightarrow> [])"

section \<open>require_role.go\<close>

definition RequireRole :: "string list \<Rightarrow> 'd middleware" where
  "RequireRole roles next req = do {
     g \<leftarrow> State_Monad.get;
     if GetUserRole g \<notin> set roles
     then abort_json 403 ''FORBIDDEN'' ''insufficient role for this action''
     else next req
   }"

definition RequirePermission :: "string list \<Rightarrow> 'd middleware" where
  "RequirePermission perms next req = do {
     g \<leftarrow> State_Monad.get;
     let permSet = set (GetUserPermissions g);
     if ''*'' \<in> permSet then next req
     else
       (case find (\<lambda>required. required \<notin> permSet) perms of
          Some required \<Rightarrow> abort_json 403 ''FORBIDDEN'' (''missing required permission: '' @ required)
        | None \<Rightarrow> next req)
   }"

section \<open>rate_limit.go\<close>

definition RateLimit :: "outside \<Rightarrow> string \<Rightarrow> int64 \<Rightarrow> int64 \<Rightarrow> 'd middleware" where
  "RateLimit L namespace limit window next req =
     (let namespace = (if namespace = '''' then ''default'' else namespace);
          key = ''rate:'' @ namespace @ '':'' @ gqClientIP req
      in do {
        (remaining, allowed, err) \<leftarrow> on_world (checkRateLimit L key limit window);
        if err \<noteq> None then next req
        else do {
          _ \<leftarrow> c_Header ''X-RateLimit-Limit'' (Itoa (sint limit));
          _ \<leftarrow> c_Header ''X-RateLimit-Remaining'' (Itoa (sint remaining));
          if \<not> allowed
          then abort_json 429 ''TOO_MANY_REQUESTS'' (''rate limit exceeded '' @ em_dash @ '' please slow down'')
          else next req
        }
      })"

section \<open>audit.go\<close>

definition isWriteMethod :: "string \<Rightarrow> bool" where
  "isWriteMethod m \<longleftrightarrow> m \<in> {''POST'', ''PUT'', ''PATCH'', ''DELETE''}"

text \<open>\<open>time.Since\<close> saturates, and \<open>Milliseconds\<close> rounds towards zero.\<close>

definition time_Sub :: "time \<Rightarrow> time \<Rightarrow> int" where
  "time_Sub t u = max (- (2 ^ 63)) (min (2 ^ 63 - 1) (t - u))"

definition Milliseconds :: "int \<Rightarrow> int" where
  "Milliseconds d = (if d < 0 then - ((- d) div 1000000) else d div 1000000)"

definition Audit :: "outside \<Rightarrow> 'd IAuditRepository \<Rightarrow> string \<Rightarrow> string \<Rightarrow> 'd middleware" where
  "Audit L repo action resource next req = do {
     start \<leftarrow> on_world (time_Now L);
     f \<leftarrow> next req;
     case f of
       Panicked m \<Rightarrow> ret (Panicked m)
     | Returned \<Rightarrow> do {
         g \<leftarrow> State_Monad.get;
         if \<not> isWriteMethod (gqMethod req) \<or> 500 \<le> gStatus g then ret Returned
         else do {
           let resourceID = gqParam req ''id'';
           now \<leftarrow> on_world (time_Now L);
           let meta = JObject
             [(''latency_ms'', JInt (Milliseconds (time_Sub now start))),
              (''method'', JString (gqMethod req)),
              (''path'', JString (gqFullPath req)),
              (''request_id'', JString (c_GetString g ''request_id'')),
              (''status'', JInt (int (gStatus g)))];
           let uid = GetUserID g;
           e \<leftarrow> on_world (audit_Create repo
             \<lparr>caUserID = (if UUID_String (jwt L) uid \<noteq> ''00000000-0000-0000-0000-000000000000''
                          then Some uid else None),
              caAction = action, caResource = resource,
              caResourceID = (if resourceID \<noteq> '''' then Some resourceID else None),
              caIPAddress = gqClientIP req, caUserAgent = gqUserAgent req, caMetadata = meta\<rparr>);
           case e of
             None \<Rightarrow> ret Returned
           | Some _ \<Rightarrow> do {
               _ \<leftarrow> modify_gin (\<lambda>g. g\<lparr>gLog := gLog g @ [Log_audit_failed action resource]\<rparr>);
               ret Returned
             }
         }
       }
   }"

section \<open>recovery.go, request_id.go, request_logger.go\<close>

definition RequestIDKey :: string where "RequestIDKey = ''request_id''"

definition Recovery :: "'d middleware" where
  "Recovery next req = do {
     f \<leftarrow> next req;
     case f of
       Returned \<Rightarrow> ret Returned
     | Panicked err \<Rightarrow> do {
         _ \<leftarrow> modify_gin (\<lambda>g. g\<lparr>gLog := gLog g @
                [Log_panic err (gqPath req) (gqMethod req) (c_GetString g RequestIDKey)]\<rparr>);
         abort_json 500 ''INTERNAL_ERROR'' ''internal server error''
       }
   }"

definition RequestID :: "outside \<Rightarrow> 'd middleware" where
  "RequestID L next req = do {
     given \<leftarrow> ret (gqHeader req ''X-Request-ID'');
     rid \<leftarrow> (if given = '''' then do { n \<leftarrow> on_world tick; ret (UUID_String (jwt L) (uuid_at L n)) }
           else ret given);
     _ \<leftarrow> c_Set RequestIDKey (KString rid);
     _ \<leftarrow> c_Header ''X-Request-ID'' rid;
     next req
   }"

definition RequestLogger :: "outside \<Rightarrow> 'd middleware" where
  "RequestLogger L next req = do {
     start \<leftarrow> on_world (time_Now L);
     let path = (if gqRawQuery req \<noteq> '''' then gqPath req @ ''?'' @ gqRawQuery req else gqPath req);
     f \<leftarrow> next req;
     case f of
       Panicked m \<Rightarrow> ret (Panicked m)
     | Returned \<Rightarrow> do {
         now \<leftarrow> on_world (time_Now L);
         _ \<leftarrow> modify_gin (\<lambda>g. g\<lparr>gLog := gLog g @
                [Log_request (gqMethod req) path (gStatus g) (time_Sub now start) (gqClientIP req)
                   (c_GetString g RequestIDKey) (gqUserAgent req)]\<rparr>);
         ret Returned
       }
   }"

section \<open>Runs\<close>

text \<open>The claims a request is let in with, and the context its handlers then see.\<close>

definition bearer_claims :: "outside \<Rightarrow> string \<Rightarrow> string \<Rightarrow> time \<Rightarrow> gin_request \<Rightarrow> Claims option" where
  "bearer_claims L secret expected now req =
     (if extractBearer req = '''' then None
      else case Parse (jwt L) now (extractBearer req) secret of
             Inl _ \<Rightarrow> None
           | Inr c \<Rightarrow> if cPurpose c \<noteq> expected \<or> expected = PurposeSession \<and> cRole c = '''' then None else Some c)"

definition with_claims :: "Claims \<Rightarrow> 'd gin \<Rightarrow> 'd gin" where
  "with_claims c g = g\<lparr>gKeys := (gKeys g)(ctxUserID \<mapsto> KUUID (cUserID c), ctxUserEmail \<mapsto> KString (cEmail c),
     ctxUserRole \<mapsto> KString (cRole c), ctxUserPermissions \<mapsto> KStrings (cPermissions c))\<rparr>"

definition tick_gin :: "'d gin \<Rightarrow> 'd gin" where
  "tick_gin g = g\<lparr>gWorld := (gWorld g)\<lparr>ticks := Suc (ticks (gWorld g))\<rparr>\<rparr>"

lemma tick_gin_sel [simp]:
  "gKeys (tick_gin g) = gKeys g" "gHeaders (tick_gin g) = gHeaders g" "gStatus (tick_gin g) = gStatus g"
  "gBodies (tick_gin g) = gBodies g" "gLog (tick_gin g) = gLog g"
  "store (gWorld (tick_gin g)) = store (gWorld g)" "ticks (gWorld (tick_gin g)) = Suc (ticks (gWorld g))"
  "redis_log (gWorld (tick_gin g)) = redis_log (gWorld g)" "outbox (gWorld (tick_gin g)) = outbox (gWorld g)"
  by (simp_all add: tick_gin_def)

lemma tick_gin_fold [simp]:
  "g\<lparr>gWorld := (gWorld g)\<lparr>ticks := Suc (ticks (gWorld g))\<rparr>\<rparr> = tick_gin g"
  "(tick_gin g)\<lparr>gWorld := w\<rparr> = g\<lparr>gWorld := w\<rparr>"
  by (simp_all add: tick_gin_def)

lemma with_claims_sel [simp]:
  "gWorld (with_claims c g) = gWorld g" "gBodies (with_claims c g) = gBodies g"
  "gStatus (with_claims c g) = gStatus g" "gHeaders (with_claims c g) = gHeaders g"
  "GetUserID (with_claims c g) = cUserID c" "GetUserRole (with_claims c g) = cRole c"
  "GetUserPermissions (with_claims c g) = cPermissions c"
  by (simp_all add: with_claims_def GetUserID_def GetUserRole_def GetUserPermissions_def c_GetString_def ctx_defs)

lemma run_auth_Parse [simp]:
  "run_state (auth_Parse L tok secret) w =
     (Parse (jwt L) (now_at L (ticks w)) tok secret, w\<lparr>ticks := Suc (ticks w)\<rparr>)"
  by (simp add: auth_Parse_def)

lemma requirePurpose_run:
  "run_state (requirePurpose L secret p next req) g =
     (if extractBearer req = ''''
      then (Returned, write_response 401 [abort_body ''UNAUTHORIZED'' ''missing authorization token''] g)
      else case Parse (jwt L) (now_at L (ticks (gWorld g))) (extractBearer req) secret of
        Inl _ \<Rightarrow> (Returned, write_response 401 [abort_body ''UNAUTHORIZED'' ''invalid or expired token''] (tick_gin g))
      | Inr c \<Rightarrow>
          if cPurpose c \<noteq> p
          then (Returned, write_response 401 [abort_body ''UNAUTHORIZED'' ''token not valid for this endpoint''] (tick_gin g))
          else if p = PurposeSession \<and> cRole c = ''''
          then (Returned, write_response 401 [abort_body ''UNAUTHORIZED'' ''invalid token claims''] (tick_gin g))
          else run_state (next req) (with_claims c (tick_gin g)))"
  by (simp add: requirePurpose_def Let_def with_claims_def split: sum.split)

lemma requirePurpose_pass:
  assumes "bearer_claims L secret p (now_at L (ticks (gWorld g))) req = Some c"
  shows "run_state (requirePurpose L secret p next req) g = run_state (next req) (with_claims c (tick_gin g))"
  using assms unfolding requirePurpose_run by (auto simp: bearer_claims_def split: if_splits sum.splits)

lemma requirePurpose_stop:
  assumes "bearer_claims L secret p (now_at L (ticks (gWorld g))) req = None"
  shows "\<exists>message g'. (g' = g \<or> g' = tick_gin g) \<and>
    run_state (requirePurpose L secret p next req) g =
       (Returned, write_response 401 [abort_body ''UNAUTHORIZED'' message] g')"
  using assms unfolding requirePurpose_run by (auto simp: bearer_claims_def split: if_splits sum.splits)

lemma RequireRole_run:
  "run_state (RequireRole roles next req) g =
     (if GetUserRole g \<in> set roles then run_state (next req) g
      else (Returned, write_response 403 [abort_body ''FORBIDDEN'' ''insufficient role for this action''] g))"
  by (simp add: RequireRole_def)

lemma Audit_run:
  assumes "run_state (next req) (tick_gin g) = (f, g1)"
  obtains (quiet) m where "f = Panicked m \<or> \<not> isWriteMethod (gqMethod req) \<or> 500 \<le> gStatus g1"
      "run_state (Audit L repo action resource next req) g = (f, g1)"
  | (audited) p e w where "f = Returned" "isWriteMethod (gqMethod req)" "gStatus g1 < 500"
      "run_state (audit_Create repo p) (gWorld (tick_gin g1)) = (e, w)"
      "caAction p = action" "caResource p = resource" "caIPAddress p = gqClientIP req"
      "caUserAgent p = gqUserAgent req"
      "caUserID p = (if UUID_String (jwt L) (GetUserID g1) \<noteq> ''00000000-0000-0000-0000-000000000000''
         then Some (GetUserID g1) else None)"
      "caResourceID p = (if gqParam req ''id'' \<noteq> '''' then Some (gqParam req ''id'') else None)"
      "run_state (Audit L repo action resource next req) g =
         (Returned, g1\<lparr>gWorld := w, gLog := gLog g1 @ (if e = None then [] else [Log_audit_failed action resource])\<rparr>)"
proof (cases "f = Returned \<and> isWriteMethod (gqMethod req) \<and> gStatus g1 < 500")
  case False
  then have "run_state (Audit L repo action resource next req) g = (f, g1)"
    using assms by (cases f) (auto simp: Audit_def)
  moreover have "\<exists>m. f = Panicked m \<or> \<not> isWriteMethod (gqMethod req) \<or> 500 \<le> gStatus g1"
    using False by (cases f) auto
  ultimately show thesis using quiet by blast
next
  case True
  define meta where "meta = JObject
             [(''latency_ms'', JInt (Milliseconds (time_Sub (now_at L (ticks (gWorld g1))) (now_at L (ticks (gWorld g)))))),
              (''method'', JString (gqMethod req)),
              (''path'', JString (gqFullPath req)),
              (''request_id'', JString (c_GetString g1 ''request_id'')),
              (''status'', JInt (int (gStatus g1)))]"
  define p where "p = \<lparr>caUserID = (if UUID_String (jwt L) (GetUserID g1) \<noteq> ''00000000-0000-0000-0000-000000000000''
                          then Some (GetUserID g1) else None),
              caAction = action, caResource = resource,
              caResourceID = (if gqParam req ''id'' \<noteq> '''' then Some (gqParam req ''id'') else None),
              caIPAddress = gqClientIP req, caUserAgent = gqUserAgent req, caMetadata = meta\<rparr>"
  obtain e w where create: "run_state (audit_Create repo p) (gWorld (tick_gin g1)) = (e, w)" by fastforce
  have "run_state (Audit L repo action resource next req) g =
      (Returned, g1\<lparr>gWorld := w, gLog := gLog g1 @ (if e = None then [] else [Log_audit_failed action resource])\<rparr>)"
    using True assms create
    by (cases e) (simp_all add: Audit_def Let_def meta_def [symmetric] p_def [symmetric])
  moreover have "f = Returned" "isWriteMethod (gqMethod req)" "gStatus g1 < 500" using True by auto
  ultimately show thesis
    by (intro audited [OF _ _ _ create]) (simp_all only: p_def CreateAuditParams.simps)
qed

section \<open>Properties\<close>

text \<open>C15: a token that was issued for one purpose opens only the routes that require exactly that purpose, and
  those only before it expires: there the rest of the chain runs with the identity it was issued for and
  without a role or permissions; everywhere else, the routes that require a session included, the answer is
  401 and nothing else of the chain runs.\<close>

theorem purpose_separation:
  assumes "jwt_laws (jwt L)" and "IssuePurposeToken (jwt L) t secret u email q ttl = Inr tok"
    and "extractBearer req = tok" and "tok \<noteq> ''''"
  shows "if p = q \<and> q \<noteq> PurposeSession \<and> now_at L (ticks (gWorld g)) < NewNumericDate (jwt L) (time_Add t ttl)
    then \<exists>c. cUserID c = u \<and> cEmail c = email \<and> cRole c = '''' \<and> cPermissions c = [] \<and>
      run_state (requirePurpose L secret p next req) g = run_state (next req) (with_claims c (tick_gin g))
    else \<exists>message. run_state (requirePurpose L secret p next req) g =
      (Returned, write_response 401 [abort_body ''UNAUTHORIZED'' message] (tick_gin g))"
proof -
  have parse: "if now_at L (ticks (gWorld g)) < NewNumericDate (jwt L) (time_Add t ttl)
    then \<exists>c. Parse (jwt L) (now_at L (ticks (gWorld g))) tok secret = Inr c \<and> cUserID c = u \<and> cEmail c = email \<and>
             cPurpose c = q \<and> cRole c = '''' \<and> cPermissions c = []
    else \<exists>err. Parse (jwt L) (now_at L (ticks (gWorld g))) tok secret = Inl err"
    using Parse_Sign [OF assms(1) assms(2) [unfolded IssuePurposeToken_def], of "time_Add t ttl" u] by simp
  show ?thesis
    using assms(3,4) parse unfolding requirePurpose_run
    by (auto split: if_splits)
qed

text \<open>C39: for a session that carries the permissions of the user's role, \<open>RequirePermission\<close> lets a request
  through exactly when the user holds every permission it lists, as \<open>HasPermission\<close> decides it; otherwise
  it answers 403 and names the first one that is missing.\<close>

theorem RequirePermission_HasPermission:
  assumes "GetUserPermissions g = RolePermissions (uRole u)"
  shows "run_state (RequirePermission perms next req) g =
    (case filter (\<lambda>p. \<not> HasPermission u p) perms of
       [] \<Rightarrow> run_state (next req) g
     | p # _ \<Rightarrow> (Returned, write_response 403
           [abort_body ''FORBIDDEN'' (''missing required permission: '' @ p)] g))"
proof -
  have has: "HasPermission u p \<longleftrightarrow> ''*'' \<in> set (RolePermissions (uRole u)) \<or> p \<in> set (RolePermissions (uRole u))" for p
    by (auto simp: HasPermission_def list_ex_iff)
  have find: "find P xs = (case filter P xs of [] \<Rightarrow> None | x # _ \<Rightarrow> Some x)" for P and xs :: "string list"
    by (induction xs) auto
  show ?thesis
    using assms by (auto simp: RequirePermission_def has find Let_def split: list.split)
qed

definition manager_gin :: "DB gin" where
  "manager_gin = with_claims
     \<lparr>cSubject = ''7'', cIssuedAt = None, cExpiresAt = None, cUserID = 7, cEmail = ''m@x'', cRole = RoleManager,
      cPermissions = RolePermissions RoleManager, cPurpose = PurposeSession\<rparr> (new_gin example_world)"

theorem RequirePermission_HasPermission_witness:
  "run_state (RequirePermission [''users:read'', ''users:write''] (\<lambda>_. ret Returned)
       (example_request ''PATCH'' ''/x'' '''')) manager_gin =
     (Returned, write_response 403 [abort_body ''FORBIDDEN'' ''missing required permission: users:write''] manager_gin)"
  using RequirePermission_HasPermission
    [where u = "\<lparr>uID = 1, uEmail = [], uName = [], uPasswordHash = [], uRole = RoleManager,
       uTOTPSecret = None, uTOTPEnabled = False, uFailedAttempts = 0, uLockedUntil = None,
       uIsActive = True, uCreatedAt = 0, uUpdatedAt = 0\<rparr>" and perms = "[''users:read'', ''users:write'']"
     and g = manager_gin]
  by (simp add: HasPermission_def manager_gin_def)

text \<open>C32: the audit middleware never changes what the rest of the chain answered or left in the context. When the
  rest panicked, the method only reads or the status is a server error it does nothing more; otherwise it
  appends exactly one entry to the audit log, which names the action, the resource, the client and the
  authenticated user, or its write has failed, which is only logged. The write fails only by a fault of the
  database, an authenticated user that is not stored, or an identifier that is in use.\<close>

theorem Audit_appends:
  assumes "run_state (next req) (tick_gin g) = (f, g1)" and "single_node (store (gWorld g1))"
    and "run_state (Audit L (NewAuditRepository L) action resource next req) g = (f', g2)"
  shows "f' = f \<and> gStatus g2 = gStatus g1 \<and> gBodies g2 = gBodies g1 \<and> gHeaders g2 = gHeaders g1 \<and> gKeys g2 = gKeys g1 \<and>
    (if f = Returned \<and> isWriteMethod (gqMethod req) \<and> gStatus g1 < 500
     then (\<exists>a. audit_view (store (gWorld g2)) = audit_view (store (gWorld g1)) @ [a] \<and>
         alAction a = action \<and> alResource a = resource \<and> alIPAddress a = gqClientIP req \<and>
         alUserAgent a = gqUserAgent req \<and>
         alResourceID a = (if gqParam req ''id'' \<noteq> '''' then Some (gqParam req ''id'') else None) \<and>
         alUserID a = (if UUID_String (jwt L) (GetUserID g1) = ''00000000-0000-0000-0000-000000000000''
           then None else Some (GetUserID g1))) \<or>
       audit_view (store (gWorld g2)) = audit_view (store (gWorld g1)) \<and>
       gLog g2 = gLog g1 @ [Log_audit_failed action resource] \<and>
       (sql_fault L (Suc (ticks (gWorld g1))) \<noteq> Healthy \<or>
        UUID_String (jwt L) (GetUserID g1) \<noteq> ''00000000-0000-0000-0000-000000000000'' \<and>
          users_view (store (gWorld g1)) (GetUserID g1) = None \<or>
        uuid_at L (Suc (ticks (gWorld g1))) \<in> alID ` set (audit_view (store (gWorld g1))))
     else g2 = g1)"
  using assms(1)
proof (cases rule: Audit_run [where L = L and repo = "NewAuditRepository L" and action = action and resource = resource])
  case (quiet m)
  with assms(3) show ?thesis by auto
next
  case (audited p e w)
  have g2: "f' = Returned" "g2 = g1\<lparr>gWorld := w, gLog := gLog g1 @ (if e = None then [] else [Log_audit_failed action resource])\<rparr>"
    using audited(11) assms(3) by simp_all
  have good: "single_node (store (gWorld (tick_gin g1)))" using assms(2) by simp
  have create: "run_state (pgx_audit_Create L p) (gWorld (tick_gin g1)) = (e, w)" using audited(4) by simp
  consider a where "audit_entry p a" "audit_view (store w) = audit_view (store (gWorld g1)) @ [a]"
    | "e \<noteq> None" "audit_view (store w) = audit_view (store (gWorld g1))"
    using pgx_audit_Create_run [OF good create] by auto
  then show ?thesis
  proof cases
    case 1
    then have "alAction a = action" "alResource a = resource" "alIPAddress a = gqClientIP req" "alUserAgent a = gqUserAgent req"
      "alResourceID a = (if gqParam req ''id'' \<noteq> '''' then Some (gqParam req ''id'') else None)"
      "alUserID a = (if UUID_String (jwt L) (GetUserID g1) = ''00000000-0000-0000-0000-000000000000''
           then None else Some (GetUserID g1))"
      using audited(5-10) by (simp_all add: audit_entry_def)
    with 1(2) audited(1-3) g2 show ?thesis by auto
  next
    case 2
    with pgx_audit_Create_total [OF good _ _ _ create] audited(9)
    have "sql_fault L (Suc (ticks (gWorld g1))) \<noteq> Healthy \<or>
        UUID_String (jwt L) (GetUserID g1) \<noteq> ''00000000-0000-0000-0000-000000000000'' \<and>
          users_view (store (gWorld g1)) (GetUserID g1) = None \<or>
        uuid_at L (Suc (ticks (gWorld g1))) \<in> alID ` set (audit_view (store (gWorld g1)))"
      by (cases "users_view (store (gWorld g1)) (GetUserID g1)") (auto split: if_splits)
    with 2 audited(1-3) g2 show ?thesis by auto
  qed
qed

lemma extractBearer_example:
  assumes "list_all is_digit tok"
  shows "extractBearer (example_request m path tok) = tok"
proof -
  have "TrimSpace tok = tok" by (rule trimmed_TrimSpace [OF digits_trimmed [OF assms]])
  moreover have "EqualFold ''Bearer'' ''bearer''" by code_simp
  ultimately show ?thesis by (simp add: extractBearer_def example_request_def)
qed

lemma example_Sign:
  "Sign example_jwt secret c = Inr (spell secret c)" "list_all is_digit (spell secret c)" "spell secret c \<noteq> ''''"
  by (simp_all add: Sign_def example_jwt_def spell_def digits_dec_digits)

theorem purpose_separation_witness:
  "\<exists>tok message. IssuePurposeToken example_jwt 0 ''k'' 7 ''a@b'' PurposeInvite time_Hour = Inr tok \<and>
     run_state (requirePurpose example_outside ''k'' PurposeMFA (\<lambda>_. ret Returned)
       (example_request ''POST'' ''/auth/verify-totp'' tok)) (new_gin example_world) =
     (Returned, write_response 401 [abort_body ''UNAUTHORIZED'' message] (tick_gin (new_gin example_world)))"
proof -
  obtain tok where tok: "IssuePurposeToken example_jwt 0 ''k'' 7 ''a@b'' PurposeInvite time_Hour = Inr tok"
      "list_all is_digit tok" "tok \<noteq> ''''"
    unfolding IssuePurposeToken_def using example_Sign by blast
  have "PurposeMFA \<noteq> PurposeInvite" by (simp add: purpose_defs)
  with purpose_separation [where L = example_outside and q = PurposeInvite and secret = "''k''" and tok = tok
      and p = PurposeMFA and req = "example_request ''POST'' ''/auth/verify-totp'' tok"
      and g = "new_gin example_world" and t = 0 and u = 7 and email = "''a@b''" and ttl = time_Hour]
    tok extractBearer_example [OF tok(2)]
  show ?thesis by auto
qed

theorem Audit_appends_witness:
  "\<exists>g2 a. run_state (Audit example_outside (NewAuditRepository example_outside) ''user.deactivate'' ''users''
       (\<lambda>_. ret Returned) (example_request ''DELETE'' ''/api/v1/users/:id'' ''''))
       ((new_gin example_world)\<lparr>gKeys := [ctxUserID \<mapsto> KUUID 2]\<rparr>) = (Returned, g2) \<and>
     audit_view (store (gWorld g2)) = audit_view (store example_world) @ [a] \<and>
     alAction a = ''user.deactivate'' \<and> alIPAddress a = ''10.0.0.1'' \<and> alUserID a = Some 2"
proof -
  let ?g = "(new_gin example_world)\<lparr>gKeys := [ctxUserID \<mapsto> KUUID 2]\<rparr>"
    and ?req = "example_request ''DELETE'' ''/api/v1/users/:id'' ''''"
  have user: "GetUserID (tick_gin ?g) = 2" by (simp add: GetUserID_def)
  have name: "UUID_String (jwt example_outside) 2 \<noteq> ''00000000-0000-0000-0000-000000000000''"
    by (simp add: example_jwt_def Itoa_def dec_digits.simps digit_char_def)
  have is_write: "isWriteMethod (gqMethod ?req)" and ip: "gqClientIP ?req = ''10.0.0.1''"
    by (simp_all add: isWriteMethod_def example_request_def)
  have empty: "audit_view (store example_world) = []" by (simp add: audit_view_def example_defs)
  obtain f g2 where run: "run_state (Audit example_outside (NewAuditRepository example_outside) ''user.deactivate'' ''users''
    (\<lambda>_. ret Returned) ?req) ?g = (f, g2)" by fastforce
  have rest: "run_state ((\<lambda>_. ret Returned) ?req) (tick_gin ?g) = (Returned, tick_gin ?g)" by simp
  have good: "single_node (store (gWorld (tick_gin ?g)))" by simp
  note A = Audit_appends [OF rest good run]
  from A have f: "f = Returned" by blast
  have status: "gStatus (tick_gin ?g) < 500" by simp
  from A obtain a where "audit_view (store (gWorld g2)) = audit_view (store (gWorld (tick_gin ?g))) @ [a]"
      "alAction a = ''user.deactivate''" "alIPAddress a = gqClientIP ?req"
      "alUserID a = (if UUID_String (jwt example_outside) (GetUserID (tick_gin ?g)) = ''00000000-0000-0000-0000-000000000000''
           then None else Some (GetUserID (tick_gin ?g)))"
    using is_write status user name empty by (auto split: if_splits)
  with run f user name ip show ?thesis by auto
qed

text \<open>C33: the rate limit of a named route fails open: when Redis does not acknowledge its \<open>INCR\<close>, whether or not it has taken it, the
  rest of the chain runs, without the rate headers. Otherwise, over a Redis that
  behaves as documented, both headers say what the fixed window says,
  and the rest of the chain runs exactly when the count of the window (below 2^62) is at most the limit; above
  it the answer is 429. What becomes of the \<open>EXPIRE\<close> makes no difference to the answer.\<close>

theorem RateLimit_answers:
  fixes g :: "'d gin"
  assumes "redis_documented L" and "0 \<le> sint limit" and "ns \<noteq> ''''"
    and "n = fw_count (now_at L (ticks (gWorld g))) (fw_state (gWorld g) (''rate:'' @ ns @ '':'' @ gqClientIP req))"
    and "n < 2 ^ 62"
  shows "(redis_fault L (ticks (gWorld g)) \<noteq> Healthy \<longrightarrow>
      (\<exists>g1. gBodies g1 = gBodies g \<and> gKeys g1 = gKeys g \<and> store (gWorld g1) = store (gWorld g) \<and>
        gHeaders g1 = gHeaders g \<and> gStatus g1 = gStatus g \<and>
        run_state (RateLimit L ns limit window next req) g = run_state (next req) g1)) \<and>
    (redis_fault L (ticks (gWorld g)) = Healthy \<longrightarrow>
      (\<exists>g1. gBodies g1 = gBodies g \<and> gKeys g1 = gKeys g \<and> store (gWorld g1) = store (gWorld g) \<and>
        gHeaders g1 = (gHeaders g)(''X-RateLimit-Limit'' \<mapsto> Itoa (sint limit),
          ''X-RateLimit-Remaining'' \<mapsto> Itoa (max 0 (sint limit - int n))) \<and>
        run_state (RateLimit L ns limit window next req) g =
          (if int n \<le> sint limit then run_state (next req) g1
           else (Returned, write_response 429 [abort_body ''TOO_MANY_REQUESTS''
             (''rate limit exceeded '' @ em_dash @ '' please slow down'')] g1))))"
proof (intro conjI impI)
  let ?key = "''rate:'' @ ns @ '':'' @ gqClientIP req"
  {
    assume "redis_fault L (ticks (gWorld g)) \<noteq> Healthy"
    then obtain r w' where run: "run_state (checkRateLimit L ?key limit window) (gWorld g) = (r, w')"
        "snd (snd r) \<noteq> None" "store w' = store (gWorld g)"
      by (cases "redis_fault L (ticks (gWorld g))") (auto simp: checkRateLimit_def rdb_Incr_def Let_def)
    then show "\<exists>g1. gBodies g1 = gBodies g \<and> gKeys g1 = gKeys g \<and> store (gWorld g1) = store (gWorld g) \<and>
        gHeaders g1 = gHeaders g \<and> gStatus g1 = gStatus g \<and>
        run_state (RateLimit L ns limit window next req) g = run_state (next req) g1"
      using assms(3) by (intro exI [of _ "g\<lparr>gWorld := w'\<rparr>"]) (auto simp: RateLimit_def Let_def split: prod.splits)
  }
  assume up: "redis_fault L (ticks (gWorld g)) = Healthy"
  obtain w' where run: "run_state (checkRateLimit L ?key limit window) (gWorld g) = (fw_answer limit n, w')"
    and w': "store w' = store (gWorld g)"
    using checkRateLimit_answer [OF assms(1) up assms(2), of ?key window] assms(4,5) by auto
  define g1 where "g1 = g\<lparr>gWorld := w', gHeaders := (gHeaders g)(''X-RateLimit-Limit'' \<mapsto> Itoa (sint limit),
    ''X-RateLimit-Remaining'' \<mapsto> Itoa (max 0 (sint limit - int n)))\<rparr>"
  have remaining: "sint (word_of_int (max 0 (sint limit - int n)) :: int64) = max 0 (sint limit - int n)"
    by (rule sint_int64) (use assms(2) sint_int64_bounds [of limit] in auto)
  have "run_state (RateLimit L ns limit window next req) g =
          (if int n \<le> sint limit then run_state (next req) g1
           else (Returned, write_response 429 [abort_body ''TOO_MANY_REQUESTS''
             (''rate limit exceeded '' @ em_dash @ '' please slow down'')] g1))"
    using run assms(3) remaining by (simp add: RateLimit_def Let_def fw_answer_def g1_def)
  then show "\<exists>g1. gBodies g1 = gBodies g \<and> gKeys g1 = gKeys g \<and> store (gWorld g1) = store (gWorld g) \<and>
        gHeaders g1 = (gHeaders g)(''X-RateLimit-Limit'' \<mapsto> Itoa (sint limit),
          ''X-RateLimit-Remaining'' \<mapsto> Itoa (max 0 (sint limit - int n))) \<and>
        run_state (RateLimit L ns limit window next req) g =
          (if int n \<le> sint limit then run_state (next req) g1
           else (Returned, write_response 429 [abort_body ''TOO_MANY_REQUESTS''
             (''rate limit exceeded '' @ em_dash @ '' please slow down'')] g1))"
    using w' by (intro exI [of _ g1]) (simp add: g1_def)
qed

theorem RateLimit_answers_witness:
  "\<exists>g1. run_state (RateLimit redis_outside ''auth:login'' 30 time_Minute (\<lambda>_. ret Returned)
       (example_request ''POST'' ''/auth/login'' '''')) (new_gin example_world) = (Returned, g1) \<and>
     gHeaders g1 ''X-RateLimit-Remaining'' = Some ''29''"
proof -
  have "\<exists>g1. gHeaders g1 ''X-RateLimit-Remaining'' = Some (Itoa (max 0 (sint (30 :: int64) - int 1))) \<and>
      run_state (RateLimit redis_outside ''auth:login'' 30 time_Minute (\<lambda>_. ret Returned)
       (example_request ''POST'' ''/auth/login'' '''')) (new_gin example_world) = run_state (ret Returned) g1"
    using RateLimit_answers [where L = redis_outside and g = "new_gin example_world" and window = time_Minute
      and limit = 30 and ns = "''auth:login''" and n = 1 and req = "example_request ''POST'' ''/auth/login'' ''''"
      and ?next = "\<lambda>_. ret Returned"]
    by (auto simp: fw_count_def fw_live_def time_Minute_def)
  moreover have "Itoa 29 = ''29''" by code_simp
  ultimately show ?thesis by auto
qed

end
