(* ===== verification/Handlers.thy ===== *)
theory Handlers
  imports Middleware UserService
begin

text \<open>
  \<open>internal/api/handlers\<close>: what each endpoint reads of the request, which service call it makes, and
  the response it writes. Decoding a JSON body into a struct, the email check of the validator, the UUID
  parser and the rendering of a stored instant in the process's time zone are fields of \<open>web\<close>; the
  \<open>binding\<close> tags of the request structs are written out.
\<close>

section \<open>Request bodies\<close>

record loginRequest =
  lqEmail :: string
  lqPassword :: string

record verifyTOTPRequest =
  vtMFAToken :: string
  vtCode :: string

record confirmTOTPRequest =
  ctSecret :: string
  ctCode :: string

record forgotPasswordRequest =
  fpEmail :: string

record verifyResetEmailRequest =
  vrEmail :: string
  vrOTP :: string

record completePasswordResetRequest =
  cqNewPassword :: string
  cqTOTPCode :: string

record acceptInviteRequest =
  aqInviteToken :: string
  aqName :: string
  aqPassword :: string

record updateUserRequest =
  uqName :: "string option"
  uqRole :: "UserRole option"

record inviteRequest =
  iqEmail :: string
  iqName :: string
  iqRole :: UserRole

record web =
  decode_login :: "string \<Rightarrow> string + loginRequest"
  decode_verifyTOTP :: "string \<Rightarrow> string + verifyTOTPRequest"
  decode_confirmTOTP :: "string \<Rightarrow> string + confirmTOTPRequest"
  decode_forgotPassword :: "string \<Rightarrow> string + forgotPasswordRequest"
  decode_verifyResetEmail :: "string \<Rightarrow> string + verifyResetEmailRequest"
  decode_completePasswordReset :: "string \<Rightarrow> string + completePasswordResetRequest"
  decode_acceptInvite :: "string \<Rightarrow> string + acceptInviteRequest"
  decode_updateUser :: "string \<Rightarrow> string + updateUserRequest"
  decode_invite :: "string \<Rightarrow> string + inviteRequest"
  is_email :: "string \<Rightarrow> bool"
  validation_error :: "string \<Rightarrow> string"
  uuid_Parse :: "string \<Rightarrow> uuid option"
  format_time :: "time \<Rightarrow> string"

text \<open>\<open>min\<close> counts the runes of a string, which in valid UTF-8 are its bytes but the continuation bytes.\<close>

definition RuneCount :: "string \<Rightarrow> nat" where
  "RuneCount s = length (filter (\<lambda>c. of_char c < (128 :: nat) \<or> 192 \<le> (of_char c :: nat)) s)"

definition ShouldBindJSON :: "web \<Rightarrow> (string \<Rightarrow> string + 'r) \<Rightarrow> ('r \<Rightarrow> bool) \<Rightarrow> gin_request \<Rightarrow> string + 'r" where
  "ShouldBindJSON W decode valid req =
     (case decode (gqBody req) of
        Inl err \<Rightarrow> Inl err
      | Inr r \<Rightarrow> if valid r then Inr r else Inl (validation_error W (gqBody req)))"

definition bind_login :: "web \<Rightarrow> gin_request \<Rightarrow> string + loginRequest" where
  "bind_login W = ShouldBindJSON W (decode_login W)
     (\<lambda>r. lqEmail r \<noteq> '''' \<and> is_email W (lqEmail r) \<and> lqPassword r \<noteq> '''')"

definition bind_verifyTOTP :: "web \<Rightarrow> gin_request \<Rightarrow> string + verifyTOTPRequest" where
  "bind_verifyTOTP W = ShouldBindJSON W (decode_verifyTOTP W) (\<lambda>r. vtMFAToken r \<noteq> '''' \<and> vtCode r \<noteq> '''')"

definition bind_confirmTOTP :: "web \<Rightarrow> gin_request \<Rightarrow> string + confirmTOTPRequest" where
  "bind_confirmTOTP W = ShouldBindJSON W (decode_confirmTOTP W) (\<lambda>r. ctSecret r \<noteq> '''' \<and> ctCode r \<noteq> '''')"

definition bind_forgotPassword :: "web \<Rightarrow> gin_request \<Rightarrow> string + forgotPasswordRequest" where
  "bind_forgotPassword W = ShouldBindJSON W (decode_forgotPassword W)
     (\<lambda>r. fpEmail r \<noteq> '''' \<and> is_email W (fpEmail r))"

definition bind_verifyResetEmail :: "web \<Rightarrow> gin_request \<Rightarrow> string + verifyResetEmailRequest" where
  "bind_verifyResetEmail W = ShouldBindJSON W (decode_verifyResetEmail W)
     (\<lambda>r. vrEmail r \<noteq> '''' \<and> is_email W (vrEmail r) \<and> vrOTP r \<noteq> '''')"

definition bind_completePasswordReset :: "web \<Rightarrow> gin_request \<Rightarrow> string + completePasswordResetRequest" where
  "bind_completePasswordReset W = ShouldBindJSON W (decode_completePasswordReset W)
     (\<lambda>r. cqNewPassword r \<noteq> '''' \<and> 10 \<le> RuneCount (cqNewPassword r))"

definition bind_acceptInvite :: "web \<Rightarrow> gin_request \<Rightarrow> string + acceptInviteRequest" where
  "bind_acceptInvite W = ShouldBindJSON W (decode_acceptInvite W)
     (\<lambda>r. aqInviteToken r \<noteq> '''' \<and> aqName r \<noteq> '''' \<and> aqPassword r \<noteq> '''' \<and> 10 \<le> RuneCount (aqPassword r))"

definition bind_updateUser :: "web \<Rightarrow> gin_request \<Rightarrow> string + updateUserRequest" where
  "bind_updateUser W = ShouldBindJSON W (decode_updateUser W) (\<lambda>_. True)"

definition bind_invite :: "web \<Rightarrow> gin_request \<Rightarrow> string + inviteRequest" where
  "bind_invite W = ShouldBindJSON W (decode_invite W)
     (\<lambda>r. iqEmail r \<noteq> '''' \<and> is_email W (iqEmail r) \<and> iqName r \<noteq> '''' \<and> iqRole r \<noteq> '''')"

lemmas bind_defs =
  bind_login_def bind_verifyTOTP_def bind_confirmTOTP_def bind_forgotPassword_def bind_verifyResetEmail_def
  bind_completePasswordReset_def bind_acceptInvite_def bind_updateUser_def bind_invite_def

section \<open>auth_handler.go\<close>

text \<open>A \<open>gin.H\<close> map is written in the order of its keys.\<close>

definition AuthHandler_Login :: "outside \<Rightarrow> web \<Rightarrow> 'd AuthService \<Rightarrow> 'd handler" where
  "AuthHandler_Login L W s req =
     (case bind_login W req of
        Inl e \<Rightarrow> send (Fail (BadRequest e))
      | Inr r \<Rightarrow> do {
          res \<leftarrow> on_world (Auth_Login L s (lqEmail r) (lqPassword r));
          case res of
            Inl err \<Rightarrow> send (Fail err)
          | Inr result \<Rightarrow>
              if lrMFARequired result
              then send (Success (JObject [(''mfa_required'', JBool True),
                     (''mfa_token'', JString (lrMFAToken result))]))
              else if lrTOTPSetupRequired result
              then send (Success (JObject [(''setup_token'', JString (lrSetupToken result)),
                     (''totp_setup_required'', JBool True)]))
              else send (Success (JObject [(''access_token'', JString (lrAccessToken result)),
                     (''expires_at'', JTime (lrExpiresAt result))]))
        })"

definition session_body :: "LoginResult \<Rightarrow> response" where
  "session_body result =
     Success (JObject [(''access_token'', JString (lrAccessToken result)), (''expires_at'', JTime (lrExpiresAt result))])"

definition AuthHandler_VerifyTOTP :: "outside \<Rightarrow> web \<Rightarrow> 'd AuthService \<Rightarrow> 'd handler" where
  "AuthHandler_VerifyTOTP L W s req =
     (case bind_verifyTOTP W req of
        Inl e \<Rightarrow> send (Fail (BadRequest e))
      | Inr r \<Rightarrow> do {
          res \<leftarrow> on_world (Auth_VerifyTOTP L s (vtMFAToken r) (vtCode r));
          send (case res of Inl err \<Rightarrow> Fail err | Inr result \<Rightarrow> session_body result)
        })"

definition extractSetupToken :: "gin_request \<Rightarrow> string" where
  "extractSetupToken req =
     (let header = gqHeader req ''Authorization''
      in if 7 < length header \<and> take 7 header = ''Bearer '' then drop 7 header else '''')"

definition AuthHandler_SetupTOTP :: "outside \<Rightarrow> 'd AuthService \<Rightarrow> 'd handler" where
  "AuthHandler_SetupTOTP L s req =
     (let setupToken = extractSetupToken req
      in if setupToken = '''' then send (Fail (Sentinel ErrUnauthorized))
      else do {
        res \<leftarrow> on_world (Auth_SetupTOTP L s setupToken);
        send (case res of
                Inl err \<Rightarrow> Fail err
              | Inr (secret, otpauthURL) \<Rightarrow>
                  Success (JObject [(''otpauth_url'', JString otpauthURL), (''secret'', JString secret)]))
      })"

definition AuthHandler_ConfirmTOTP :: "outside \<Rightarrow> web \<Rightarrow> 'd AuthService \<Rightarrow> 'd handler" where
  "AuthHandler_ConfirmTOTP L W s req =
     (let setupToken = extractSetupToken req
      in if setupToken = '''' then send (Fail (Sentinel ErrUnauthorized))
      else case bind_confirmTOTP W req of
        Inl e \<Rightarrow> send (Fail (BadRequest e))
      | Inr r \<Rightarrow> do {
          res \<leftarrow> on_world (Auth_ConfirmTOTP L s setupToken (ctSecret r) (ctCode r));
          send (case res of Inl err \<Rightarrow> Fail err | Inr result \<Rightarrow> session_body result)
        })"

definition AuthHandler_ForgotPassword :: "outside \<Rightarrow> web \<Rightarrow> 'd AuthService \<Rightarrow> 'd handler" where
  "AuthHandler_ForgotPassword L W s req =
     (case bind_forgotPassword W req of
        Inl e \<Rightarrow> send (Fail (BadRequest e))
      | Inr r \<Rightarrow> do {
          _ \<leftarrow> on_world (Auth_ForgotPassword L s (fpEmail r));
          send (Success (JObject [(''message'',
            JString ''if that email is registered, you will receive a reset code shortly'')]))
        })"

definition AuthHandler_VerifyResetEmail :: "outside \<Rightarrow> web \<Rightarrow> 'd AuthService \<Rightarrow> 'd handler" where
  "AuthHandler_VerifyResetEmail L W s req =
     (case bind_verifyResetEmail W req of
        Inl e \<Rightarrow> send (Fail (BadRequest e))
      | Inr r \<Rightarrow> do {
          res \<leftarrow> on_world (Auth_VerifyResetEmail L s (vrEmail r) (vrOTP r));
          send (case res of
                  Inl err \<Rightarrow> Fail err
                | Inr resetToken \<Rightarrow> Success (JObject [(''reset_token'', JString resetToken)]))
        })"

definition AuthHandler_CompletePasswordReset :: "outside \<Rightarrow> web \<Rightarrow> 'd AuthService \<Rightarrow> 'd handler" where
  "AuthHandler_CompletePasswordReset L W s req =
     (let resetToken = extractSetupToken req
      in if resetToken = '''' then send (Fail (Sentinel ErrUnauthorized))
      else case bind_completePasswordReset W req of
        Inl e \<Rightarrow> send (Fail (BadRequest e))
      | Inr r \<Rightarrow> do {
          res \<leftarrow> on_world (Auth_CompletePasswordReset L s resetToken (cqNewPassword r) (cqTOTPCode r));
          send (case res of
                  Some err \<Rightarrow> Fail err
                | None \<Rightarrow> Success (JObject [(''message'',
                    JString (''password updated '' @ em_dash @ '' please log in with your new password''))]))
        })"

definition AuthHandler_AcceptInvite :: "outside \<Rightarrow> web \<Rightarrow> 'd AuthService \<Rightarrow> 'd handler" where
  "AuthHandler_AcceptInvite L W s req =
     (case bind_acceptInvite W req of
        Inl e \<Rightarrow> send (Fail (BadRequest e))
      | Inr r \<Rightarrow> do {
          res \<leftarrow> on_world (Auth_AcceptInvite L s (aqInviteToken r) (aqName r) (aqPassword r));
          case res of
            Inl err \<Rightarrow> send (Fail err)
          | Inr result \<Rightarrow> send (JSON 201 (JObject
              [(''data'', JObject [(''setup_token'', JString (lrSetupToken result)),
                                   (''totp_setup_required'', JBool (lrTOTPSetupRequired result))]),
               (''success'', JBool True)]))
        })"

definition Me_json :: "outside \<Rightarrow> User \<Rightarrow> json" where
  "Me_json L u = JObject
     [(''created_at'', JTime (uCreatedAt u)), (''email'', JString (uEmail u)),
      (''id'', JString (UUID_String (jwt L) (uID u))), (''is_active'', JBool (uIsActive u)),
      (''name'', JString (uName u)), (''role'', JString (uRole u)), (''totp_enabled'', JBool (uTOTPEnabled u))]"

definition AuthHandler_Me :: "outside \<Rightarrow> 'd AuthService \<Rightarrow> 'd handler" where
  "AuthHandler_Me L s req = do {
     g \<leftarrow> State_Monad.get;
     res \<leftarrow> on_world (Auth_Me s (GetUserID g));
     send (case res of Inl err \<Rightarrow> Fail err | Inr u \<Rightarrow> Success (Me_json L u))
   }"

section \<open>user_handler.go\<close>

record userResponse =
  urID :: string
  urEmail :: string
  urName :: string
  urRole :: string
  urTOTPEnabled :: bool
  urIsActive :: bool
  urCreatedAt :: string
  urUpdatedAt :: string

definition mapUser :: "outside \<Rightarrow> web \<Rightarrow> User \<Rightarrow> userResponse" where
  "mapUser L W u =
     \<lparr>urID = UUID_String (jwt L) (uID u), urEmail = uEmail u, urName = uName u, urRole = uRole u,
      urTOTPEnabled = uTOTPEnabled u, urIsActive = uIsActive u,
      urCreatedAt = format_time W (uCreatedAt u), urUpdatedAt = format_time W (uUpdatedAt u)\<rparr>"

definition mapUsers :: "outside \<Rightarrow> web \<Rightarrow> User list \<Rightarrow> userResponse list" where
  "mapUsers L W us = map (mapUser L W) us"

definition userResponse_json :: "userResponse \<Rightarrow> json" where
  "userResponse_json r = JObject
     [(''id'', JString (urID r)), (''email'', JString (urEmail r)), (''name'', JString (urName r)),
      (''role'', JString (urRole r)), (''totp_enabled'', JBool (urTOTPEnabled r)),
      (''is_active'', JBool (urIsActive r)), (''created_at'', JString (urCreatedAt r)),
      (''updated_at'', JString (urUpdatedAt r))]"

definition UserHandler_List :: "outside \<Rightarrow> web \<Rightarrow> 'd UserService \<Rightarrow> 'd handler" where
  "UserHandler_List L W s req =
     (let params = ParseParams (gqQuery req);
          role = (let r = c_Query req ''role'' in if r \<noteq> '''' then Some r else None);
          search = (let q = c_Query req ''search'' in if q \<noteq> '''' then Some q else None)
      in do {
        res \<leftarrow> on_world (Users_List s \<lparr>luRole = role, luSearch = search, luParams = params\<rparr>);
        case res of
          Inl err \<Rightarrow> send (Fail err)
        | Inr (us, n) \<Rightarrow>
            (case NewMeta params (word_of_int n) of
               None \<Rightarrow> ret (Panicked ''integer divide by zero'')
             | Some meta \<Rightarrow>
                 send (SuccessWithMeta (JArray (map userResponse_json (mapUsers L W us))) (Meta_json meta)))
      })"

definition UserHandler_Get :: "outside \<Rightarrow> web \<Rightarrow> 'd UserService \<Rightarrow> 'd handler" where
  "UserHandler_Get L W s req =
     (case uuid_Parse W (gqParam req ''id'') of
        None \<Rightarrow> send (Fail (BadRequest ''invalid user ID''))
      | Some i \<Rightarrow> do {
          res \<leftarrow> on_world (Users_Get s i);
          send (case res of Inl err \<Rightarrow> Fail err | Inr u \<Rightarrow> Success (userResponse_json (mapUser L W u)))
        })"

definition UserHandler_Update :: "outside \<Rightarrow> web \<Rightarrow> 'd UserService \<Rightarrow> 'd handler" where
  "UserHandler_Update L W s req =
     (case uuid_Parse W (gqParam req ''id'') of
        None \<Rightarrow> send (Fail (BadRequest ''invalid user ID''))
      | Some i \<Rightarrow>
          (case bind_updateUser W req of
             Inl e \<Rightarrow> send (Fail (BadRequest e))
           | Inr r \<Rightarrow> do {
               res \<leftarrow> on_world (Users_Update s i \<lparr>uuName = uqName r, uuRole = uqRole r\<rparr>);
               send (case res of Inl err \<Rightarrow> Fail err | Inr u \<Rightarrow> Success (userResponse_json (mapUser L W u)))
             }))"

definition UserHandler_Invite :: "outside \<Rightarrow> web \<Rightarrow> 'd UserService \<Rightarrow> 'd handler" where
  "UserHandler_Invite L W s req =
     (case bind_invite W req of
        Inl e \<Rightarrow> send (Fail (BadRequest e))
      | Inr r \<Rightarrow> do {
          g \<leftarrow> State_Monad.get;
          let invitedByID = GetUserID g;
          res \<leftarrow> on_world (Users_Invite L s (iqEmail r) (iqName r) (iqRole r) invitedByID);
          send (case res of
                  Inl err \<Rightarrow> Fail err
                | Inr token \<Rightarrow> Created (JObject [(''invite_token'', JString token),
                    (''message'', JString (''send this token to the user '' @ em_dash @
                       '' it expires after the configured TTL''))]))
        })"

definition UserHandler_Deactivate :: "web \<Rightarrow> 'd UserService \<Rightarrow> 'd handler" where
  "UserHandler_Deactivate W s req =
     (case uuid_Parse W (gqParam req ''id'') of
        None \<Rightarrow> send (Fail (BadRequest ''invalid user ID''))
      | Some i \<Rightarrow> do {
          res \<leftarrow> on_world (Users_Deactivate s i);
          send (case res of Some err \<Rightarrow> Fail err | None \<Rightarrow> NoContent)
        })"

lemmas auth_handler_defs =
  AuthHandler_Login_def AuthHandler_VerifyTOTP_def AuthHandler_SetupTOTP_def AuthHandler_ConfirmTOTP_def
  AuthHandler_ForgotPassword_def AuthHandler_VerifyResetEmail_def AuthHandler_CompletePasswordReset_def
  AuthHandler_AcceptInvite_def AuthHandler_Me_def

lemmas user_handler_defs =
  UserHandler_List_def UserHandler_Get_def UserHandler_Update_def UserHandler_Invite_def UserHandler_Deactivate_def

end
