(* ===== verification/Routes.thy ===== *)
theory Routes
  imports Handlers System
begin

text \<open>
  \<open>internal/api/routes/routes.go\<close>: the route table, as the chain that each method and pattern is
  registered with, behind the global middleware. Matching a path against the patterns is Gin's; a request
  comes with the pattern it matched (\<open>c.FullPath()\<close>).
\<close>

section \<open>The table\<close>

definition roleSuperAdmin :: string where "roleSuperAdmin = ''super_admin''"
definition roleAdmin :: string where "roleAdmin = ''admin''"
definition roleManager :: string where "roleManager = ''manager''"

lemmas route_role_defs = roleSuperAdmin_def roleAdmin_def roleManager_def

type_synonym 'd routes = "((string \<times> string) \<times> 'd handler) list"

definition setupAuthRoutes :: "outside \<Rightarrow> web \<Rightarrow> Config \<Rightarrow> 'd AuthService \<Rightarrow> 'd routes" where
  "setupAuthRoutes L W cfg s =
     [((''POST'', ''/auth/login''),
        chain [RateLimit L ''auth:login'' 30 time_Minute] (AuthHandler_Login L W s)),
      ((''POST'', ''/auth/forgot-password''),
        chain [RateLimit L ''auth:forgot-password'' 10 time_Minute] (AuthHandler_ForgotPassword L W s)),
      ((''POST'', ''/auth/verify-reset-email''),
        chain [RateLimit L ''auth:verify-reset-email'' 10 time_Minute] (AuthHandler_VerifyResetEmail L W s)),
      ((''POST'', ''/auth/accept-invite''),
        chain [RateLimit L ''auth:accept-invite'' 20 time_Minute] (AuthHandler_AcceptInvite L W s)),
      ((''POST'', ''/auth/verify-totp''),
        chain [RequireMFA L (AppSecret cfg)] (AuthHandler_VerifyTOTP L W s)),
      ((''POST'', ''/auth/totp/setup''),
        chain [RequirePurpose L (AppSecret cfg) PurposeTOTPSetup] (AuthHandler_SetupTOTP L s)),
      ((''POST'', ''/auth/totp/confirm''),
        chain [RequirePurpose L (AppSecret cfg) PurposeTOTPSetup] (AuthHandler_ConfirmTOTP L W s)),
      ((''POST'', ''/auth/complete-password-reset''),
        chain [RequirePurpose L (AppSecret cfg) PurposePasswordReset] (AuthHandler_CompletePasswordReset L W s)),
      ((''GET'', ''/auth/me''),
        chain [RequireAuth L (AppSecret cfg)] (AuthHandler_Me L s))]"

definition setupUserRoutes ::
    "outside \<Rightarrow> web \<Rightarrow> Config \<Rightarrow> 'd UserService \<Rightarrow> 'd IAuditRepository \<Rightarrow> 'd routes" where
  "setupUserRoutes L W cfg s auditRepo =
     [((''GET'', ''/api/v1/users''),
        chain [RequireAuth L (AppSecret cfg), RequireRole [roleAdmin, roleSuperAdmin],
               RateLimit L ''api:users:list'' 100 time_Minute] (UserHandler_List L W s)),
      ((''GET'', ''/api/v1/users/:id''),
        chain [RequireAuth L (AppSecret cfg), RequireRole [roleSuperAdmin, roleAdmin, roleManager]]
          (UserHandler_Get L W s)),
      ((''PATCH'', ''/api/v1/users/:id''),
        chain [RequireAuth L (AppSecret cfg), RequireRole [roleAdmin, roleSuperAdmin]]
          (UserHandler_Update L W s)),
      ((''POST'', ''/api/v1/users/invite''),
        chain [RequireAuth L (AppSecret cfg), RequireRole [roleAdmin, roleSuperAdmin],
               RateLimit L ''api:users:invite'' 20 time_Minute,
               Audit L auditRepo ''user.invite'' ''users''] (UserHandler_Invite L W s)),
      ((''DELETE'', ''/api/v1/users/:id''),
        chain [RequireAuth L (AppSecret cfg), RequireRole [roleSuperAdmin],
               Audit L auditRepo ''user.deactivate'' ''users''] (UserHandler_Deactivate W s))]"

definition probe :: "'d handler" where
  "probe req = send (JSON 200 (JObject [(''status'', JString ''ok'')]))"

text \<open>The engine: the global middleware around the handlers of the matched route.\<close>

definition global_middleware :: "outside \<Rightarrow> 'd middleware list" where
  "global_middleware L = [RequestID L, RequestLogger L, Recovery]"

definition Setup ::
    "outside \<Rightarrow> web \<Rightarrow> Config \<Rightarrow> 'd AuthService \<Rightarrow> 'd UserService \<Rightarrow> 'd IAuditRepository \<Rightarrow>
     (string \<times> string) \<rightharpoonup> 'd handler" where
  "Setup L W cfg authSvc userSvc auditRepo =
     map_option (chain (global_middleware L)) \<circ>
     map_of ([((''GET'', ''/health''), probe), ((''GET'', ''/ready''), probe)] @
        setupAuthRoutes L W cfg authSvc @ setupUserRoutes L W cfg userSvc auditRepo)"

lemmas route_defs = setupAuthRoutes_def setupUserRoutes_def RequireAuth_def RequireMFA_def RequirePurpose_def

end
