(* ===== verification/Bootstrap.thy ===== *)
theory Bootstrap
  imports Jobs Routes
begin

text \<open>
  \<open>internal/bootstrap\<close>, \<open>internal/lib/logger.go\<close> and \<open>cmd\<close>: how a process opens its connections, wires the
  program, runs and ends. The state holds the connections that are open, each under the number of the call
  that made it, so that a theorem can say which of them a path of the start or of the end leaves open. What
  the drivers, the migrations and the environment answer is the parameter \<open>infra\<close>.
\<close>

section \<open>What a process meets when it starts\<close>

record zap_Config =
  zapEncodeLevel :: string
  zapOutputPaths :: "string list"
  zapErrorOutputPaths :: "string list"
  zapOther :: string

record infra =
  env_Parse :: "goerr + Config"
  strconv_Quote :: "string \<Rightarrow> string"
  zap_NewProductionConfig :: zap_Config
  zap_NewDevelopmentConfig :: zap_Config
  zap_Build :: "zap_Config \<Rightarrow> goerr option"
  pgxpool_New :: "nat \<Rightarrow> string \<Rightarrow> goerr option"
  pool_Ping :: "nat \<Rightarrow> string \<Rightarrow> goerr option"
  tables_at :: "string \<Rightarrow> tables" \<comment> \<open>what the server behind a DSN holds\<close>
  goose_OpenDB :: "nat \<Rightarrow> string \<Rightarrow> goerr option"
  goose_Up :: "nat \<Rightarrow> tables \<Rightarrow> goerr option \<times> tables"
  redis_ParseURL :: "string \<Rightarrow> goerr option"
  redis_Ping :: "nat \<Rightarrow> string \<Rightarrow> goerr option"
  server_Shutdown :: "nat \<Rightarrow> goerr option"

datatype resource = RPool string | RRedis string | RMigration string

record proc =
  pOpen :: "(nat \<times> resource) list"
  pCalls :: nat
  pRelease :: bool \<comment> \<open>\<open>gin.SetMode(gin.ReleaseMode)\<close>\<close>
  pWorld :: "DB world"

definition infra_call :: "(proc, nat) state" where
  "infra_call = do {
     p \<leftarrow> State_Monad.get;
     _ \<leftarrow> State_Monad.set (p\<lparr>pCalls := Suc (pCalls p)\<rparr>);
     ret (pCalls p)
   }"

definition acquire :: "nat \<Rightarrow> resource \<Rightarrow> (proc, unit) state" where
  "acquire h r = State_Monad.update (\<lambda>p. p\<lparr>pOpen := pOpen p @ [(h, r)]\<rparr>)"

definition release :: "nat \<Rightarrow> (proc, unit) state" where
  "release h = State_Monad.update (\<lambda>p. p\<lparr>pOpen := filter (\<lambda>(k, r). k \<noteq> h) (pOpen p)\<rparr>)"

definition in_world :: "(DB world, 'a) state \<Rightarrow> (proc, 'a) state" where
  "in_world m = do {
     p \<leftarrow> State_Monad.get;
     let (x, w) = run_state m (pWorld p);
     _ \<leftarrow> State_Monad.set (p\<lparr>pWorld := w\<rparr>);
     ret x
   }"

section \<open>The logger\<close>

definition NewLogger :: "infra \<Rightarrow> string \<Rightarrow> goerr + zap_Config" where
  "NewLogger I env =
     (let cfg = (if env = ''production'' then zap_NewProductionConfig I
                 else (zap_NewDevelopmentConfig I)\<lparr>zapEncodeLevel := ''CapitalColorLevelEncoder''\<rparr>);
          cfg = cfg\<lparr>zapOutputPaths := [''stdout''], zapErrorOutputPaths := [''stderr'']\<rparr>
      in case zap_Build I cfg of Some err \<Rightarrow> Inl err | None \<Rightarrow> Inr cfg)"

section \<open>The database pools\<close>

record pools =
  dbWrite :: "nat option"
  dbRead :: "nat list"

definition connectPool :: "infra \<Rightarrow> string \<Rightarrow> (proc, goerr + nat) state" where
  "connectPool I dsn = do {
     n \<leftarrow> infra_call;
     case pgxpool_New I n dsn of
       Some err \<Rightarrow> ret (Inl (Wrapped ''create pool'' err))
     | None \<Rightarrow> do {
         _ \<leftarrow> acquire n (RPool dsn);
         m \<leftarrow> infra_call;
         case pool_Ping I m dsn of
           Some err \<Rightarrow> do { _ \<leftarrow> release n; ret (Inl (Wrapped ''ping database'' err)) }
         | None \<Rightarrow> ret (Inr n)
       }
   }"

fun release_all :: "nat list \<Rightarrow> (proc, unit) state" where
  "release_all [] = ret ()"
| "release_all (h # hs) = do { _ \<leftarrow> release h; release_all hs }"

fun connect_readers :: "infra \<Rightarrow> nat \<Rightarrow> nat list \<Rightarrow> nat \<Rightarrow> string list \<Rightarrow> (proc, goerr + nat list) state" where
  "connect_readers I writer readers i [] = ret (Inr readers)"
| "connect_readers I writer readers i (url # urls) = do {
     r \<leftarrow> connectPool I url;
     case r of
       Inl err \<Rightarrow> do {
         _ \<leftarrow> release_all readers;
         _ \<leftarrow> release writer;
         ret (Inl (Wrapped (''connect read database #'' @ Itoa (int (i + 1))) err))
       }
     | Inr reader \<Rightarrow> connect_readers I writer (readers @ [reader]) (Suc i) urls
   }"

definition Connect :: "infra \<Rightarrow> string \<Rightarrow> string list \<Rightarrow> (proc, goerr + pools) state" where
  "Connect I writeURL readURLs = do {
     r \<leftarrow> connectPool I writeURL;
     case r of
       Inl err \<Rightarrow> ret (Inl (Wrapped ''connect write database'' err))
     | Inr writer \<Rightarrow> do {
         rs \<leftarrow> connect_readers I writer [] 0 readURLs;
         case rs of
           Inl err \<Rightarrow> ret (Inl err)
         | Inr readers \<Rightarrow> do {
             _ \<leftarrow> in_world (State_Monad.update (\<lambda>w. w\<lparr>store :=
                    \<lparr>primary = tables_at I writeURL, replicas = map (tables_at I) readURLs, rr = 0\<rparr>\<rparr>));
             ret (Inr \<lparr>dbWrite = Some writer, dbRead = readers\<rparr>)
           }
       }
   }"

definition DB_Close :: "pools option \<Rightarrow> (proc, unit) state" where
  "DB_Close db =
     (case db of
        None \<Rightarrow> ret ()
      | Some d \<Rightarrow> do {
          _ \<leftarrow> release_all (dbRead d);
          case dbWrite d of None \<Rightarrow> ret () | Some h \<Rightarrow> release h
        })"

text \<open>The migrations run over a connection of their own, closed on every path.\<close>

definition runMigrations :: "infra \<Rightarrow> string \<Rightarrow> (proc, goerr option) state" where
  "runMigrations I dsn = do {
     n \<leftarrow> infra_call;
     case goose_OpenDB I n dsn of
       Some err \<Rightarrow> ret (Some (Wrapped ''open db for migrations'' err))
     | None \<Rightarrow> do {
         _ \<leftarrow> acquire n (RMigration dsn);
         m \<leftarrow> infra_call;
         p \<leftarrow> State_Monad.get;
         let (e, t) = goose_Up I m (primary (store (pWorld p)));
         _ \<leftarrow> in_world (State_Monad.update (\<lambda>w. w\<lparr>store := (store w)\<lparr>primary := t\<rparr>\<rparr>));
         _ \<leftarrow> release n;
         ret (map_option (Wrapped ''run migrations'') e)
       }
   }"

section \<open>Redis\<close>

definition ConnectRedis :: "infra \<Rightarrow> string \<Rightarrow> (proc, goerr + nat) state" where
  "ConnectRedis I url =
     (case redis_ParseURL I url of
        Some err \<Rightarrow> ret (Inl (Wrapped ''parse redis url'' err))
      | None \<Rightarrow> do {
          client \<leftarrow> infra_call;
          _ \<leftarrow> acquire client (RRedis url);
          m \<leftarrow> infra_call;
          ret (case redis_Ping I m url of
                 Some err \<Rightarrow> Inl (Wrapped ''ping redis'' err)
               | None \<Rightarrow> Inr client)
        })"

section \<open>Wiring\<close>

record Repositories =
  rpUsers :: "DB IUserRepository"
  rpPasswordResets :: "DB IPasswordResetRepository"
  rpAudit :: "DB IAuditRepository"

definition NewRepositories :: "outside \<Rightarrow> Repositories" where
  "NewRepositories L =
     \<lparr>rpUsers = NewUserRepository L, rpPasswordResets = NewPasswordResetRepository L,
      rpAudit = NewAuditRepository L\<rparr>"

record Services =
  svAuth :: "DB AuthService"
  svUsers :: "DB UserService"

definition NewServices :: "Repositories \<Rightarrow> Config \<Rightarrow> Services" where
  "NewServices repos cfg =
     \<lparr>svAuth = NewAuthService cfg (rpUsers repos) (rpPasswordResets repos) None,
      svUsers = NewUserService cfg (rpUsers repos)\<rparr>"

section \<open>The application\<close>

record http_server =
  srvAddr :: string
  srvHandler :: "(string \<times> string) \<rightharpoonup> DB handler"
  srvReadTimeout :: int64
  srvWriteTimeout :: int64
  srvIdleTimeout :: int64

record App =
  appConfig :: Config
  appLogger :: zap_Config
  appDB :: "pools option"
  appRedis :: "nat option"
  appRepos :: Repositories
  appSvcs :: Services
  appRouter :: "(string \<times> string) \<rightharpoonup> DB handler"
  appJobs :: "(DB world, goerr option) state Worker"
  appSched :: "DB Scheduler"
  appServer :: "http_server option"


definition New :: "infra \<Rightarrow> outside \<Rightarrow> web \<Rightarrow> (proc, goerr + App) state" where
  "New I L W =
     (case Load (strconv_Quote I) (env_Parse I) of
        Inl err \<Rightarrow> ret (Inl (Wrapped ''load config'' err))
      | Inr cfg \<Rightarrow>
     (case NewLogger I (AppEnv cfg) of
        Inl err \<Rightarrow> ret (Inl (Wrapped ''init logger'' err))
      | Inr logger \<Rightarrow> do {
     rdb \<leftarrow> Connect I (DatabaseWriteURL cfg) (ReadDSNs cfg);
     case rdb of
       Inl err \<Rightarrow> ret (Inl (Wrapped ''connect database'' err))
     | Inr db \<Rightarrow> do {
     migrated \<leftarrow> runMigrations I (DatabaseWriteURL cfg);
     case migrated of
       Some err \<Rightarrow> do { _ \<leftarrow> DB_Close (Some db); ret (Inl (Wrapped ''run migrations'' err)) }
     | None \<Rightarrow> do {
     rr \<leftarrow> ConnectRedis I (RedisURL cfg);
     case rr of
       Inl err \<Rightarrow> do { _ \<leftarrow> DB_Close (Some db); ret (Inl (Wrapped ''connect redis'' err)) }
     | Inr client \<Rightarrow> do {
     let repos = NewRepositories L;
     let svcs = NewServices repos cfg;
     booted \<leftarrow> in_world (EnsureBootstrapAdmin L cfg (rpUsers repos));
     case booted of
       Some err \<Rightarrow> do {
         _ \<leftarrow> DB_Close (Some db);
         _ \<leftarrow> release client;
         ret (Inl (Wrapped ''bootstrap admin'' err))
       }
     | None \<Rightarrow> do {
     _ \<leftarrow> State_Monad.update (\<lambda>p. p\<lparr>pRelease := pRelease p \<or> AppEnv cfg = ''production''\<rparr>);
     let router = Setup L W cfg (svAuth svcs) (svUsers svcs) (rpAudit repos);
     let server = \<lparr>srvAddr = '':'' @ HTTPPort cfg, srvHandler = router, srvReadTimeout = 15 * time_Second,
                   srvWriteTimeout = 30 * time_Second, srvIdleTimeout = 60 * time_Second\<rparr>;
     let sched = Every (30 * time_Minute) ''cleanup.expired_password_resets''
                   (resets_DeleteExpired (rpPasswordResets repos)) NewScheduler;
     ret (Inr \<lparr>appConfig = cfg, appLogger = logger, appDB = Some db, appRedis = Some client,
               appRepos = repos, appSvcs = svcs, appRouter = router, appJobs = Worker_New,
               appSched = sched, appServer = Some server\<rparr>)
     }}}}}))"

definition Shutdown :: "infra \<Rightarrow> App \<Rightarrow> (proc, goerr option) state" where
  "Shutdown I a = do {
     shutdownErr \<leftarrow> (case appServer a of None \<Rightarrow> ret None
        | Some _ \<Rightarrow> do { n \<leftarrow> infra_call; ret (server_Shutdown I n) });
     _ \<leftarrow> (case appRedis a of None \<Rightarrow> ret () | Some client \<Rightarrow> release client);
     _ \<leftarrow> DB_Close (appDB a);
     ret shutdownErr
   }"

section \<open>Running\<close>

text \<open>
  What happens to a running process, one event after another: \<open>ListenAndServe\<close> returns, a signal cancels the
  context, the ticker of a scheduled job fires, the job worker returns. A run that ends with None is still
  waiting.
\<close>

datatype run_event = Listen_exits goerr | Ctx_done | Sched_ticked nat | Jobs_returned "goerr option"

definition ErrServerClosed :: goerr where
  "ErrServerClosed = Plain ''http: Server closed''"

definition sched_tick :: "App \<Rightarrow> nat \<Rightarrow> (proc, unit) state" where
  "sched_tick a i =
     (if i < length (scJobs (appSched a)) then ignore (in_world (sjHandler (scJobs (appSched a) ! i)))
      else ret ())"

fun RunAll :: "infra \<Rightarrow> App \<Rightarrow> run_event list \<Rightarrow> (proc, goerr option option) state" where
  "RunAll I a [] = ret None"
| "RunAll I a (Listen_exits err # es) =
     (if errors_Is err ErrServerClosed then RunAll I a es else ret (Some (Some err)))"
| "RunAll I a (Ctx_done # es) = do { e \<leftarrow> Shutdown I a; ret (Some e) }"
| "RunAll I a (Sched_ticked i # es) = do { _ \<leftarrow> sched_tick a i; RunAll I a es }"
| "RunAll I a (Jobs_returned e # es) = RunAll I a es"

text \<open>\<open>RunAPI\<close> starts neither the worker nor the scheduler.\<close>

fun RunAPI :: "infra \<Rightarrow> App \<Rightarrow> run_event list \<Rightarrow> (proc, goerr option option) state" where
  "RunAPI I a [] = ret None"
| "RunAPI I a (Listen_exits err # es) =
     (if errors_Is err ErrServerClosed then RunAPI I a es else ret (Some (Some err)))"
| "RunAPI I a (Ctx_done # es) = do { e \<leftarrow> Shutdown I a; ret (Some e) }"
| "RunAPI I a (e # es) = RunAPI I a es"

text \<open>\<open>RunWorker\<close> returns what \<open>Jobs.Run\<close> does: at once the error of the context when no job is registered, and
  otherwise what the jobs make of it. The scheduler stops with the context.\<close>

fun RunWorker :: "bool \<Rightarrow> App \<Rightarrow> run_event list \<Rightarrow> (proc, goerr option option) state" where
  "RunWorker live a [] = ret None"
| "RunWorker live a (Listen_exits err # es) = RunWorker live a es"
| "RunWorker live a (Ctx_done # es) =
     (case run_idle (appJobs a) CtxCanceled of
        Some r \<Rightarrow> ret (Some r)
      | None \<Rightarrow> RunWorker False a es)"
| "RunWorker live a (Sched_ticked i # es) =
     do { _ \<leftarrow> (if live then sched_tick a i else ret ()); RunWorker live a es }"
| "RunWorker live a (Jobs_returned e # es) =
     (if wkJobs (appJobs a) = [] then RunWorker live a es else ret (Some e))"

section \<open>The commands\<close>

fun error_text :: "goerr \<Rightarrow> string" where
  "error_text (Sentinel s) = Error (sentinel_value s)"
| "error_text (Fresh a) = Error a"
| "error_text NoRows = ''no rows in result set''"
| "error_text CtxCanceled = ''context canceled''"
| "error_text (Plain m) = m"
| "error_text (Wrapped m e) = m @ '': '' @ error_text e"

text \<open>A process that has ended: its exit code and what it wrote to the standard error.\<close>

definition main_of ::
    "infra \<Rightarrow> outside \<Rightarrow> web \<Rightarrow> (App \<Rightarrow> (proc, goerr option option) state) \<Rightarrow> (proc, (nat \<times> string) option) state" where
  "main_of I L W run = do {
     r \<leftarrow> New I L W;
     case r of
       Inl err \<Rightarrow> ret (Some (1, ''startup error: '' @ error_text err @ [CHR 10]))
     | Inr app \<Rightarrow> do {
         e \<leftarrow> run app;
         ret (case e of
                None \<Rightarrow> None
              | Some None \<Rightarrow> Some (0, '''')
              | Some (Some err) \<Rightarrow> Some (1, ''runtime error: '' @ error_text err @ [CHR 10]))
       }
   }"

definition main_server :: "infra \<Rightarrow> outside \<Rightarrow> web \<Rightarrow> run_event list \<Rightarrow> (proc, (nat \<times> string) option) state" where
  "main_server I L W es = main_of I L W (\<lambda>app. RunAll I app es)"

definition main_api :: "infra \<Rightarrow> outside \<Rightarrow> web \<Rightarrow> run_event list \<Rightarrow> (proc, (nat \<times> string) option) state" where
  "main_api I L W es = main_of I L W (\<lambda>app. RunAPI I app es)"

definition main_worker :: "infra \<Rightarrow> outside \<Rightarrow> web \<Rightarrow> run_event list \<Rightarrow> (proc, (nat \<times> string) option) state" where
  "main_worker I L W es = main_of I L W (\<lambda>app. RunWorker True app es)"

end
