(* ===== verification/RouteFacts.thy ===== *)
theory RouteFacts
  imports Routes
begin

text \<open>
  What the routes promise: every request is answered once, the users are behind a session with the right
  role, the reset request does not tell whether an account exists, and what the answers disclose.
\<close>

section \<open>Every request is answered\<close>

text \<open>A handler that starts with nothing written returns with one response: one JSON body, or none under
  status 204.\<close>

definition ends :: "('d gin, finish) state \<Rightarrow> bool" where
  "ends m \<longleftrightarrow> (\<forall>g. gBodies g = [] \<longrightarrow>
     (\<exists>g1. run_state m g = (Returned, g1) \<and> (length (gBodies g1) = 1 \<or> gBodies g1 = [] \<and> gStatus g1 = 204)))"

definition answers :: "'d handler \<Rightarrow> bool" where
  "answers h \<longleftrightarrow> (\<forall>req. ends (h req))"

lemma endsD:
  "ends m \<Longrightarrow> gBodies g = [] \<Longrightarrow>
   \<exists>g1. run_state m g = (Returned, g1) \<and> (length (gBodies g1) = 1 \<or> gBodies g1 = [] \<and> gStatus g1 = 204)"
  by (simp add: ends_def)

named_theorems ends_intros \<open>handlers that answer\<close>

lemma ends_send [ends_intros]: "(rBody r = None \<Longrightarrow> rStatus r = 204) \<Longrightarrow> ends (send r)"
  by (auto simp: ends_def split: option.split)

lemma ends_abort [ends_intros]: "ends (abort_json s code message)"
  by (simp add: ends_def)

lemma ends_world [ends_intros]: "(\<And>x. ends (f x)) \<Longrightarrow> ends (on_world m \<bind> f)"
  by (simp add: ends_def)

lemma ends_get [ends_intros]: "(\<And>x. ends (f x)) \<Longrightarrow> ends (State_Monad.get \<bind> f)"
  by (simp add: ends_def)

lemma ends_writes [ends_intros]:
  "(\<And>x. ends (f x)) \<Longrightarrow> ends (c_Set k v \<bind> f)" "(\<And>x. ends (f x)) \<Longrightarrow> ends (c_Header k s \<bind> f)"
  by (simp_all add: ends_def)

lemma ends_cases [ends_intros]:
  "ends m \<Longrightarrow> ends n \<Longrightarrow> ends (if b then m else n)"
  "(\<And>a. ends (p a)) \<Longrightarrow> (\<And>b. ends (q b)) \<Longrightarrow> ends (case r of Inl a \<Rightarrow> p a | Inr b \<Rightarrow> q b)"
  "ends n \<Longrightarrow> (\<And>x. ends (h x)) \<Longrightarrow> ends (case z of None \<Rightarrow> n | Some x \<Rightarrow> h x)"
  "(\<And>x y. ends (k x y)) \<Longrightarrow> ends (case pr of (x, y) \<Rightarrow> k x y)"
  "(\<And>x. ends (l x)) \<Longrightarrow> ends (let x = e in l x)"
  by (simp_all split: sum.split option.split prod.split)

lemma rBody_ne [simp]:
  "rBody (Fail e) \<noteq> None" "rBody (Success d) \<noteq> None" "rBody (SuccessWithMeta d m) \<noteq> None"
  "rBody (Created d) \<noteq> None" "rBody (JSON s b) \<noteq> None"
  by (simp_all add: response_defs Let_def)

lemma auth_handlers_answer:
  "answers (AuthHandler_Login L W s)" "answers (AuthHandler_VerifyTOTP L W s)" "answers (AuthHandler_SetupTOTP L s)"
  "answers (AuthHandler_ConfirmTOTP L W s)" "answers (AuthHandler_ForgotPassword L W s)"
  "answers (AuthHandler_VerifyResetEmail L W s)" "answers (AuthHandler_CompletePasswordReset L W s)"
  "answers (AuthHandler_AcceptInvite L W s)" "answers (AuthHandler_Me L s)" "answers probe"
  unfolding answers_def auth_handler_defs session_body_def probe_def
  by (intro allI ends_intros; auto split: sum.splits option.splits prod.splits)+

lemma NewMeta_some: "\<exists>m. NewMeta (ParseParams q) n = Some m"
proof -
  have "PageSize (ParseParams q) \<noteq> 0"
    using PageSize_ParseParams(1) [of q] by auto
  then show ?thesis by (simp add: NewMeta_def Let_def)
qed

lemma user_handlers_answer:
  "answers (UserHandler_Get L W u)" "answers (UserHandler_Update L W u)" "answers (UserHandler_Invite L W u)"
  "answers (UserHandler_Deactivate W u)"
  unfolding answers_def user_handler_defs
  by (intro allI ends_intros; auto split: sum.splits option.splits)+

lemma List_answers: "answers (UserHandler_List L W u)"
proof -
  have meta: "ends (case NewMeta (ParseParams q) n of None \<Rightarrow> m | Some x \<Rightarrow> send (SuccessWithMeta d (Meta_json x)))"
    for q n m d
    using NewMeta_some [of q n] by (auto intro!: ends_send)
  show ?thesis
    unfolding answers_def UserHandler_List_def Let_def
    by (intro allI ends_world ends_cases(2,4) meta ends_send; simp)
qed

text \<open>Every middleware hands on an answer, or gives one.\<close>

lemma gates_answer:
  assumes "answers h"
  shows "answers (requirePurpose L secret p h)" "answers (RequireRole roles h)" "answers (RateLimit L ns limit window h)"
proof -
  have h: "ends (h req)" for req using assms by (simp add: answers_def)
  show "answers (requirePurpose L secret p h)" "answers (RequireRole roles h)" "answers (RateLimit L ns limit window h)"
    unfolding answers_def requirePurpose_def RequireRole_def RateLimit_def
    by (intro allI ends_intros h)+
qed

lemma Audit_answers:
  assumes "answers h"
  shows "answers (Audit L repo action resource h)"
  unfolding answers_def ends_def
proof (intro allI impI)
  fix req and g :: "'a gin"
  assume "gBodies g = []"
  then obtain g1 where g1: "run_state (h req) (tick_gin g) = (Returned, g1)"
      "length (gBodies g1) = 1 \<or> gBodies g1 = [] \<and> gStatus g1 = 204"
    using assms endsD [of "h req" "tick_gin g"] by (auto simp: answers_def)
  from g1(1) show "\<exists>g'. run_state (Audit L repo action resource h req) g = (Returned, g') \<and>
      (length (gBodies g') = 1 \<or> gBodies g' = [] \<and> gStatus g' = 204)"
    by (cases rule: Audit_run [where L = L and repo = repo and action = action and resource = resource])
      (use g1(2) in auto)
qed

lemma global_answers:
  assumes "answers h"
  shows "answers (Recovery h)" "answers (RequestLogger L h)" "answers (RequestID L h)"
proof -
  note D = endsD [OF assms [unfolded answers_def, rule_format]]
  show "answers (Recovery h)"
    unfolding answers_def ends_def
  proof (intro allI impI)
    fix req and g :: "'a gin"
    assume "gBodies g = []"
    with D [of g req] obtain g1 where "run_state (h req) g = (Returned, g1)"
        "length (gBodies g1) = 1 \<or> gBodies g1 = [] \<and> gStatus g1 = 204" by auto
    then show "\<exists>g'. run_state (Recovery h req) g = (Returned, g') \<and>
        (length (gBodies g') = 1 \<or> gBodies g' = [] \<and> gStatus g' = 204)"
      by (simp add: Recovery_def)
  qed
  show "answers (RequestLogger L h)"
    unfolding answers_def ends_def
  proof (intro allI impI)
    fix req and g :: "'a gin"
    assume "gBodies g = []"
    with D [of "tick_gin g" req] obtain g1 where "run_state (h req) (tick_gin g) = (Returned, g1)"
        "length (gBodies g1) = 1 \<or> gBodies g1 = [] \<and> gStatus g1 = 204" by auto
    then show "\<exists>g'. run_state (RequestLogger L h req) g = (Returned, g') \<and>
        (length (gBodies g') = 1 \<or> gBodies g' = [] \<and> gStatus g' = 204)"
      by (simp add: RequestLogger_def Let_def)
  qed
  show "answers (RequestID L h)"
    using D unfolding answers_def ends_def RequestID_def by (simp add: fun_upd_def) 
qed

lemma route_of: "map_option f (map_of xs k) = Some h \<Longrightarrow> \<exists>h'. h = f h' \<and> (k, h') \<in> set xs"
  by (auto dest: map_of_SomeD)

lemma table_answers:
  "list_all (\<lambda>(k, h). answers h) ([((''GET'', ''/health''), probe), ((''GET'', ''/ready''), probe)] @
     setupAuthRoutes L W cfg s @ setupUserRoutes L W cfg u repo)"
  unfolding route_defs
  by (simp add: gates_answer Audit_answers auth_handlers_answer user_handlers_answer List_answers)

lemma routes_answer:
  assumes "Setup L W cfg s u repo k = Some h"
  shows "answers h"
proof -
  obtain h' where h: "h = chain (global_middleware L) h'"
    and h': "(k, h') \<in> set ([((''GET'', ''/health''), probe), ((''GET'', ''/ready''), probe)] @
        setupAuthRoutes L W cfg s @ setupUserRoutes L W cfg u repo)"
    using route_of [OF assms [unfolded Setup_def comp_def]] by blast
  have "answers h'"
    using table_answers [of L W cfg s u repo] h' unfolding list_all_iff by blast
  then show ?thesis unfolding h by (simp add: global_middleware_def global_answers)
qed

section \<open>The roles of the user routes\<close>

text \<open>The comments of the table, as a specification: who may use which route of \<open>/api/v1\<close>.\<close>

definition allowed_roles :: "string \<times> string \<Rightarrow> UserRole list option" where
  "allowed_roles = map_of
     [((''GET'', ''/api/v1/users''), [RoleAdmin, RoleSuperAdmin]),
      ((''GET'', ''/api/v1/users/:id''), [RoleSuperAdmin, RoleAdmin, RoleManager]),
      ((''PATCH'', ''/api/v1/users/:id''), [RoleAdmin, RoleSuperAdmin]),
      ((''POST'', ''/api/v1/users/invite''), [RoleAdmin, RoleSuperAdmin]),
      ((''DELETE'', ''/api/v1/users/:id''), [RoleSuperAdmin])]"

lemma table_gates:
  "list_all (\<lambda>(k, h). \<forall>roles. allowed_roles k = Some roles \<longrightarrow>
      (\<exists>rest. h = RequireAuth L (AppSecret cfg) (RequireRole roles rest)))
     ([((''GET'', ''/health''), probe), ((''GET'', ''/ready''), probe)] @
     setupAuthRoutes L W cfg s @ setupUserRoutes L W cfg u repo)"
  unfolding setupAuthRoutes_def setupUserRoutes_def
  by (simp add: allowed_roles_def role_defs route_role_defs) blast

lemma session_gate:
  obtains (stopped) g' where "run_state (RequireAuth L secret (RequireRole roles rest) req) g = (Returned, g')"
      "gWorld g' = gWorld g \<or> gWorld g' = gWorld (tick_gin g)" "gStatus g' \<in> {401, 403} \<or> gBodies g \<noteq> []"
  | (passed) c where "bearer_claims L secret PurposeSession (now_at L (ticks (gWorld g))) req = Some c"
      "cRole c \<in> set roles"
      "run_state (RequireAuth L secret (RequireRole roles rest) req) g = run_state (rest req) (with_claims c (tick_gin g))"
proof (cases "bearer_claims L secret PurposeSession (now_at L (ticks (gWorld g))) req")
  case None
  from requirePurpose_stop [OF this, of "RequireRole roles rest"] show thesis
    by (cases "gBodies g = []") (auto simp: RequireAuth_def intro!: stopped)
next
  case (Some c)
  note run = requirePurpose_pass [OF Some, of "RequireRole roles rest", folded RequireAuth_def]
  show thesis
  proof (cases "cRole c \<in> set roles")
    case True
    with Some run show thesis by (intro passed) (simp_all add: RequireRole_run)
  next
    case False
    let ?g = "write_response 403 [abort_body ''FORBIDDEN'' ''insufficient role for this action''] (with_claims c (tick_gin g))"
    have "run_state (RequireAuth L secret (RequireRole roles rest) req) g = (Returned, ?g)"
      using False run by (simp add: RequireRole_run)
    moreover have "gStatus ?g \<in> {401, 403} \<or> gBodies g \<noteq> []" by (cases "gBodies g = []") simp_all
    ultimately show thesis by (intro stopped [of ?g]) simp_all
  qed
qed

text \<open>The global middleware hands the store on as it is, and the answer as the route gave it.\<close>

lemma global_run:
  assumes "run_state (chain (global_middleware L) h req) g = (f', g')"
  obtains g0 f g1 where "run_state (h req) g0 = (f, g1)" "store (gWorld g0) = store (gWorld g)"
    "ticks (gWorld g) \<le> ticks (gWorld g0)" "gBodies g0 = gBodies g" "gStatus g0 = gStatus g"
    "store (gWorld g') = store (gWorld g1)" "f = Returned \<Longrightarrow> written g' = written g1"
    "redis_log (gWorld g0) = redis_log (gWorld g)" "ticks (gWorld g0) \<le> ticks (gWorld g) + 2"
proof -
  define given where "given = gqHeader req ''X-Request-ID''"
  define rid where "rid = (if given = '''' then UUID_String (jwt L) (uuid_at L (ticks (gWorld g))) else given)"
  define g00 where "g00 = (if given = '''' then tick_gin g else g)"
  define g0 where "g0 = tick_gin (g00\<lparr>gKeys := (gKeys g00)(RequestIDKey \<mapsto> KString rid),
    gHeaders := (gHeaders g00)(''X-Request-ID'' \<mapsto> rid)\<rparr>)"
  obtain f g1 where run: "run_state (h req) g0 = (f, g1)" by fastforce
  have "store (gWorld g') = store (gWorld g1) \<and> (f = Returned \<longrightarrow> written g' = written g1)"
    using assms run unfolding g0_def g00_def rid_def given_def
    by (cases f; cases "gqHeader req ''X-Request-ID'' = ''''")
      (auto simp: global_middleware_def RequestID_def RequestLogger_def Recovery_def Let_def written_def)
  with run show thesis
    by (intro that [OF run]) (auto simp: g0_def g00_def)
qed

text \<open>A panic that unwinds out of the route before anything was written is answered by the global middleware.\<close>

lemma global_panic:
  assumes panics: "\<And>g. \<exists>g1. run_state (h req) g = (Panicked m, g1) \<and> gBodies g1 = gBodies g"
    and fresh: "gBodies g = []" and run: "run_state (chain (global_middleware L) h req) g = (f, g')"
  shows "f = Returned \<and> written g' = (500, [abort_body ''INTERNAL_ERROR'' ''internal server error'']) \<and>
    (\<exists>rid. Log_panic m (gqPath req) (gqMethod req) rid \<in> set (gLog g'))"
proof -
  define given where "given = gqHeader req ''X-Request-ID''"
  define rid where "rid = (if given = '''' then UUID_String (jwt L) (uuid_at L (ticks (gWorld g))) else given)"
  define g00 where "g00 = (if given = '''' then tick_gin g else g)"
  define g0 where "g0 = tick_gin (g00\<lparr>gKeys := (gKeys g00)(RequestIDKey \<mapsto> KString rid),
    gHeaders := (gHeaders g00)(''X-Request-ID'' \<mapsto> rid)\<rparr>)"
  obtain g1 where crash: "run_state (h req) g0 = (Panicked m, g1)" and "gBodies g1 = gBodies g0"
    using panics by blast
  with fresh have "gBodies g1 = []" by (simp add: g0_def g00_def)
  with run crash show ?thesis
    unfolding g0_def g00_def rid_def given_def
    by (cases "gqHeader req ''X-Request-ID'' = ''''")
      (auto simp: global_middleware_def RequestID_def RequestLogger_def Recovery_def Let_def written_def)
qed

lemma route_entry:
  assumes "Setup L W cfg s u repo k = Some h"
  obtains h' where "h = chain (global_middleware L) h'"
    "(k, h') \<in> set ([((''GET'', ''/health''), probe), ((''GET'', ''/ready''), probe)] @
        setupAuthRoutes L W cfg s @ setupUserRoutes L W cfg u repo)"
  using route_of [OF assms [unfolded Setup_def comp_def]] by blast

lemma Setup_routes:
  "Setup L W cfg s u repo (''PATCH'', ''/api/v1/users/:id'') = Some (chain (global_middleware L)
     (RequireAuth L (AppSecret cfg) (RequireRole [roleAdmin, roleSuperAdmin] (UserHandler_Update L W u))))"
  "Setup L W cfg s u repo (''GET'', ''/auth/me'') = Some (chain (global_middleware L)
     (RequireAuth L (AppSecret cfg) (AuthHandler_Me L s)))"
  "Setup L W cfg s u repo (''POST'', ''/auth/forgot-password'') = Some (chain (global_middleware L)
     (RateLimit L ''auth:forgot-password'' 10 time_Minute (AuthHandler_ForgotPassword L W s)))"
  by (simp_all add: Setup_def setupAuthRoutes_def setupUserRoutes_def)

definition example_web :: web where
  "example_web =
     \<lparr>decode_login = (\<lambda>_. Inr \<lparr>lqEmail = ''ann@x'', lqPassword = ''secret''\<rparr>),
      decode_verifyTOTP = (\<lambda>_. Inl ''EOF''), decode_confirmTOTP = (\<lambda>_. Inl ''EOF''),
      decode_forgotPassword = (\<lambda>b. Inr \<lparr>fpEmail = b\<rparr>),
      decode_verifyResetEmail = (\<lambda>_. Inl ''EOF''), decode_completePasswordReset = (\<lambda>_. Inl ''EOF''),
      decode_acceptInvite = (\<lambda>_. Inl ''EOF''),
      decode_updateUser = (\<lambda>_. Inr \<lparr>uqName = None, uqRole = Some RoleSuperAdmin\<rparr>),
      decode_invite = (\<lambda>_. Inl ''EOF''), is_email = (\<lambda>_. True), validation_error = (\<lambda>_. ''invalid''),
      uuid_Parse = (\<lambda>_. Some 2), format_time = (\<lambda>_. ''2024'')\<rparr>"

abbreviation example_auth :: "DB AuthService" where
  "example_auth \<equiv> NewServices_Auth example_outside example_config"

abbreviation example_users_service :: "DB UserService" where
  "example_users_service \<equiv> NewServices_Users example_outside example_config"

abbreviation example_audit :: "DB IAuditRepository" where
  "example_audit \<equiv> NewAuditRepository example_outside"

section \<open>Properties\<close>

text \<open>C23: every request that matches a route is answered, whatever it holds and whatever the outside does: the
  chain returns and has written exactly one JSON body, or status 204 without one. Every route is behind the
  same global middleware, which answers any handler that panics before it has written, with the 500 of the
  code as the only body, and logs the panic.\<close>

theorem served_once:
  assumes "Setup L W cfg s u repo k = Some h"
  shows "(\<exists>g'. run_state (h req) (new_gin w) = (Returned, g') \<and>
      (length (gBodies g') = 1 \<or> gBodies g' = [] \<and> gStatus g' = 204)) \<and>
    (\<exists>h'. h = chain (global_middleware L) h') \<and>
    ((\<forall>g. \<exists>g1. run_state (crash req) g = (Panicked m, g1) \<and> gBodies g1 = gBodies g) \<longrightarrow>
      (\<exists>g' rid. run_state (chain (global_middleware L) crash req) (new_gin w) = (Returned, g') \<and>
        written g' = (500, [abort_body ''INTERNAL_ERROR'' ''internal server error'']) \<and>
        Log_panic m (gqPath req) (gqMethod req) rid \<in> set (gLog g')))"
proof (intro conjI impI)
  show "\<exists>g'. run_state (h req) (new_gin w) = (Returned, g') \<and>
      (length (gBodies g') = 1 \<or> gBodies g' = [] \<and> gStatus g' = 204)"
    using routes_answer [OF assms] endsD [of "h req" "new_gin w"] by (simp add: answers_def)
  show "\<exists>h'. h = chain (global_middleware L) h'" by (rule route_entry [OF assms]) blast
  assume "\<forall>g. \<exists>g1. run_state (crash req) g = (Panicked m, g1) \<and> gBodies g1 = gBodies g"
  then have panics: "\<exists>g1. run_state (crash req) g = (Panicked m, g1) \<and> gBodies g1 = gBodies g" for g by blast
  obtain f g' where run: "run_state (chain (global_middleware L) crash req) (new_gin w) = (f, g')" by fastforce
  from global_panic [OF panics new_gin_sel(4) run] run
  show "\<exists>g' rid. run_state (chain (global_middleware L) crash req) (new_gin w) = (Returned, g') \<and>
        written g' = (500, [abort_body ''INTERNAL_ERROR'' ''internal server error'']) \<and>
        Log_panic m (gqPath req) (gqMethod req) rid \<in> set (gLog g')" by blast
qed

theorem served_once_witness:
  "\<exists>h g' g2. Setup example_outside example_web example_config example_auth example_users_service example_audit (''GET'', ''/auth/me'') = Some h \<and>
     run_state (h (example_request ''GET'' ''/auth/me'' '''')) (new_gin example_world) = (Returned, g') \<and>
     (length (gBodies g') = 1 \<or> gBodies g' = [] \<and> gStatus g' = 204) \<and>
     run_state (chain (global_middleware example_outside) (\<lambda>_. ret (Panicked ''nil map''))
       (example_request ''GET'' ''/auth/me'' '''')) (new_gin example_world) = (Returned, g2) \<and> gStatus g2 = 500"
proof -
  have "\<forall>g. \<exists>g1. run_state ((\<lambda>_. ret (Panicked ''nil map'')) (example_request ''GET'' ''/auth/me'' '''')) g =
      (Panicked ''nil map'', g1) \<and> gBodies g1 = gBodies g" by simp
  with served_once [OF Setup_routes(2), where crash = "\<lambda>_. ret (Panicked ''nil map'')" and m = "''nil map''"
      and req = "example_request ''GET'' ''/auth/me'' ''''" and w = example_world]
    Setup_routes(2)
  show ?thesis by (simp add: written_def) blast
qed

text \<open>C3: no request reaches a handler of \<open>/api/v1\<close>, and so none reads or changes the store there, unless it
  carries a bearer token that parses, at an instant of the request, to a session whose role is among the
  roles of that route; any other request is answered 401 or 403 with the store untouched.\<close>

theorem user_routes_need_role:
  assumes "Setup L W cfg s u repo k = Some h" and "allowed_roles k = Some roles"
    and "run_state (h req) (new_gin w) = (f, g')"
  shows "(\<exists>n c. ticks w \<le> n \<and> n \<le> ticks w + 2 \<and>
      bearer_claims L (AppSecret cfg) PurposeSession (now_at L n) req = Some c \<and> cRole c \<in> set roles) \<or>
    store (gWorld g') = store w \<and> gStatus g' \<in> {401, 403}"
proof -
  obtain h' where h: "h = chain (global_middleware L) h'"
    and h': "(k, h') \<in> set ([((''GET'', ''/health''), probe), ((''GET'', ''/ready''), probe)] @
        setupAuthRoutes L W cfg s @ setupUserRoutes L W cfg u repo)"
    by (rule route_entry [OF assms(1)])
  obtain rest where rest: "h' = RequireAuth L (AppSecret cfg) (RequireRole roles rest)"
    using table_gates [of L cfg W s u repo] h' assms(2) unfolding list_all_iff by fast
  from assms(3) [unfolded h] obtain g0 f1 g1 where run: "run_state (h' req) g0 = (f1, g1)"
    and g0: "store (gWorld g0) = store w" "ticks w \<le> ticks (gWorld g0)" "ticks (gWorld g0) \<le> ticks w + 2"
      "gBodies g0 = []"
    and g': "store (gWorld g') = store (gWorld g1)" "f1 = Returned \<Longrightarrow> written g' = written g1"
    by (rule global_run) auto
  show ?thesis
  proof (cases rule: session_gate [of L "AppSecret cfg" roles rest req g0])
    case (stopped g2)
    with run rest g' g0 show ?thesis by (auto simp: written_def)
  next
    case (passed c)
    with g0 show ?thesis by blast
  qed
qed

theorem user_routes_need_role_witness:
  "\<exists>h f g'. Setup example_outside example_web example_config example_auth example_users_service example_audit (''DELETE'', ''/api/v1/users/:id'') = Some h \<and>
     run_state (h (example_request ''DELETE'' ''/api/v1/users/:id'' '''')) (new_gin example_world) = (f, g') \<and>
     store (gWorld g') = store example_world \<and> gStatus g' \<in> {401, 403}"
proof -
  obtain h where h: "Setup example_outside example_web example_config example_auth example_users_service example_audit (''DELETE'', ''/api/v1/users/:id'') = Some h"
    by (simp add: Setup_def setupAuthRoutes_def setupUserRoutes_def)
  obtain f g' where run: "run_state (h (example_request ''DELETE'' ''/api/v1/users/:id'' '''')) (new_gin example_world) = (f, g')"
    by fastforce
  have roles: "allowed_roles (''DELETE'', ''/api/v1/users/:id'') = Some [RoleSuperAdmin]"
    by (simp add: allowed_roles_def)
  have "extractBearer (example_request ''DELETE'' ''/api/v1/users/:id'' '''') = ''''"
    by (rule extractBearer_example) simp
  with user_routes_need_role [OF h roles run] h run show ?thesis by (auto simp: bearer_claims_def)
qed

section \<open>What an admin session can do\<close>

lemma pgh_Update_role_total:
  assumes good: "single_node (store w)" and u: "users_view (store w) i = Some u"
  shows "\<exists>v. fst (run_state (pgx_users_Update (healthy L) i \<lparr>uuName = None, uuRole = Some RoleSuperAdmin\<rparr>) w) = Inr v"
proof -
  have role: "role_arg RoleSuperAdmin = Inr SuperAdmin" by (simp add: role_arg_def role_defs enum_in_def)
  obtain r where "find (\<lambda>r. c_id r = i) (users (primary (store w))) = Some r"
    using u by (auto simp: users_view_def)
  then show ?thesis
    by (simp add: pgx_users_Update_def run_pg_write_healthy role update_users_def Let_def first_row_filter
        find_update_where)
qed

lemma UserHandler_Update_run:
  assumes "uuid_Parse W (gqParam req ''id'') = Some i" "bind_updateUser W req = Inr r"
  shows "run_state (UserHandler_Update L W s req) g =
    (let (res, w) = run_state (Users_Update s i \<lparr>uuName = uqName r, uuRole = uqRole r\<rparr>) (gWorld g)
     in run_state (send (case res of Inl err \<Rightarrow> Fail err | Inr u \<Rightarrow> Success (userResponse_json (mapUser L W u))))
          (g\<lparr>gWorld := w\<rparr>))"
  using assms by (simp add: UserHandler_Update_def Let_def split: prod.split)

text \<open>C16: on a database that answers, \<open>PATCH /api/v1/users/:id\<close> lets a session with the role admin turn any
  existing account, its own included, into a super admin: the answer is 200 and the stored account has the
  role, active or not as before.\<close>

theorem admin_promotes:
  assumes "Setup (healthy L) W cfg s (NewServices_Users (healthy L) cfg) repo (''PATCH'', ''/api/v1/users/:id'') = Some h"
    and "single_node (store w)" and "users_view (store w) i = Some u"
    and "\<forall>n. ticks w \<le> n \<and> n \<le> ticks w + 2 \<longrightarrow>
      bearer_claims (healthy L) (AppSecret cfg) PurposeSession (now_at L n) req = Some c"
    and "cRole c = RoleAdmin" and "uuid_Parse W (gqParam req ''id'') = Some i"
    and "bind_updateUser W req = Inr \<lparr>uqName = None, uqRole = Some RoleSuperAdmin\<rparr>"
    and "run_state (h req) (new_gin w) = (f, g')"
  shows "gStatus g' = 200 \<and>
    (\<exists>v. users_view (store (gWorld g')) i = Some v \<and> uRole v = RoleSuperAdmin \<and> uIsActive v = uIsActive u)"
proof -
  let ?L = "healthy L" and ?S = "NewServices_Users (healthy L) cfg"
  let ?up = "\<lparr>uuName = None, uuRole = Some RoleSuperAdmin\<rparr> :: UpdateUserParams"
  have h: "h = chain (global_middleware ?L)
      (RequireAuth ?L (AppSecret cfg) (RequireRole [roleAdmin, roleSuperAdmin] (UserHandler_Update ?L W ?S)))"
    using assms(1) unfolding Setup_routes by simp
  from assms(8) [unfolded h] obtain g0 f1 g1 where
    run: "run_state (RequireAuth ?L (AppSecret cfg) (RequireRole [roleAdmin, roleSuperAdmin] (UserHandler_Update ?L W ?S)) req) g0 = (f1, g1)"
    and g0: "store (gWorld g0) = store w" "ticks w \<le> ticks (gWorld g0)" "ticks (gWorld g0) \<le> ticks w + 2"
      "gBodies g0 = []"
    and g': "store (gWorld g') = store (gWorld g1)" "f1 = Returned \<Longrightarrow> written g' = written g1"
    by (rule global_run) auto
  have claims: "bearer_claims ?L (AppSecret cfg) PurposeSession (now_at ?L (ticks (gWorld g0))) req = Some c"
    using assms(4) g0 by simp
  let ?g = "with_claims c (tick_gin g0)"
  have "cRole c \<in> set [roleAdmin, roleSuperAdmin]" using assms(5) by (simp add: role_defs route_role_defs)
  then have run2: "run_state (UserHandler_Update ?L W ?S req) ?g = (f1, g1)"
    using run requirePurpose_pass [OF claims] by (simp add: RequireAuth_def RequireRole_run)
  have good: "single_node (store (gWorld ?g))" and view: "users_view (store (gWorld ?g)) i = Some u"
    using assms(2,3) g0 by simp_all
  obtain r w2 where upd: "run_state (Users_Update ?S i ?up) (gWorld ?g) = (r, w2)" by fastforce
  have "\<not> demotes ?up u" by (simp add: demotes_def)
  then have "\<exists>v. r = Inr v"
  proof -
    obtain w1 where find: "run_state (pgx_users_FindByID ?L i) (gWorld ?g) = (Inr u, w1)" "single_node (store w1)"
        "users_view (store w1) = users_view (store (gWorld ?g))"
      using pgh.find_id [OF good view, of L] by auto
    with pgh_Update_role_total [OF find(2), of i u L] view upd \<open>\<not> demotes ?up u\<close> show ?thesis
      by (simp add: Users_Update_def)
  qed
  then obtain v where r: "r = Inr v" by blast
  with pguh.Update_outcome [OF good upd] view \<open>\<not> demotes ?up u\<close>
  have v: "users_view (store w2) i = Some v" "v\<lparr>uUpdatedAt := 0\<rparr> = (apply_update ?up u)\<lparr>uUpdatedAt := 0\<rparr>" by simp_all
  from v(2) have "uRole v = RoleSuperAdmin" "uIsActive v = uIsActive u"
    by (cases u; cases v; simp add: apply_update_def)+
  moreover have "f1 = Returned" "store (gWorld g1) = store w2" "gStatus g1 = 200"
    using run2 upd r g0 by (auto simp: UserHandler_Update_run [OF assms(6,7)])
  ultimately show ?thesis using g' v(1) by (auto simp: written_def)
qed

text \<open>An example session: the token of an issued session, and the claims it gives for an hour.\<close>

lemma example_session:
  obtains tok c where
    "IssueSessionToken example_jwt 0 secret u email role perms time_Hour = (Inr tok, time_Add 0 time_Hour)"
    "list_all is_digit tok" "tok \<noteq> ''''" "cUserID c = u" "cRole c = role"
    "\<And>n m path. role \<noteq> '''' \<Longrightarrow> n < 3600 \<Longrightarrow>
       bearer_claims example_outside secret PurposeSession (int n) (example_request m path tok) = Some c"
proof -
  let ?c = "\<lparr>cSubject = UUID_String example_jwt u, cIssuedAt = Some (NewNumericDate example_jwt 0),
     cExpiresAt = Some (NewNumericDate example_jwt (time_Add 0 time_Hour)), cUserID = u, cEmail = email,
     cRole = role, cPermissions = perms, cPurpose = PurposeSession\<rparr>"
  define tok where "tok = spell secret ?c"
  have sign: "Sign example_jwt secret ?c = Inr tok" "list_all is_digit tok" "tok \<noteq> ''''"
    using example_Sign [of secret ?c] by (simp_all add: tok_def)
  have exp: "NewNumericDate example_jwt (time_Add 0 time_Hour) = 3600000000000"
    by (simp add: example_jwt_def time_Add_def time_Hour_def)
  have "Parse example_jwt (int n) tok secret = Inr ?c" if "n < 3600" for n
    using Parse_Sign [OF jwt_laws_example sign(1), of "time_Add 0 time_Hour" u "int n"] that exp by simp
  then have "bearer_claims example_outside secret PurposeSession (int n) (example_request m path tok) = Some ?c"
    if "role \<noteq> ''''" "n < 3600" for n m path
    using extractBearer_example [OF sign(2)] sign(3) that by (simp add: bearer_claims_def)
  with sign show thesis
    by (intro that [of tok ?c]) (simp_all add: IssueSessionToken_def Let_def)
qed

theorem admin_promotes_witness:
  "\<exists>tok h f g'. Setup example_outside example_web example_config example_auth example_users_service example_audit (''PATCH'', ''/api/v1/users/:id'') = Some h \<and>
     run_state (h (example_request ''PATCH'' ''/api/v1/users/:id'' tok)) (new_gin example_world) = (f, g') \<and>
     gStatus g' = 200 \<and> (\<exists>v. users_view (store (gWorld g')) 2 = Some v \<and> uRole v = RoleSuperAdmin)"
proof -
  obtain tok c where "cRole c = RoleAdmin"
    and c: "\<And>n m path. n < 3600 \<Longrightarrow> bearer_claims example_outside (AppSecret example_config) PurposeSession (int n)
        (example_request m path tok) = Some c"
    using example_session [of "AppSecret example_config" 2 "''ann@x''" RoleAdmin "[]"] by (metis role_defs(2) list.simps(3))
  let ?req = "example_request ''PATCH'' ''/api/v1/users/:id'' tok"
  obtain h where h: "Setup example_outside example_web example_config example_auth example_users_service example_audit (''PATCH'', ''/api/v1/users/:id'') = Some h"
    by (simp add: Setup_routes)
  obtain f g' where run: "run_state (h ?req) (new_gin example_world) = (f, g')" by fastforce
  have bind: "bind_updateUser example_web ?req = Inr \<lparr>uqName = None, uqRole = Some RoleSuperAdmin\<rparr>"
    "uuid_Parse example_web (gqParam ?req ''id'') = Some 2"
    by (simp_all add: bind_updateUser_def ShouldBindJSON_def example_web_def)
  have "gStatus g' = 200 \<and> (\<exists>v. users_view (store (gWorld g')) 2 = Some v \<and> uRole v = RoleSuperAdmin \<and>
      uIsActive v = uIsActive (scanUser (example_row 2 ''ann@x'' Member True)))"
    by (rule admin_promotes [where L = example_outside, unfolded healthy_example,
          OF h example_good example_users(2) _ \<open>cRole c = RoleAdmin\<close> bind(2,1) run])
      (use c in simp)
  with h run show ?thesis by blast
qed

section \<open>Sessions\<close>

text \<open>C24: on a database that answers, \<open>GET /auth/me\<close> with a session token that was issued for an account and has not
  expired is answered 200 with the stored profile and changes no account, whatever has happened to the
  account since the token was issued, also when it has been deactivated.\<close>

theorem session_outlives_deactivation:
  assumes "Setup (healthy L) W cfg (NewServices_Auth (healthy L) cfg) s repo (''GET'', ''/auth/me'') = Some h"
    and "single_node (store w)" and "users_view (store w) i = Some u"
    and "jwt_laws (jwt L)"
    and "IssueSessionToken (jwt L) t (AppSecret cfg) i email role perms ttl = (Inr tok, expiry)" and "role \<noteq> ''''"
    and "extractBearer req = tok" and "tok \<noteq> ''''"
    and "\<forall>n. ticks w \<le> n \<and> n \<le> ticks w + 2 \<longrightarrow> now_at L n < NewNumericDate (jwt L) expiry"
    and "run_state (h req) (new_gin w) = (f, g')"
  shows "written g' = (200, [the (rBody (Success (Me_json (healthy L) u)))]) \<and>
    users_view (store (gWorld g')) = users_view (store w)"
proof -
  let ?L = "healthy L" and ?S = "NewServices_Auth (healthy L) cfg"
  have h: "h = chain (global_middleware ?L) (RequireAuth ?L (AppSecret cfg) (AuthHandler_Me ?L ?S))"
    using assms(1) unfolding Setup_routes by simp
  from assms(10) [unfolded h] obtain g0 f1 g1 where
    run: "run_state (RequireAuth ?L (AppSecret cfg) (AuthHandler_Me ?L ?S) req) g0 = (f1, g1)"
    and g0: "store (gWorld g0) = store w" "ticks w \<le> ticks (gWorld g0)" "ticks (gWorld g0) \<le> ticks w + 2"
      "gBodies g0 = []"
    and g': "store (gWorld g') = store (gWorld g1)" "f1 = Returned \<Longrightarrow> written g' = written g1"
    by (rule global_run) auto
  have now: "now_at L (ticks (gWorld g0)) < NewNumericDate (jwt L) expiry" using assms(9) g0 by simp
  obtain c where parse: "Parse (jwt L) (now_at L (ticks (gWorld g0))) tok (AppSecret cfg) = Inr c"
    using Parse_Sign [OF assms(4), of "AppSecret cfg" _ tok expiry i "now_at L (ticks (gWorld g0))"] assms(5) now
    by (auto simp: IssueSessionToken_def Let_def)
  from issued_session [OF assms(4,5) this] have c: "cUserID c = i" "cRole c = role" "cPurpose c = PurposeSession"
    by simp_all
  have claims: "bearer_claims ?L (AppSecret cfg) PurposeSession (now_at ?L (ticks (gWorld g0))) req = Some c"
    using parse c assms(6-8) by (simp add: bearer_claims_def)
  let ?g = "with_claims c (tick_gin g0)"
  have run2: "run_state (AuthHandler_Me ?L ?S req) ?g = (f1, g1)"
    using run requirePurpose_pass [OF claims] by (simp add: RequireAuth_def)
  have good: "single_node (store (gWorld ?g))" and view: "users_view (store (gWorld ?g)) i = Some u"
    using assms(2,3) g0 by simp_all
  obtain w1 where find: "run_state (pgx_users_FindByID ?L i) (gWorld ?g) = (Inr u, w1)"
      "users_view (store w1) = users_view (store (gWorld ?g))"
    using pgh.find_id [OF good view, of L] by auto
  have "f1 = Returned" "written g1 = (200, [the (rBody (Success (Me_json ?L u)))])" "store (gWorld g1) = store w1"
    using run2 find c(1) g0 by (auto simp: AuthHandler_Me_def Auth_Me_def written_def response_defs)
  with g' find(2) g0 show ?thesis by simp
qed

theorem session_outlives_deactivation_witness:
  "\<exists>tok h f g'. Setup example_outside example_web example_config example_auth example_users_service example_audit
       (''GET'', ''/auth/me'') = Some h \<and>
     run_state (h (example_request ''GET'' ''/auth/me'' tok)) (new_gin example_world) = (f, g') \<and>
     \<not> uIsActive (scanUser (example_row 3 ''new@x'' Member False)) \<and>
     written g' = (200, [the (rBody (Success (Me_json example_outside (scanUser (example_row 3 ''new@x'' Member False)))))])"
proof -
  obtain tok c where tok:
      "IssueSessionToken example_jwt 0 (AppSecret example_config) 3 ''new@x'' RoleMember [] time_Hour = (Inr tok, time_Add 0 time_Hour)"
      "list_all is_digit tok" "tok \<noteq> ''''"
    by (rule example_session [of "AppSecret example_config" 3 "''new@x''" RoleMember "[]"])
  let ?req = "example_request ''GET'' ''/auth/me'' tok"
  obtain h where h: "Setup example_outside example_web example_config example_auth example_users_service example_audit
      (''GET'', ''/auth/me'') = Some h" by (simp add: Setup_routes)
  obtain f g' where run: "run_state (h ?req) (new_gin example_world) = (f, g')" by fastforce
  have role: "RoleMember \<noteq> ''''" by (simp add: role_defs)
  have exp: "NewNumericDate example_jwt (time_Add 0 time_Hour) = 3600000000000"
    by (simp add: example_jwt_def time_Add_def time_Hour_def)
  have "written g' = (200, [the (rBody (Success (Me_json example_outside (scanUser (example_row 3 ''new@x'' Member False)))))]) \<and>
      users_view (store (gWorld g')) = users_view (store example_world)"
    by (rule session_outlives_deactivation [where L = example_outside, unfolded healthy_example example_outside_simps,
          OF h example_good example_users(3) jwt_laws_example tok(1) role extractBearer_example [OF tok(2)] tok(3) _ run])
      (simp add: exp)
  with h run show ?thesis by (auto simp: example_row_def)
qed

section \<open>Enumeration\<close>

lemma checkRateLimit_local:
  assumes "ticks w' = ticks w" "redis_log w' = redis_log w"
  shows "fst (run_state (checkRateLimit L key limit window) w') = fst (run_state (checkRateLimit L key limit window) w)"
  using assms
  by (auto simp: checkRateLimit_def rdb_Incr_def rdb_Expire_def Let_def split: fault.splits sum.splits)

lemma forgot_route_run:
  assumes "bind_forgotPassword W req = Inr r" "gBodies g = []"
  shows "\<exists>g'. run_state (RateLimit L ns limit window (AuthHandler_ForgotPassword L W s) req) g = (Returned, g') \<and>
    written g' =
     (case fst (run_state (checkRateLimit L (''rate:'' @ (if ns = '''' then ''default'' else ns) @ '':'' @ gqClientIP req)
             limit window) (gWorld g)) of
        (_, allowed, err) \<Rightarrow>
          if err \<noteq> None \<or> allowed
          then (200, [the (rBody (Success (JObject [(''message'',
                 JString ''if that email is registered, you will receive a reset code shortly'')])))])
          else (429, [abort_body ''TOO_MANY_REQUESTS'' (''rate limit exceeded '' @ em_dash @ '' please slow down'')]))"
  using assms
  by (auto simp: RateLimit_def AuthHandler_ForgotPassword_def Let_def written_def response_defs split: prod.splits)

text \<open>C25: what \<open>POST /auth/forgot-password\<close> answers to a well-formed body does not depend on the email in it or
  on anything in the store: two such requests from one client address, at the same point of the rate
  limit, get the same status and body, whether the account exists or not and whether the service failed or
  not.\<close>

theorem ForgotPassword_uniform:
  assumes "bind_forgotPassword W req = Inr r" and "bind_forgotPassword W req' = Inr r'"
    and "gqClientIP req' = gqClientIP req" and "gBodies g = []" and "gBodies g' = []"
    and "ticks (gWorld g') = ticks (gWorld g)" and "redis_log (gWorld g') = redis_log (gWorld g)"
    and "run_state (RateLimit L ''auth:forgot-password'' 10 time_Minute (AuthHandler_ForgotPassword L W s) req) g = (f, g1)"
    and "run_state (RateLimit L ''auth:forgot-password'' 10 time_Minute (AuthHandler_ForgotPassword L W s') req') g' = (f', g1')"
  shows "f' = f \<and> written g1' = written g1"
proof -
  note A = forgot_route_run [OF assms(1,4), of L "''auth:forgot-password''" 10 time_Minute s]
  note B = forgot_route_run [OF assms(2,5), of L "''auth:forgot-password''" 10 time_Minute s']
  have "fst (run_state (checkRateLimit L key limit window) (gWorld g')) =
      fst (run_state (checkRateLimit L key limit window) (gWorld g))" for key limit window
    by (rule checkRateLimit_local [OF assms(6,7)])
  with A B assms(3,8,9) show ?thesis by auto
qed

theorem ForgotPassword_uniform_witness:
  "\<exists>f g1 f' g1'.
     run_state (RateLimit example_outside ''auth:forgot-password'' 10 time_Minute
       (AuthHandler_ForgotPassword example_outside example_web (NewServices_Auth example_outside example_config))
       (example_request ''POST'' ''/a'' '''')) (new_gin example_world) = (f, g1) \<and>
     run_state (RateLimit example_outside ''auth:forgot-password'' 10 time_Minute
       (AuthHandler_ForgotPassword example_outside example_web (NewServices_Auth example_outside example_config))
       ((example_request ''POST'' ''/a'' '''')\<lparr>gqBody := ''nobody@x''\<rparr>)) (new_gin example_world) = (f', g1') \<and>
     written g1' = written g1"
proof -
  let ?m = "\<lambda>req. RateLimit example_outside ''auth:forgot-password'' 10 time_Minute
       (AuthHandler_ForgotPassword example_outside example_web (NewServices_Auth example_outside example_config)) req"
  let ?r = "example_request ''POST'' ''/a'' ''''"
  let ?r' = "?r\<lparr>gqBody := ''nobody@x''\<rparr>"
  obtain f g1 f' g1' where run: "run_state (?m ?r) (new_gin example_world) = (f, g1)"
      "run_state (?m ?r') (new_gin example_world) = (f', g1')" by fastforce
  have "bind_forgotPassword example_web ?r = Inr \<lparr>fpEmail = ''{}''\<rparr>"
    "bind_forgotPassword example_web ?r' = Inr \<lparr>fpEmail = ''nobody@x''\<rparr>" "gqClientIP ?r' = gqClientIP ?r"
    by (simp_all add: bind_forgotPassword_def ShouldBindJSON_def example_web_def example_request_def)
  from ForgotPassword_uniform [OF this _ _ _ _ run] run show ?thesis by auto
qed

section \<open>Two readings of one header\<close>

text \<open>C34: behind the middleware the three endpoints of the purpose tokens read the header again, more
  strictly: a request whose header the middleware has accepted (it takes the scheme in any case and trims
  the token) is answered 401 all the same unless the header starts with exactly \<open>Bearer\<close> and a space, and
  the service is not called.\<close>

theorem strict_bearer:
  assumes "bearer_claims L secret p (now_at L (ticks (gWorld g))) req = Some c" and "gBodies g = []"
    and "take 7 (gqHeader req ''Authorization'') \<noteq> ''Bearer ''"
    and "h \<in> {AuthHandler_SetupTOTP L s, AuthHandler_ConfirmTOTP L W s, AuthHandler_CompletePasswordReset L W s}"
  shows "\<exists>g'. run_state (RequirePurpose L secret p h req) g = (Returned, g') \<and>
    written g' = written (write_response 401 [the (rBody (Fail (Sentinel ErrUnauthorized)))] g) \<and>
    store (gWorld g') = store (gWorld g)"
proof -
  have none: "extractSetupToken req = ''''" using assms(3) by (simp add: extractSetupToken_def Let_def)
  have body: "rBody (Fail (Sentinel ErrUnauthorized)) = Some (the (rBody (Fail (Sentinel ErrUnauthorized))))" by simp
  have "run_state (h req) (with_claims c (tick_gin g)) =
      (Returned, write_response 401 [the (rBody (Fail (Sentinel ErrUnauthorized)))] (with_claims c (tick_gin g)))"
    using assms(4) none body
    by (auto simp: AuthHandler_SetupTOTP_def AuthHandler_ConfirmTOTP_def AuthHandler_CompletePasswordReset_def
        split: option.split)
  with assms(2) show ?thesis
    by (simp add: RequirePurpose_def requirePurpose_pass [OF assms(1)] written_def)
qed

theorem strict_bearer_witness:
  "\<exists>tok c. bearer_claims example_outside ''k'' PurposeTOTPSetup 0
       ((example_request ''POST'' ''/auth/totp/setup'' tok)\<lparr>gqHeader := (\<lambda>_. ''bearer '' @ tok)\<rparr>) = Some c \<and>
     (\<exists>g'. run_state (RequirePurpose example_outside ''k'' PurposeTOTPSetup (AuthHandler_SetupTOTP example_outside example_auth)
       ((example_request ''POST'' ''/auth/totp/setup'' tok)\<lparr>gqHeader := (\<lambda>_. ''bearer '' @ tok)\<rparr>)) (new_gin example_world) =
       (Returned, g') \<and> gStatus g' = 401)"
proof -
  obtain tok where tok: "IssuePurposeToken example_jwt 0 ''k'' 7 ''a@b'' PurposeTOTPSetup time_Hour = Inr tok"
      "list_all is_digit tok" "tok \<noteq> ''''"
    unfolding IssuePurposeToken_def using example_Sign by blast
  let ?req = "(example_request ''POST'' ''/auth/totp/setup'' tok)\<lparr>gqHeader := (\<lambda>_. ''bearer '' @ tok)\<rparr>"
  have bearer: "extractBearer ?req = tok"
  proof -
    have "TrimSpace tok = tok" by (rule trimmed_TrimSpace [OF digits_trimmed [OF tok(2)]])
    moreover have "EqualFold ''bearer'' ''bearer''" by code_simp
    ultimately show ?thesis by (simp add: extractBearer_def)
  qed
  have "NewNumericDate example_jwt (time_Add 0 time_Hour) = 3600000000000"
    by (simp add: example_jwt_def time_Add_def time_Hour_def)
  then obtain c where "Parse example_jwt 0 tok ''k'' = Inr c" "cPurpose c = PurposeTOTPSetup"
    using Parse_Sign [OF jwt_laws_example tok(1) [unfolded IssuePurposeToken_def], of "time_Add 0 time_Hour" 7 0]
    by auto
  then have claims: "bearer_claims example_outside ''k'' PurposeTOTPSetup 0 ?req = Some c"
    using bearer tok(3) by (simp add: bearer_claims_def purpose_defs)
  have take: "take 7 (gqHeader ?req ''Authorization'') \<noteq> ''Bearer ''" by simp
  have "\<exists>g'. run_state (RequirePurpose example_outside ''k'' PurposeTOTPSetup (AuthHandler_SetupTOTP example_outside example_auth) ?req)
      (new_gin example_world) = (Returned, g') \<and>
    written g' = written (write_response 401 [the (rBody (Fail (Sentinel ErrUnauthorized)))] (new_gin example_world)) \<and>
    store (gWorld g') = store (gWorld (new_gin example_world))"
    by (rule strict_bearer [where s = example_auth and W = example_web, OF _ _ take]) (use claims in simp_all)
  with claims show ?thesis
    by (intro exI [of _ tok] exI [of _ c] conjI) (auto simp: written_def)
qed

end
