(* ===== verification/BootFacts.thy ===== *)
theory BootFacts
  imports Bootstrap RouteFacts
begin

text \<open>
  What the start and the end of a process guarantee: which connections each path leaves open, what an
  application that started has, and how the three commands end.
\<close>

section \<open>Connections\<close>

text \<open>The numbers of open connections have been handed out, so that a new one never names an old one.\<close>

definition handed_out :: "proc \<Rightarrow> bool" where
  "handed_out p \<longleftrightarrow> (\<forall>h \<in> fst ` set (pOpen p). h < pCalls p)"

definition opened :: "(nat \<times> resource) list \<Rightarrow> proc \<Rightarrow> proc \<Rightarrow> bool" where
  "opened rs p q \<longleftrightarrow> pOpen q = pOpen p @ rs \<and> pCalls p \<le> pCalls q \<and>
     (\<forall>h \<in> fst ` set rs. pCalls p \<le> h \<and> h < pCalls q)"

lemma opened_refl [simp]: "opened [] p p"
  by (simp add: opened_def)

lemma opened_trans: "opened rs p q \<Longrightarrow> opened ss q t \<Longrightarrow> opened (rs @ ss) p t"
  by (fastforce simp: opened_def)

lemma opened_handed_out: "handed_out p \<Longrightarrow> opened rs p q \<Longrightarrow> handed_out q"
  by (fastforce simp: opened_def handed_out_def)

lemma opened_pOpen: "opened rs p q \<Longrightarrow> pOpen q = pOpen p @ rs"
  by (simp add: opened_def)

lemma opened_simps [simp]:
  "opened rs p (q\<lparr>pWorld := w\<rparr>) = opened rs p q"
  "opened rs p (q\<lparr>pRelease := b\<rparr>) = opened rs p q"
  "handed_out (q\<lparr>pWorld := w\<rparr>) = handed_out q"
  by (simp_all add: opened_def handed_out_def)

lemma opened_call: "opened rs p q \<Longrightarrow> opened rs p (q\<lparr>pCalls := Suc (pCalls q)\<rparr>)"
  by (fastforce simp: opened_def)

definition closing :: "nat set \<Rightarrow> proc \<Rightarrow> proc" where
  "closing H p = p\<lparr>pOpen := filter (\<lambda>kr. fst kr \<notin> H) (pOpen p)\<rparr>"

lemma closing_closing [simp]: "closing H (closing G p) = closing (G \<union> H) p"
  by (auto simp: closing_def intro!: arg_cong [where f = "\<lambda>xs. p\<lparr>pOpen := xs\<rparr>"] filter_cong)

lemma closing_empty [simp]: "closing {} p = p"
  by (simp add: closing_def)

lemma closing_sel [simp]: "pWorld (closing H p) = pWorld p" "pCalls (closing H p) = pCalls p"
  by (simp_all add: closing_def)

text \<open>Closing what was opened brings back what was open before; the rest of it stays.\<close>

lemma opened_closing:
  assumes "handed_out p" "opened rs p q" "opened ss q t" "H = fst ` set rs"
  shows "opened ss p (closing H t)"
proof -
  have "\<forall>h \<in> H. pCalls p \<le> h \<and> h < pCalls q" using assms(2,4) by (auto simp: opened_def)
  then have "\<forall>kr \<in> set (pOpen p). fst kr \<notin> H" "\<forall>kr \<in> set ss. fst kr \<notin> H"
    using assms(1,3) by (fastforce simp: handed_out_def opened_def)+
  then have "filter (\<lambda>kr. fst kr \<notin> H) (pOpen p) = pOpen p" "filter (\<lambda>kr. fst kr \<notin> H) ss = ss"
    by (simp_all add: filter_id_conv)
  moreover have "filter (\<lambda>kr. fst kr \<notin> H) rs = []" using assms(4) by (simp add: filter_empty_conv)
  ultimately show ?thesis using assms(2,3) by (auto simp: opened_def closing_def)
qed

lemmas opened_closing_all = opened_closing [OF _ _ opened_refl]

section \<open>Runs\<close>

lemma run_infra_call [simp]: "run_state infra_call p = (pCalls p, p\<lparr>pCalls := Suc (pCalls p)\<rparr>)"
  by (simp add: infra_call_def)

lemma run_acquire [simp]: "run_state (acquire h r) p = ((), p\<lparr>pOpen := pOpen p @ [(h, r)]\<rparr>)"
  by (simp add: acquire_def State_Monad.update_def)

lemma run_release [simp]: "run_state (release h) p = ((), closing {h} p)"
  by (simp add: release_def State_Monad.update_def closing_def case_prod_beta')

lemma run_release_all [simp]: "run_state (release_all hs) p = ((), closing (set hs) p)"
  by (induction hs arbitrary: p) simp_all

lemma run_in_world [simp]:
  "run_state (in_world m) p = (fst (run_state m (pWorld p)), p\<lparr>pWorld := snd (run_state m (pWorld p))\<rparr>)"
  by (simp add: in_world_def split: prod.split)

lemma run_update [simp]: "run_state (State_Monad.update f) p = ((), f p)"
  by (simp add: State_Monad.update_def)

lemma run_DB_Close [simp]:
  "run_state (DB_Close (Some d)) p = ((), closing (set (dbRead d) \<union> set_option (dbWrite d)) p)"
  by (cases "dbWrite d") (simp_all add: DB_Close_def)

lemma connectPool_run:
  assumes "handed_out p" "run_state (connectPool I dsn) p = (r, q)"
  shows "opened (case r of Inl _ \<Rightarrow> [] | Inr h \<Rightarrow> [(h, RPool dsn)]) p q \<and> pWorld q = pWorld p"
proof -
  have "filter (\<lambda>kr. fst kr \<noteq> pCalls p) (pOpen p) = pOpen p"
    using assms(1) by (force simp: handed_out_def filter_id_conv)
  then show ?thesis using assms(2) by (auto simp: connectPool_def opened_def closing_def split: option.splits)
qed

lemma fst_zip_pools: "length hs = length us \<Longrightarrow> fst ` set (zip hs (map RPool us)) = set hs"
  by (metis length_map list.set_map map_fst_zip)

lemma connect_readers_run:
  assumes "handed_out p" "opened ((w, RPool url) # zip readers (map RPool us)) p q" "length readers = length us"
    and "run_state (connect_readers I w readers i urls) q = (r, t)"
  shows "pWorld t = pWorld q \<and>
    (case r of
       Inl _ \<Rightarrow> opened [] p t
     | Inr hs \<Rightarrow> opened ((w, RPool url) # zip hs (map RPool (us @ urls))) p t \<and> length hs = length (us @ urls))"
  using assms(2-4)
proof (induction urls arbitrary: readers us i q)
  case (Cons u urls)
  have hq: "handed_out q" by (rule opened_handed_out [OF assms(1) Cons.prems(1)])
  obtain c v where conn: "run_state (connectPool I u) q = (c, v)" by fastforce
  note C = connectPool_run [OF hq conn]
  show ?case
  proof (cases c)
    case (Inl err)
    then have "opened ((w, RPool url) # zip readers (map RPool us)) p v"
      using opened_trans [OF Cons.prems(1)] C by force
    from opened_closing_all [OF assms(1) this, of "insert w (set readers)"] Cons.prems(2)
    have "opened [] p (closing (insert w (set readers)) v)" by (simp add: fst_zip_pools)
    with Cons.prems(3) conn Inl C show ?thesis by auto
  next
    case (Inr h)
    have "opened (((w, RPool url) # zip readers (map RPool us)) @ [(h, RPool u)]) p v"
      using opened_trans [OF Cons.prems(1)] C Inr by force
    then have "opened ((w, RPool url) # zip (readers @ [h]) (map RPool (us @ [u]))) p v"
      using Cons.prems(2) by simp
    from Cons.IH [OF this, of "Suc i"] Cons.prems(2,3) conn Inr C show ?thesis by (cases r) simp_all
  qed
qed auto


definition pool_handles :: "pools \<Rightarrow> nat set" where
  "pool_handles d = set (dbRead d) \<union> set_option (dbWrite d)"

definition connections :: "string \<Rightarrow> string list \<Rightarrow> pools \<Rightarrow> (nat \<times> resource) list" where
  "connections writeURL readURLs d =
     (case dbWrite d of
        None \<Rightarrow> []
      | Some w \<Rightarrow> (w, RPool writeURL) # zip (dbRead d) (map RPool readURLs))"

lemma Connect_run:
  assumes "handed_out p" "run_state (Connect I writeURL readURLs) p = (r, q)"
  shows "case r of
      Inl _ \<Rightarrow> opened [] p q
    | Inr d \<Rightarrow> opened (connections writeURL readURLs d) p q \<and> dbWrite d \<noteq> None \<and>
        length (dbRead d) = length readURLs \<and> pool_handles d = fst ` set (connections writeURL readURLs d) \<and>
        store (pWorld q) = \<lparr>primary = tables_at I writeURL, replicas = map (tables_at I) readURLs, rr = 0\<rparr>"
proof -
  obtain c v where conn: "run_state (connectPool I writeURL) p = (c, v)" by fastforce
  note C = connectPool_run [OF assms(1) conn]
  show ?thesis
  proof (cases c)
    case (Inl err)
    with assms(2) conn C show ?thesis by (auto simp: Connect_def)
  next
    case (Inr w)
    obtain rs t where readers: "run_state (connect_readers I w [] 0 readURLs) v = (rs, t)" by fastforce
    from C Inr have "opened ((w, RPool writeURL) # zip [] (map RPool [])) p v" by simp
    note R = connect_readers_run [OF assms(1) this _ readers, simplified]
    show ?thesis
    proof (cases rs)
      case (Inl err)
      with assms(2) conn \<open>c = Inr w\<close> readers R show ?thesis by (auto simp: Connect_def)
    next
      case (Inr hs)
      with assms(2) conn \<open>c = Inr w\<close> readers have "r = Inr \<lparr>dbWrite = Some w, dbRead = hs\<rparr>"
        and "q = t\<lparr>pWorld := (pWorld t)\<lparr>store := \<lparr>primary = tables_at I writeURL,
               replicas = map (tables_at I) readURLs, rr = 0\<rparr>\<rparr>\<rparr>"
        by (simp_all add: Connect_def)
      with Inr R show ?thesis by (simp add: connections_def pool_handles_def fst_zip_pools)
    qed
  qed
qed

lemma runMigrations_run:
  assumes "handed_out p" "run_state (runMigrations I dsn) p = (e, q)"
  shows "opened [] p q \<and> replicas (store (pWorld q)) = replicas (store (pWorld p)) \<and>
    rr (store (pWorld q)) = rr (store (pWorld p)) \<and>
    (e = None \<longrightarrow> primary (store (pWorld q)) = snd (goose_Up I (Suc (pCalls p)) (primary (store (pWorld p)))))"
proof -
  have "filter (\<lambda>kr. fst kr \<noteq> pCalls p) (pOpen p) = pOpen p"
    using assms(1) by (force simp: handed_out_def filter_id_conv)
  then show ?thesis
    using assms(2)
    by (auto simp: runMigrations_def opened_def closing_def split: option.splits prod.splits)
qed

lemma ConnectRedis_run:
  assumes "run_state (ConnectRedis I url) p = (r, q)"
  shows "pWorld q = pWorld p \<and>
    (case r of
       Inl _ \<Rightarrow> opened [] p q \<or> (\<exists>h m. opened [(h, RRedis url)] p q \<and> redis_Ping I m url \<noteq> None)
     | Inr h \<Rightarrow> opened [(h, RRedis url)] p q)"
proof (cases "redis_ParseURL I url")
  case None
  with assms show ?thesis
    by (cases "redis_Ping I (Suc (pCalls p)) url") (auto simp: ConnectRedis_def opened_def intro!: exI [of _ "Suc (pCalls p)"])
qed (use assms in \<open>auto simp: ConnectRedis_def\<close>)


section \<open>The start\<close>

text \<open>What an application that has started is made of.\<close>

definition started :: "infra \<Rightarrow> outside \<Rightarrow> web \<Rightarrow> Config \<Rightarrow> App \<Rightarrow> bool" where
  "started I L W cfg a \<longleftrightarrow>
     Load (strconv_Quote I) (env_Parse I) = Inr cfg \<and> appConfig a = cfg \<and>
     appRouter a = Setup L W cfg (NewServices_Auth L cfg) (NewServices_Users L cfg) (NewAuditRepository L) \<and>
     wkJobs (appJobs a) = [] \<and> scJobs (appSched a) = [cleanup_job L] \<and>
     map_option srvHandler (appServer a) = Some (appRouter a) \<and>
     map_option srvAddr (appServer a) = Some ('':'' @ HTTPPort cfg)"

lemma NewServices_eq [simp]:
  "svAuth (NewServices (NewRepositories L) cfg) = NewServices_Auth L cfg"
  "svUsers (NewServices (NewRepositories L) cfg) = NewServices_Users L cfg"
  "rpUsers (NewRepositories L) = NewUserRepository L"
  "rpAudit (NewRepositories L) = NewAuditRepository L"
  "rpPasswordResets (NewRepositories L) = NewPasswordResetRepository L"
  by (simp_all add: NewServices_def NewRepositories_def NewServices_Auth_def NewServices_Users_def)

text \<open>The runs of \<open>New\<close> that give an application, and those that give up.\<close>

lemma New_Inr:
  assumes "run_state (New I L W) p = (Inr a, q)"
  obtains cfg d p1 p2 c p3 rel
  where "run_state (Connect I (DatabaseWriteURL cfg) (ReadDSNs cfg)) p = (Inr d, p1)"
    and "run_state (runMigrations I (DatabaseWriteURL cfg)) p1 = (None, p2)"
    and "run_state (ConnectRedis I (RedisURL cfg)) p2 = (Inr c, p3)"
    and "fst (run_state (EnsureBootstrapAdmin L cfg (NewUserRepository L)) (pWorld p3)) = None"
    and "q = p3\<lparr>pWorld := snd (run_state (EnsureBootstrapAdmin L cfg (NewUserRepository L)) (pWorld p3)),
               pRelease := rel\<rparr>"
    and "appDB a = Some d" "appRedis a = Some c" "started I L W cfg a"
  using assms
  by (auto simp: New_def started_def cleanup_job_def NewScheduler_def Every_def Worker_New_def Let_def
      split: sum.splits option.splits prod.splits)

lemma New_Inl:
  assumes "run_state (New I L W) p = (Inl err, q)"
  obtains "q = p"
  | cfg e where "run_state (Connect I (DatabaseWriteURL cfg) (ReadDSNs cfg)) p = (Inl e, q)"
  | cfg d p1 e p2 where "run_state (Connect I (DatabaseWriteURL cfg) (ReadDSNs cfg)) p = (Inr d, p1)"
      and "run_state (runMigrations I (DatabaseWriteURL cfg)) p1 = (Some e, p2)"
      and "q = closing (pool_handles d) p2"
  | cfg d p1 p2 e p3 where "run_state (Connect I (DatabaseWriteURL cfg) (ReadDSNs cfg)) p = (Inr d, p1)"
      and "run_state (runMigrations I (DatabaseWriteURL cfg)) p1 = (None, p2)"
      and "run_state (ConnectRedis I (RedisURL cfg)) p2 = (Inl e, p3)"
      and "q = closing (pool_handles d) p3"
  | cfg d p1 p2 c p3 w' where "run_state (Connect I (DatabaseWriteURL cfg) (ReadDSNs cfg)) p = (Inr d, p1)"
      and "run_state (runMigrations I (DatabaseWriteURL cfg)) p1 = (None, p2)"
      and "run_state (ConnectRedis I (RedisURL cfg)) p2 = (Inr c, p3)"
      and "q = closing (pool_handles d \<union> {c}) (p3\<lparr>pWorld := w'\<rparr>)"
  using assms
  by (auto simp: New_def Let_def pool_handles_def split: sum.splits option.splits prod.splits)


definition app_connections :: "App \<Rightarrow> (nat \<times> resource) list" where
  "app_connections a =
     connections (DatabaseWriteURL (appConfig a)) (ReadDSNs (appConfig a)) (the (appDB a)) @
     [(the (appRedis a), RRedis (RedisURL (appConfig a)))]"

lemma New_gives_up:
  assumes fresh: "handed_out p" and run: "run_state (New I L W) p = (Inl err, q)"
  shows "opened [] p q \<or> (\<exists>h m url. opened [(h, RRedis url)] p q \<and> redis_Ping I m url \<noteq> None)"
proof -
  have migrated: "opened (connections (DatabaseWriteURL cfg) (ReadDSNs cfg) d) p p2 \<and>
      pool_handles d = fst ` set (connections (DatabaseWriteURL cfg) (ReadDSNs cfg) d)"
    if db: "run_state (Connect I (DatabaseWriteURL cfg) (ReadDSNs cfg)) p = (Inr d, p1)"
      and mig: "run_state (runMigrations I (DatabaseWriteURL cfg)) p1 = (e, p2)" for cfg d p1 e p2
  proof -
    from Connect_run [OF fresh db] have o1: "opened (connections (DatabaseWriteURL cfg) (ReadDSNs cfg) d) p p1"
      and h: "pool_handles d = fst ` set (connections (DatabaseWriteURL cfg) (ReadDSNs cfg) d)" by auto
    have "opened [] p1 p2" using runMigrations_run [OF opened_handed_out [OF fresh o1] mig] by simp
    with opened_trans [OF o1 this] h show ?thesis by simp
  qed
  from run show ?thesis
  proof (cases rule: New_Inl)
    case 1
    then show ?thesis by simp
  next
    case (2 cfg e)
    then show ?thesis using Connect_run [OF fresh 2] by simp
  next
    case (3 cfg d p1 e p2)
    with migrated [OF 3(1,2)] opened_closing_all [OF fresh, of _ p2] show ?thesis by metis
  next
    case (4 cfg d p1 p2 e p3)
    have "opened ss p q" if "opened ss p2 p3" for ss
      using opened_closing [OF fresh _ that] migrated [OF 4(1,2)] 4(4) by metis
    with ConnectRedis_run [OF 4(3)] show ?thesis by (simp, metis)
  next
    case (5 cfg d p1 p2 c p3 w')
    let ?cs = "connections (DatabaseWriteURL cfg) (ReadDSNs cfg) d" and ?q = "p3\<lparr>pWorld := w'\<rparr>"
    have "opened [(c, RRedis (RedisURL cfg))] p2 ?q" using ConnectRedis_run [OF 5(3)] by simp
    from opened_trans [OF conjunct1 [OF migrated [OF 5(1,2)]] this]
    have "opened (?cs @ [(c, RRedis (RedisURL cfg))]) p ?q" .
    from opened_closing_all [OF fresh this refl] show ?thesis using migrated [OF 5(1,2)] 5(4) by simp
  qed
qed

lemma New_succeeds:
  assumes fresh: "handed_out p" and run: "run_state (New I L W) p = (Inr a, q)"
  shows "started I L W (appConfig a) a \<and> opened (app_connections a) p q \<and>
    appDB a = Some (the (appDB a)) \<and> appRedis a = Some (the (appRedis a)) \<and> dbWrite (the (appDB a)) \<noteq> None \<and>
    length (dbRead (the (appDB a))) = length (ReadDSNs (appConfig a)) \<and>
    fst ` set (app_connections a) = insert (the (appRedis a)) (pool_handles (the (appDB a))) \<and>
    (\<exists>w m. run_state (EnsureBootstrapAdmin L (appConfig a) (NewUserRepository L)) w = (None, pWorld q) \<and>
       store w = \<lparr>primary = snd (goose_Up I m (tables_at I (DatabaseWriteURL (appConfig a)))),
         replicas = map (tables_at I) (ReadDSNs (appConfig a)), rr = 0\<rparr>)"
proof -
  obtain cfg d p1 p2 c p3 rel
    where db: "run_state (Connect I (DatabaseWriteURL cfg) (ReadDSNs cfg)) p = (Inr d, p1)"
      and mig: "run_state (runMigrations I (DatabaseWriteURL cfg)) p1 = (None, p2)"
      and red: "run_state (ConnectRedis I (RedisURL cfg)) p2 = (Inr c, p3)"
      and boot: "fst (run_state (EnsureBootstrapAdmin L cfg (NewUserRepository L)) (pWorld p3)) = None"
      and q: "q = p3\<lparr>pWorld := snd (run_state (EnsureBootstrapAdmin L cfg (NewUserRepository L)) (pWorld p3)),
                 pRelease := rel\<rparr>"
      and a: "appDB a = Some d" "appRedis a = Some c" "started I L W cfg a"
    using New_Inr [OF run] by metis
  let ?cs = "connections (DatabaseWriteURL cfg) (ReadDSNs cfg) d"
  have cfg: "appConfig a = cfg" using a(3) by (simp add: started_def)
  note D = Connect_run [OF fresh db, simplified]
  note M = runMigrations_run [OF opened_handed_out [OF fresh conjunct1 [OF D]] mig]
  note R = ConnectRedis_run [OF red, simplified]
  have "opened (?cs @ [] @ [(c, RRedis (RedisURL cfg))]) p p3"
    using opened_trans [OF opened_trans [OF conjunct1 [OF D] conjunct1 [OF M]] conjunct2 [OF R]] by simp
  moreover have "store (pWorld p3) = \<lparr>primary = snd (goose_Up I (Suc (pCalls p1)) (tables_at I (DatabaseWriteURL cfg))),
      replicas = map (tables_at I) (ReadDSNs cfg), rr = 0\<rparr>"
    using M R D by (cases "store (pWorld p3)") simp
  moreover have "run_state (EnsureBootstrapAdmin L cfg (NewUserRepository L)) (pWorld p3) = (None, pWorld q)"
    using boot q by (simp add: prod_eq_iff)
  ultimately show ?thesis using D a q unfolding app_connections_def cfg
    by (intro conjI exI [of _ "pWorld p3"] exI [of _ "Suc (pCalls p1)"]) (auto simp: cfg)
qed

lemma run_Shutdown:
  assumes "appDB a = Some d" "appRedis a = Some c" "appServer a = Some srv"
  shows "run_state (Shutdown I a) p =
    (server_Shutdown I (pCalls p), closing (insert c (pool_handles d)) (p\<lparr>pCalls := Suc (pCalls p)\<rparr>))"
  using assms by (simp add: Shutdown_def pool_handles_def)


section \<open>The end\<close>

lemma sched_tick_open:
  "pOpen (snd (run_state (sched_tick a i) p)) = pOpen p" "pCalls (snd (run_state (sched_tick a i) p)) = pCalls p"
  by (simp_all add: sched_tick_def)

lemma RunAll_ticks:
  "\<exists>v. pOpen v = pOpen q \<and> pCalls v = pCalls q \<and>
     run_state (RunAll I a (map Sched_ticked ns @ es)) q = run_state (RunAll I a es) v"
proof (induction ns arbitrary: q)
  case (Cons n ns)
  obtain v where v: "run_state (sched_tick a n) q = ((), v)" by (cases "run_state (sched_tick a n) q") auto
  with sched_tick_open [of a n q] have "pOpen v = pOpen q" "pCalls v = pCalls q" by simp_all
  with Cons.IH [of v] v show ?case by auto
qed auto

lemma RunWorker_ticks:
  "\<exists>v. pOpen v = pOpen q \<and> run_state (RunWorker True a (map Sched_ticked ns @ es)) q = run_state (RunWorker True a es) v"
proof (induction ns arbitrary: q)
  case (Cons n ns)
  obtain v where v: "run_state (sched_tick a n) q = ((), v)" by (cases "run_state (sched_tick a n) q") auto
  with sched_tick_open(1) [of a n q] have "pOpen v = pOpen q" by simp
  with Cons.IH [of v] v show ?case by auto
qed auto

lemma RunAPI_ticks: "RunAPI I a (map Sched_ticked ns @ es) = RunAPI I a es"
  by (induction ns) simp_all

lemma Shutdown_closes:
  assumes "handed_out p" "run_state (New I L W) p = (Inr a, q)" "pOpen v = pOpen q" "pCalls q \<le> pCalls v"
  shows "\<exists>t. run_state (Shutdown I a) v = (server_Shutdown I (pCalls v), t) \<and> pOpen t = pOpen p"
proof -
  note S = New_succeeds [OF assms(1,2)]
  obtain srv where "appServer a = Some srv" using S by (auto simp: started_def)
  then have run: "run_state (Shutdown I a) v = (server_Shutdown I (pCalls v),
      closing (fst ` set (app_connections a)) (v\<lparr>pCalls := Suc (pCalls v)\<rparr>))"
    using S run_Shutdown [of a "the (appDB a)" "the (appRedis a)"] by simp
  have "opened (app_connections a) p (v\<lparr>pCalls := Suc (pCalls v)\<rparr>)"
    using S assms(3,4) by (fastforce simp: opened_def)
  from opened_closing_all [OF assms(1) this refl] run show ?thesis by (simp add: opened_def)
qed

section \<open>The bootstrap admin\<close>

lemma Boot_ok_super_admin:
  assumes good: "single_node (store w)"
    and configured: "BootstrapAdminEmail cfg \<noteq> ''''" "BootstrapAdminPassword cfg \<noteq> ''''"
    and run: "run_state (EnsureBootstrapAdmin L cfg (NewUserRepository L)) w = (None, w')"
  shows "single_node (store w') \<and> active_super_admins (users_view (store w')) \<noteq> {}"
proof -
  have "single_node (store w')" using pg.refinesD [OF pgs.EnsureBootstrapAdmin_refines good run] by simp
  obtain c w1 where count: "run_state (pgx_users_CountSuperAdmins L) w = (c, w1)" by fastforce
  with run configured obtain n where n: "c = Inr n" by (cases c) (auto simp: EnsureBootstrapAdmin_def)
  from pg.CountSuperAdmins_run [OF good, of L c w1] count n
  have w1: "single_node (store w1)" "users_view (store w1) = users_view (store w)"
    and card: "n = int (card (active_super_admins (users_view (store w))))" by auto
  show ?thesis
  proof (cases "0 < n")
    case True
    with run configured count n have "w' = w1" by (simp add: EnsureBootstrapAdmin_def)
    with True card w1 show ?thesis by auto
  next
    case False
    obtain h w2 where hash: "run_state (bcrypt_hash L (BootstrapAdminPassword cfg)) w1 = (h, w2)" by fastforce
    then have w2: "store w2 = store w1" by (auto simp: bcrypt_hash_def)
    from False run configured count n hash obtain hv where hv: "h = Inr hv"
      by (cases h) (auto simp: EnsureBootstrapAdmin_def)
    obtain u where create: "run_state (pgx_users_Create L \<lparr>cuEmail = BootstrapAdminEmail cfg,
        cuName = BootstrapAdminName cfg, cuPasswordHash = hv, cuRole = RoleSuperAdmin\<rparr>) w2 = (Inr u, w')"
      using False run configured count n hash hv
      by (auto simp: EnsureBootstrapAdmin_def split: prod.splits sum.splits)
    from pgx_users_Create_run [OF _ create] w1 w2
    have new: "new_user (norm_email (unicode_lower L)) \<lparr>cuEmail = BootstrapAdminEmail cfg,
        cuName = BootstrapAdminName cfg, cuPasswordHash = hv, cuRole = RoleSuperAdmin\<rparr> u"
      and view: "users_view (store w') = (users_view (store w2))(uID u \<mapsto> u)" by auto
    from new have "super_admin u" by (simp add: new_user_def super_admin_def)
    with view \<open>single_node (store w')\<close> show ?thesis by (simp add: active_super_admins_upd)
  qed
qed


section \<open>One start\<close>

definition example_infra :: infra where
  "example_infra =
     \<lparr>env_Parse = Inr (example_config\<lparr>BootstrapAdminEmail := ''root@x'', BootstrapAdminPassword := ''correct horse''\<rparr>),
      strconv_Quote = (\<lambda>s. s),
      zap_NewProductionConfig = \<lparr>zapEncodeLevel = ''l'', zapOutputPaths = [], zapErrorOutputPaths = [], zapOther = ''''\<rparr>,
      zap_NewDevelopmentConfig = \<lparr>zapEncodeLevel = ''l'', zapOutputPaths = [], zapErrorOutputPaths = [], zapOther = ''''\<rparr>,
      zap_Build = (\<lambda>_. None), pgxpool_New = (\<lambda>_ _. None), pool_Ping = (\<lambda>_ _. None),
      tables_at = (\<lambda>_. \<lparr>users = [], password_resets = [], audit_logs = []\<rparr>),
      goose_OpenDB = (\<lambda>_ _. None), goose_Up = (\<lambda>_ t. (None, t)), redis_ParseURL = (\<lambda>_. None),
      redis_Ping = (\<lambda>_ _. None), server_Shutdown = (\<lambda>_. None)\<rparr>"

definition example_proc :: proc where
  "example_proc = \<lparr>pOpen = [], pCalls = 0, pRelease = False, pWorld = empty_world\<rparr>"

lemma example_handed_out [simp]: "handed_out example_proc"
  by (simp add: handed_out_def example_proc_def)

lemma example_infra_simps [simp]:
  "zap_Build example_infra c = None" "pgxpool_New example_infra n s = None" "pool_Ping example_infra n s = None"
  "tables_at example_infra s = \<lparr>users = [], password_resets = [], audit_logs = []\<rparr>"
  "goose_OpenDB example_infra n s = None" "goose_Up example_infra n t = (None, t)"
  "redis_ParseURL example_infra s = None" "redis_Ping example_infra n s = None"
  by (simp_all add: example_infra_def)

lemma example_valid: "Validate (\<lambda>s. s) (example_config\<lparr>BootstrapAdminEmail := e, BootstrapAdminPassword := p\<rparr>) = None"
  by code_simp

lemma example_Load:
  "Load (strconv_Quote example_infra) (env_Parse example_infra) =
     Inr (example_config\<lparr>BootstrapAdminEmail := ''root@x'', BootstrapAdminPassword := ''correct horse''\<rparr>)"
  by (simp add: example_infra_def Load_def example_valid)

lemma example_ReadDSNs [simp]: "ReadDSNs (example_config\<lparr>BootstrapAdminEmail := e, BootstrapAdminPassword := p\<rparr>) = []"
  by (simp add: ReadDSNs_def example_config_def default_config_def)

lemma example_boot:
  assumes "store w = \<lparr>primary = \<lparr>users = [], password_resets = [], audit_logs = []\<rparr>, replicas = [], rr = 0\<rparr>"
  shows "fst (run_state (EnsureBootstrapAdmin example_outside
      (example_config\<lparr>BootstrapAdminEmail := ''root@x'', BootstrapAdminPassword := ''correct horse''\<rparr>)
      (NewUserRepository example_outside)) w) = None"
proof -
  let ?cfg = "example_config\<lparr>BootstrapAdminEmail := ''root@x'', BootstrapAdminPassword := ''correct horse''\<rparr>"
  obtain e w1 where run: "run_state (EnsureBootstrapAdmin example_outside ?cfg (NewUserRepository example_outside)) w = (e, w1)"
    by fastforce
  have "single_node (store w)" "users_view (store w) i = None" for i
    using assms by (simp_all add: single_node_def wf_tables_def users_view_def)
  with Boot_establishes [of w ?cfg example_outside "''h:'' @ BootstrapAdminPassword ?cfg" e w1] run
  have "e = None" by simp
  with run show ?thesis by simp
qed

lemma example_New: "\<exists>a q. run_state (New example_infra example_outside example_web) example_proc = (Inr a, q)"
proof -
  have "fst (run_state (New example_infra example_outside example_web) example_proc) = Inr a \<Longrightarrow> ?thesis" for a
    by (metis prod.collapse)
  moreover have "\<exists>a. fst (run_state (New example_infra example_outside example_web) example_proc) = Inr a"
    by (simp add: New_def example_Load NewLogger_def Connect_def connectPool_def runMigrations_def ConnectRedis_def
        example_boot Let_def)
  ultimately show ?thesis by blast
qed

text \<open>A Redis that does not answer: the start gives up and leaves the client open.\<close>

lemma redis_ping_leaks:
  "\<exists>e q. run_state (ConnectRedis (example_infra\<lparr>redis_Ping := \<lambda>_ _. Some (Plain ''i/o timeout'')\<rparr>) ''redis://cache/0'')
      example_proc = (Inl e, q) \<and> pOpen q = [(0, RRedis ''redis://cache/0'')]"
  by (simp add: ConnectRedis_def example_infra_def example_proc_def)

section \<open>Properties\<close>

text \<open>C7: starting the application leaks no database connection: when it fails, whatever the step, every pool
  that it opened is closed again, and all that can stay open is a Redis client whose ping failed; when it
  succeeds, exactly the write pool, one pool for each read DSN and the Redis client are open, and
  \<open>Shutdown\<close> closes them all.\<close>

theorem New_connections:
  assumes "handed_out p" and "run_state (New I L W) p = (r, q)"
  shows "case r of
      Inl err \<Rightarrow> pOpen q = pOpen p \<or> (\<exists>h m url. pOpen q = pOpen p @ [(h, RRedis url)] \<and> redis_Ping I m url \<noteq> None)
    | Inr a \<Rightarrow>
        (\<exists>w readers c. length readers = length (ReadDSNs (appConfig a)) \<and>
           pOpen q = pOpen p @ (w, RPool (DatabaseWriteURL (appConfig a))) #
             zip readers (map RPool (ReadDSNs (appConfig a))) @ [(c, RRedis (RedisURL (appConfig a)))]) \<and>
        pOpen (snd (run_state (Shutdown I a) q)) = pOpen p"
proof (cases r)
  case (Inl err)
  with New_gives_up [OF assms(1), of I L W err q] assms(2) show ?thesis by (auto simp: opened_def)
next
  case (Inr a)
  with assms(2) have run: "run_state (New I L W) p = (Inr a, q)" by simp
  note S = New_succeeds [OF assms(1) run]
  obtain w where "dbWrite (the (appDB a)) = Some w" using S by blast
  with S Inr Shutdown_closes [OF assms(1) run refl order_refl] show ?thesis
    by (fastforce simp: opened_def app_connections_def connections_def)
qed

theorem New_connections_witness:
  "\<exists>a q. run_state (New example_infra example_outside example_web) example_proc = (Inr a, q) \<and>
     length (pOpen q) = 2 + length (ReadDSNs (appConfig a)) \<and>
     pOpen (snd (run_state (Shutdown example_infra a) q)) = []"
proof -
  obtain a q where run: "run_state (New example_infra example_outside example_web) example_proc = (Inr a, q)"
    using example_New by blast
  from New_connections [OF example_handed_out run] run show ?thesis by (auto simp: example_proc_def)
qed

text \<open>C38: an application starts only with the configuration that the environment holds and only when that
  validates: three usable kinds of URL, a secret of at least 32 bytes and a stream name, both without the white
  space around them. Otherwise the start fails with the error of the loading and has opened nothing, called
  nothing and changed nothing. One that starts serves exactly the table that \<open>routes.Setup\<close> builds over the
  PostgreSQL repositories on \<open>HTTP_PORT\<close>, has the sweep of expired resets as its only scheduled job, every
  half hour, and no job for its worker.\<close>

theorem New_wiring:
  assumes "handed_out p" and "run_state (New I L W) p = (r, q)"
  shows "(\<forall>err. env_Parse I = Inl err \<longrightarrow> r = Inl (Wrapped ''load config'' (Wrapped ''parse config'' err)) \<and> q = p) \<and>
    (\<forall>cfg. env_Parse I = Inr cfg \<longrightarrow>
      (if usable_url (DatabaseWriteURL cfg) \<and> list_all usable_url (ReadDSNs cfg) \<and> usable_url (RedisURL cfg) \<and>
          32 \<le> length (TrimSpace (AppSecret cfg)) \<and> TrimSpace (EventStream cfg) \<noteq> ''''
       then \<forall>a. r = Inr a \<longrightarrow> appConfig a = cfg \<and>
          appRouter a = Setup L W cfg (NewServices_Auth L cfg) (NewServices_Users L cfg) (NewAuditRepository L) \<and>
          map_option srvHandler (appServer a) = Some (appRouter a) \<and>
          map_option srvAddr (appServer a) = Some ('':'' @ HTTPPort cfg) \<and>
          wkJobs (appJobs a) = [] \<and>
          map sjName (scJobs (appSched a)) = [''cleanup.expired_password_resets''] \<and>
          map sjInterval (scJobs (appSched a)) = [1800000000000] \<and>
          map sjHandler (scJobs (appSched a)) = [pgx_resets_DeleteExpired L]
       else (\<exists>e. r = Inl (Wrapped ''load config'' (Wrapped ''validate config'' e))) \<and> q = p))"
    (is "_ \<and> (\<forall>cfg. _ \<longrightarrow> ?wiring cfg)")
proof (intro conjI allI impI)
  fix err assume "env_Parse I = Inl err"
  with assms(2) show "r = Inl (Wrapped ''load config'' (Wrapped ''parse config'' err))" "q = p"
    by (simp_all add: New_def Load_def)
next
  fix cfg assume env: "env_Parse I = Inr cfg"
  have valid: "usable_url (DatabaseWriteURL cfg) \<and> list_all usable_url (ReadDSNs cfg) \<and> usable_url (RedisURL cfg) \<and>
      32 \<le> length (TrimSpace (AppSecret cfg)) \<and> TrimSpace (EventStream cfg) \<noteq> '''' \<longleftrightarrow>
      Validate (strconv_Quote I) cfg = None"
    by (simp add: Validate_None list_all_iff)
  show "?wiring cfg"
    unfolding valid
  proof (split if_split, intro conjI impI allI)
    fix a assume "r = Inr a"
    then have S: "started I L W (appConfig a) a" using New_succeeds [OF assms(1)] assms(2) by blast
    then have "appConfig a = cfg" using env by (auto simp: started_def Load_def split: option.splits)
    with S show "appConfig a = cfg"
      "appRouter a = Setup L W cfg (NewServices_Auth L cfg) (NewServices_Users L cfg) (NewAuditRepository L)"
      "map_option srvHandler (appServer a) = Some (appRouter a)"
      "map_option srvAddr (appServer a) = Some ('':'' @ HTTPPort cfg)" "wkJobs (appJobs a) = []"
      "map sjName (scJobs (appSched a)) = [''cleanup.expired_password_resets'']"
      "map sjInterval (scJobs (appSched a)) = [1800000000000]"
      "map sjHandler (scJobs (appSched a)) = [pgx_resets_DeleteExpired L]"
      by (auto simp: started_def cleanup_job_def time_Minute_def)
  next
    assume "Validate (strconv_Quote I) cfg \<noteq> None"
    with assms(2) env show "\<exists>e. r = Inl (Wrapped ''load config'' (Wrapped ''validate config'' e))" "q = p"
      by (auto simp: New_def Load_def)
  qed
qed

theorem New_wiring_witness:
  "\<exists>a q. run_state (New example_infra example_outside example_web) example_proc = (Inr a, q) \<and>
     HTTPPort (appConfig a) = ''8080'' \<and> map_option srvAddr (appServer a) = Some '':8080''"
proof -
  let ?cfg = "example_config\<lparr>BootstrapAdminEmail := ''root@x'', BootstrapAdminPassword := ''correct horse''\<rparr>"
  obtain a q where run: "run_state (New example_infra example_outside example_web) example_proc = (Inr a, q)"
    using example_New by blast
  have env: "env_Parse example_infra = Inr ?cfg" by (simp add: example_infra_def)
  have port: "HTTPPort ?cfg = ''8080''" by (simp add: example_config_def default_config_def)
  have "appConfig a = ?cfg \<and> map_option srvAddr (appServer a) = Some ('':'' @ HTTPPort ?cfg)"
    using New_wiring [OF example_handed_out run] env by (auto split: if_splits)
  with run port show ?thesis by auto
qed

text \<open>C18: how a process that started ends when it is told to stop, whatever sweeps ran before: the server and
  the API close every connection they opened and exit with 0 unless the HTTP server failed to shut down; the
  worker exits with 1, for the cancellation itself, and never closes its connections.\<close>

theorem graceful_stop:
  assumes "handed_out p" and "run_state (New I L W) p = (Inr a, q)"
  shows "(\<exists>t. run_state (main_worker I L W (map Sched_ticked ns @ [Ctx_done])) p =
        (Some (1, ''runtime error: context canceled'' @ [CHR 10]), t) \<and> pOpen t = pOpen q \<and> pOpen q \<noteq> pOpen p) \<and>
    (\<forall>main \<in> {main_server, main_api}. \<exists>t n. run_state (main I L W (map Sched_ticked ns @ [Ctx_done])) p =
        (Some (case server_Shutdown I n of None \<Rightarrow> (0, '''')
           | Some err \<Rightarrow> (1, ''runtime error: '' @ error_text err @ [CHR 10])), t) \<and> pOpen t = pOpen p)"
proof -
  note S = New_succeeds [OF assms]
  obtain v where v: "pOpen v = pOpen q"
    "run_state (RunWorker True a (map Sched_ticked ns @ [Ctx_done])) q = run_state (RunWorker True a [Ctx_done]) v"
    using RunWorker_ticks [of q a ns "[Ctx_done]"] by blast
  have "pOpen q \<noteq> pOpen p" using S by (simp add: opened_def app_connections_def)
  with v S assms(2) have worker: "\<exists>t. run_state (main_worker I L W (map Sched_ticked ns @ [Ctx_done])) p =
      (Some (1, ''runtime error: context canceled'' @ [CHR 10]), t) \<and> pOpen t = pOpen q \<and> pOpen q \<noteq> pOpen p"
    by (simp add: main_worker_def main_of_def run_idle_def started_def)
  obtain u where u: "pOpen u = pOpen q" "pCalls u = pCalls q"
    "run_state (RunAll I a (map Sched_ticked ns @ [Ctx_done])) q = run_state (RunAll I a [Ctx_done]) u"
    using RunAll_ticks [of q I a ns "[Ctx_done]"] by blast
  obtain t where t: "run_state (Shutdown I a) u = (server_Shutdown I (pCalls u), t)" "pOpen t = pOpen p"
    using Shutdown_closes [OF assms u(1)] u(2) by auto
  obtain t' where t': "run_state (Shutdown I a) q = (server_Shutdown I (pCalls q), t')" "pOpen t' = pOpen p"
    using Shutdown_closes [OF assms refl] by auto
  have "\<exists>t n. run_state (main_server I L W (map Sched_ticked ns @ [Ctx_done])) p =
      (Some (case server_Shutdown I n of None \<Rightarrow> (0, '''')
         | Some err \<Rightarrow> (1, ''runtime error: '' @ error_text err @ [CHR 10])), t) \<and> pOpen t = pOpen p"
    using u(3) t assms(2)
    by (intro exI [of _ t] exI [of _ "pCalls u"]) (simp add: main_server_def main_of_def split: option.split)
  moreover have "\<exists>t n. run_state (main_api I L W (map Sched_ticked ns @ [Ctx_done])) p =
      (Some (case server_Shutdown I n of None \<Rightarrow> (0, '''')
         | Some err \<Rightarrow> (1, ''runtime error: '' @ error_text err @ [CHR 10])), t) \<and> pOpen t = pOpen p"
    using t' assms(2)
    by (intro exI [of _ t'] exI [of _ "pCalls q"]) (simp add: main_api_def main_of_def RunAPI_ticks split: option.split)
  ultimately show ?thesis using worker by simp
qed

theorem graceful_stop_witness:
  "\<exists>t. run_state (main_worker example_infra example_outside example_web [Sched_ticked 0, Ctx_done]) example_proc =
     (Some (1, ''runtime error: context canceled'' @ [CHR 10]), t) \<and> pOpen t \<noteq> []"
proof -
  obtain a q where run: "run_state (New example_infra example_outside example_web) example_proc = (Inr a, q)"
    using example_New by blast
  from graceful_stop [OF example_handed_out run, of "[0]"] show ?thesis by (auto simp: example_proc_def)
qed


text \<open>C4: when the bootstrap admin is configured and there are no replicas, an application that started has an
  active super admin, over any database that the migrations leave well-formed, and keeps one through
  whatever calls, sweeps and audit writes the process runs afterwards, as long as it runs them one at a
  time (two that interleave can remove the last two).\<close>

theorem New_super_admin:
  assumes "handed_out p" and "run_state (New I L W) p = (Inr a, q)"
    and "BootstrapAdminEmail (appConfig a) \<noteq> ''''" "BootstrapAdminPassword (appConfig a) \<noteq> ''''"
    and "ReadDSNs (appConfig a) = []"
    and "\<forall>n. wf_tables (snd (goose_Up I n (tables_at I (DatabaseWriteURL (appConfig a)))))"
    and "process_run M (appConfig a) (pWorld q) w"
  shows "active_super_admins (users_view (store (pWorld q))) \<noteq> {} \<and>
    active_super_admins (users_view (store w)) \<noteq> {}"
proof -
  obtain w0 m where boot: "run_state (EnsureBootstrapAdmin L (appConfig a) (NewUserRepository L)) w0 = (None, pWorld q)"
    and "store w0 = \<lparr>primary = snd (goose_Up I m (tables_at I (DatabaseWriteURL (appConfig a)))),
      replicas = map (tables_at I) (ReadDSNs (appConfig a)), rr = 0\<rparr>"
    using New_succeeds [OF assms(1,2)] by blast
  then have "single_node (store w0)" using assms(5,6) by (simp add: single_node_def)
  note B = Boot_ok_super_admin [OF this assms(3,4) boot]
  from B process_run_refines [OF assms(7)] show ?thesis using steps_keep(3) by blast
qed

theorem New_super_admin_witness:
  "\<exists>a q. run_state (New example_infra example_outside example_web) example_proc = (Inr a, q) \<and>
     active_super_admins (users_view (store (pWorld q))) \<noteq> {}"
proof -
  obtain a q where run: "run_state (New example_infra example_outside example_web) example_proc = (Inr a, q)"
    using example_New by blast
  then have "appConfig a = example_config\<lparr>BootstrapAdminEmail := ''root@x'', BootstrapAdminPassword := ''correct horse''\<rparr>"
    using New_succeeds [OF example_handed_out run] example_Load by (simp add: started_def)
  then show ?thesis
    using New_super_admin [OF example_handed_out run, where w = "pWorld q"] run by (simp add: wf_tables_def)
qed

end
