(* ===== verification/Events.thy ===== *)
theory Events
  imports Runtime
begin

text \<open>
  \<open>internal/events\<close>: publishing to a Redis stream. The stream is an append-only list of entries; a command
  that loses its acknowledgement has taken effect. Encoding a payload and rendering a time are the standard
  library's, with Unicode and calendar tables, and are arguments.
\<close>

section \<open>Events\<close>

record Event =
  evID :: string
  evType :: string
  evPayload :: string \<comment> \<open>raw JSON\<close>
  evOccurredAt :: time

definition EventUserCreated :: string where "EventUserCreated = ''user.created''"
definition EventUserUpdated :: string where "EventUserUpdated = ''user.updated''"
definition EventUserInvited :: string where "EventUserInvited = ''user.invited''"
definition EventUserLoggedIn :: string where "EventUserLoggedIn = ''user.logged_in''"
definition EventUserLoggedOut :: string where "EventUserLoggedOut = ''user.logged_out''"
definition EventPasswordReset :: string where "EventPasswordReset = ''user.password_reset''"
definition EventUserDeactivated :: string where "EventUserDeactivated = ''user.deactivated''"

section \<open>Streams\<close>

type_synonym entry = "(string \<times> string) list"
type_synonym streams = "(string \<times> entry) list" \<comment> \<open>the entries of all streams, oldest first\<close>

record Publisher =
  pubStream :: string

definition NewPublisher :: "string \<Rightarrow> Publisher" where
  "NewPublisher stream = \<lparr>pubStream = stream\<rparr>"

text \<open>\<open>XADD\<close>, under the faults of Redis. The fields of an entry come from a Go map, whose order is open; they are
  listed in the order of the source.\<close>

definition rdb_XAdd :: "outside \<Rightarrow> string \<Rightarrow> entry \<Rightarrow> (streams world, goerr option) state" where
  "rdb_XAdd L stream values = do {
     n \<leftarrow> tick;
     case redis_fault L n of
       Refused m \<Rightarrow> ret (Some (Plain m))
     | f \<Rightarrow> do {
         _ \<leftarrow> State_Monad.update (\<lambda>w. w\<lparr>store := store w @ [(stream, values)]\<rparr>);
         ret (case f of AckLost m \<Rightarrow> Some (Plain m) | _ \<Rightarrow> None)
       }
   }"

text \<open>What the publisher asks of \<open>encoding/json\<close> and \<open>time\<close>: a value encoded, a raw message checked and
  compacted, a time in UTC in the layout \<open>RFC3339Nano\<close>.\<close>

record 'v codec =
  json_Marshal :: "'v \<Rightarrow> goerr + string"
  json_Compact :: "string \<Rightarrow> goerr + string"
  rfc3339_utc :: "time \<Rightarrow> string"

definition Publish :: "outside \<Rightarrow> 'v codec \<Rightarrow> Publisher \<Rightarrow> Event \<Rightarrow> (streams world, goerr option) state" where
  "Publish L C p event =
     (case json_Compact C (evPayload event) of
        Inl err \<Rightarrow> ret (Some (Wrapped ''marshal event payload'' err))
      | Inr data \<Rightarrow>
          rdb_XAdd L (pubStream p)
            [(''event_id'', evID event), (''event_type'', evType event), (''payload'', data),
             (''occurred_at'', rfc3339_utc C (evOccurredAt event))])"

definition PublishRaw :: "outside \<Rightarrow> 'v codec \<Rightarrow> Publisher \<Rightarrow> string \<Rightarrow> 'v \<Rightarrow> (streams world, goerr option) state" where
  "PublishRaw L C p eventType payload =
     (case json_Marshal C payload of
        Inl err \<Rightarrow> ret (Some (Wrapped ''marshal payload'' err))
      | Inr data \<Rightarrow> do {
          now \<leftarrow> time_Now L;
          Publish L C p \<lparr>evID = '''', evType = eventType, evPayload = data, evOccurredAt = now\<rparr>
        })"

section \<open>Facts\<close>

text \<open>An event is published at most once; when the caller sees no error, exactly once, with the payload it gave.\<close>

lemma run_rdb_XAdd:
  "run_state (rdb_XAdd L stream vs) w =
     (case redis_fault L (ticks w) of
        Refused m \<Rightarrow> (Some (Plain m), w\<lparr>ticks := Suc (ticks w)\<rparr>)
      | AckLost m \<Rightarrow> (Some (Plain m), w\<lparr>ticks := Suc (ticks w), store := store w @ [(stream, vs)]\<rparr>)
      | Healthy \<Rightarrow> (None, w\<lparr>ticks := Suc (ticks w), store := store w @ [(stream, vs)]\<rparr>))"
  by (simp add: rdb_XAdd_def State_Monad.update_def split: fault.split)

lemma PublishRaw_once:
  assumes "run_state (PublishRaw L C p ty x) w = (e, w')"
  shows "(store w' = store w \<and> e \<noteq> None) \<or>
    (\<exists>raw data. json_Marshal C x = Inr raw \<and> json_Compact C raw = Inr data \<and>
       store w' = store w @ [(pubStream p, [(''event_id'', ''''), (''event_type'', ty), (''payload'', data),
         (''occurred_at'', rfc3339_utc C (now_at L (ticks w)))])])"
  using assms
  by (auto simp: PublishRaw_def Publish_def run_rdb_XAdd split: sum.splits fault.splits)

end
