(* ===== verification/Spec2Isabelle.thy ===== *)
theory Spec2Isabelle
  imports BootFacts Events
begin

text \<open>
  Verification library of the Go service \<open>go-with-me\<close>: an HTTP API for accounts (login with a second
  factor, invitations, password resets, roles, an audit trail) over PostgreSQL and Redis, with background
  jobs. Paths below are under \<open>src/\<close>; a definition keeps the name of the Go function, with the receiver as
  prefix where several types share it (\<open>Auth_Login\<close>, \<open>Users_Update\<close>, \<open>UserHandler_List\<close>).

  \<^bold>\<open>How a run is modelled.\<close> An operation is a state transformer over \<open>'d world\<close> (Runtime): the store behind
  the repositories, the log of Redis commands, what the notifier has sent, and the counter \<open>ticks\<close> that
  numbers every call leaving the process. What such a call meets (clock, random source, faults of the
  network, third-party functions) is the parameter \<open>outside\<close>, so a theorem for every \<open>outside\<close> covers every
  failure, also a statement that takes effect and loses its acknowledgement. A Go \<open>error\<close> is a value of
  \<open>goerr\<close>; a result with an error is a sum; a 64-bit \<open>int\<close> is a word; a string is its bytes.

  \<^bold>\<open>Parts, bottom up.\<close>
  \<^item> Prelude, GoStd, GoUrl: collections of rules, relations over the state monad, and the parts of Go's
    \<open>strings\<close>, \<open>strconv\<close>, \<open>time\<close> and \<open>net/url\<close> that the program calls.
  \<^item> ApiError, Pagination, Models: \<open>internal/lib/apierror.go\<close>, \<open>response.go\<close>, \<open>pagination.go\<close> and
    \<open>internal/models\<close>. Bounds and wrap-around of paging, and who has which permission.
  \<^item> Token: \<open>internal/auth/token.go\<close> over a JWT library \<open>J\<close> with \<open>jwt_laws J\<close> (a signed token parses under its
    secret until it expires, and nothing else parses). Round trips of the issuers.
  \<^item> Runtime, Database, Interfaces, UserRepo, ResetRepo, AuditRepo: the schema of \<open>migrations/\<close> as tables with
    its constraints, the read pools of \<open>internal/bootstrap/database.go\<close>, the interfaces of
    \<open>internal/repository/interfaces\<close> as records of operations with their contracts as locales, and
    \<open>internal/repository/implementation\<close>, statement by statement. Each contract is interpreted on that
    implementation over one node (\<open>single_node\<close>: no replicas, constraints hold).
  \<^item> Config: \<open>internal/config/config.go\<close>.
  \<^item> AuthService, AuthFacts, LoginFacts, AuthFlows: \<open>internal/services/auth_service.go\<close>. Which accounts a call
    may change, the lockout, what a login, a confirmed code, a reset code and an invitation lead to.
  \<^item> UserService, UserFacts: \<open>internal/services/user_service.go\<close>. The answers of each operation, and what the
    check for the last super admin misses between two requests.
  \<^item> Accounts, System: the abstract machine of accounts (\<open>account_step\<close>), which a process that runs its calls
    one at a time (\<open>process_run\<close>) refines, whatever calls, boots, sweeps and audit entries come in whatever order
    and fail however they do; the invariants of the machine are so invariants of such a process. What holds
    also when concurrent requests interleave between their statements is proved over \<open>repo_run\<close>, the runs of
    single repository operations; that the last super admin stays does not (\<open>Deactivate_interleaved\<close>).
  \<^item> RateWindow, Gin, Middleware: \<open>internal/api/middleware\<close>. A handler is a function from a request and the keys
    of its context to a response; a middleware wraps the handlers behind it. The limiter equals a fixed
    window when Redis does what it documents (\<open>redis_documented\<close>) and the client sends an \<open>EXPIRE\<close> in whole
    seconds, at least one (\<open>whole_seconds\<close>).
  \<^item> Handlers, Routes, RouteFacts: \<open>internal/api/handlers\<close> and \<open>internal/api/routes/routes.go\<close>. The theorems of
    RouteFacts are about whole requests through \<open>Setup\<close>.
  \<^item> Jobs: \<open>internal/jobs\<close>. The worker is a step relation over its goroutines and the error channel, with a
    measure that bounds its runs; a scheduled job is the sequence of events that its \<open>select\<close> picks.
  \<^item> Bootstrap, BootFacts: \<open>internal/bootstrap\<close>, \<open>internal/lib/logger.go\<close>, \<open>cmd\<close>. The start and the end of a
    process over the connections it holds open; composed with System, what a started process keeps.
  \<^item> Events: \<open>internal/events\<close>.
  \<^item> Examples: one concrete outside, configuration and store, on which witnesses evaluate the program.

  \<^bold>\<open>Bounds.\<close> No definition uses fuel: recursion is structural or has a measure (\<open>trim_front\<close>, \<open>dec_digits\<close>), and
  loops that wait (\<open>runJob\<close>, \<open>RunAll\<close>) consume a finite sequence of events, a run that ends before an answer
  being one that still waits.

  \<^bold>\<open>Parameters and what is assumed of them.\<close> bcrypt, TOTP and SHA-256 (nothing but what a theorem names), the
  JWT library (\<open>jwt_laws\<close>), the Unicode case tables (\<open>unicode_laws\<close>), the counters of Redis
  (\<open>redis_documented\<close>), JSON decoding and the validator (\<open>web\<close>), the drivers, goose and zap (\<open>infra\<close>). Each
  hypothesis is met by the stand-ins of Examples, RouteFacts and BootFacts.

  \<^bold>\<open>Not modelled.\<close> Log lines, the matching of a path against patterns (Gin), the rendering of times, the isolation
  of concurrent SQL statements beyond one statement after another (a race between two requests is the
  interleaving of their statements), the check of PostgreSQL that a text value is UTF-8 without a zero byte
  (one that is not makes the statement fail, like any other fault; a theorem about a database that answers
  presupposes it), the capacity of the worker's error channel as a field (\<open>Worker_Run_returns\<close> bounds what is
  in it by the capacity of the source), the timeouts of the HTTP server, and the health of replicas: facts
  about the tables are stated for one node, while replica selection itself is modelled. \<open>queries/\<close> is input of
  a code generator whose output the program does not use.
\<close>

end
